(* ===== verification/Prelude.thy ===== *)
theory Prelude
  imports Main "HOL-Library.Word"
begin

unbundle bit_operations_syntax

text \<open>
  Shared vocabulary of the development: the machine integer types of the 32-bit ARM target, the
  outcome type of firmware code, clock arithmetic, and the list lemmas that more than one
  component uses.
\<close>

section \<open>Machine integers\<close>

type_synonym u8 = "8 word"
type_synonym u16 = "16 word"
type_synonym u32 = "32 word"
type_synonym u64 = "64 word"

text \<open>C truth values: any non-zero integer is true, comparisons yield 0 or 1.\<close>

definition c_bool :: "bool \<Rightarrow> 'a::len word" where
  "c_bool b = (if b then 1 else 0)"

text \<open>Test of a flag bit, the C expression \<open>x & f\<close> used as a condition.\<close>

definition has :: "'a::len word \<Rightarrow> 'a word \<Rightarrow> bool" where
  "has x f \<longleftrightarrow> x AND f \<noteq> 0"

text \<open>A store into element \<open>i\<close> of a heap or a register file.\<close>

definition upd :: "('k \<Rightarrow> 'v) \<Rightarrow> 'k \<Rightarrow> ('v \<Rightarrow> 'v) \<Rightarrow> 'k \<Rightarrow> 'v" where
  "upd h p f = h(p := f (h p))"

lemma upd_same [simp]: "upd h p f p = f (h p)"
  by (simp add: upd_def)

lemma upd_other [simp]: "q \<noteq> p \<Longrightarrow> upd h p f q = h q"
  by (simp add: upd_def)

lemma upd_other_sym [simp]: "p \<noteq> q \<Longrightarrow> upd h p f q = h q"
  by (auto simp: upd_def)

section \<open>Outcome of firmware code\<close>

text \<open>
  A C function either returns a value in a new state (\<open>Ret\<close>), leaves through
  \<open>sched_shutdown\<close>, that is a \<open>longjmp\<close> to the main loop with the state as it is at that
  moment (\<open>Shut\<close>, with the static string that names the reason), or does not return at all
  because it follows a null pointer or loops for ever (\<open>Fault\<close>).
\<close>

type_synonym reason = string

datatype ('a, 's) res = Ret 'a 's | Shut reason 's | Fault

fun bind :: "('a, 's) res \<Rightarrow> ('a \<Rightarrow> 's \<Rightarrow> ('b, 's) res) \<Rightarrow> ('b, 's) res" where
  "bind (Ret x s) f = f x s"
| "bind (Shut r s) f = Shut r s"
| "bind Fault f = Fault"

text \<open>Weakest precondition of an outcome: \<open>P\<close> on return, \<open>Q\<close> on shutdown, never a fault.\<close>

fun outcome :: "('a, 's) res \<Rightarrow> ('a \<Rightarrow> 's \<Rightarrow> bool) \<Rightarrow> (reason \<Rightarrow> 's \<Rightarrow> bool) \<Rightarrow> bool" where
  "outcome (Ret x s) P Q = P x s"
| "outcome (Shut r s) P Q = Q r s"
| "outcome Fault P Q = False"

lemma bind_cong [fundef_cong]:
  "m = m' \<Longrightarrow> (\<And>x s. m' = Ret x s \<Longrightarrow> f x s = g x s) \<Longrightarrow> bind m f = bind m' g"
  by (cases m') simp_all

lemma bind_assoc: "bind (bind m f) g = bind m (\<lambda>x s. bind (f x s) g)"
  by (cases m) simp_all

lemma bind_Ret_iff: "bind m f = Ret y t \<longleftrightarrow> (\<exists>x s. m = Ret x s \<and> f x s = Ret y t)"
  by (cases m) auto

lemma outcome_bind: "outcome (bind m f) P Q = outcome m (\<lambda>x s. outcome (f x s) P Q) Q"
  by (cases m) simp_all

lemma outcome_mono:
  "outcome m P Q \<Longrightarrow> (\<And>x s. P x s \<Longrightarrow> P' x s) \<Longrightarrow> (\<And>r s. Q r s \<Longrightarrow> Q' r s)
    \<Longrightarrow> outcome m P' Q'"
  by (cases m) auto

lemma outcome_if [simp]: "outcome (if b then m else n) P Q = (if b then outcome m P Q else outcome n P Q)"
  by simp

section \<open>Clock arithmetic\<close>

text \<open>
  The clock is a free running 32-bit counter. \<open>ahead b w\<close> is the number of ticks from \<open>b\<close>
  forward to \<open>w\<close>; inside a window of half the counter range that starts at \<open>b\<close>,
  \<open>timer_is_before\<close> of the board code is the order of these distances.
\<close>

definition ahead :: "u32 \<Rightarrow> u32 \<Rightarrow> nat" where
  "ahead b w = unat (w - b)"

definition in_window :: "u32 \<Rightarrow> u32 \<Rightarrow> bool" where
  "in_window b w \<longleftrightarrow> ahead b w < 2147483648"

text \<open>\<open>timer_is_before\<close> of \<^verbatim>\<open>generic/armcm_timer.c\<close>: \<open>(int32_t)(time1 - time2) < 0\<close>.\<close>

definition timer_is_before :: "u32 \<Rightarrow> u32 \<Rightarrow> bool" where
  "timer_is_before time1 time2 \<longleftrightarrow> sint (time1 - time2) < 0"

lemma uint_u32_bounds: "0 \<le> uint (x::u32)" "uint (x::u32) < 4294967296"
  using uint_lt2p [of x] by simp_all

lemma sint_u32: "sint (x::u32) = (if uint x < 2147483648 then uint x else uint x - 4294967296)"
proof -
  have "sint x = (uint x + 2147483648) mod 4294967296 - 2147483648"
    using int_word_sint [where 'a = 32 and x = "uint x"] by simp
  moreover have "(uint x + 2147483648) mod 4294967296 =
      (if uint x < 2147483648 then uint x + 2147483648 else uint x - 2147483648)"
  proof (cases "uint x < 2147483648")
    case True
    then show ?thesis
      using uint_u32_bounds [of x] by simp
  next
    case False
    have "uint x + 2147483648 = (uint x - 2147483648) + 4294967296" by simp
    then have "(uint x + 2147483648) mod 4294967296 = (uint x - 2147483648) mod 4294967296"
      by (simp only: mod_add_self2)
    with False show ?thesis
      using uint_u32_bounds [of x] by simp
  qed
  ultimately show ?thesis by simp
qed

lemma sint_neg_iff: "sint (x::u32) < 0 \<longleftrightarrow> 2147483648 \<le> unat x"
proof -
  have "uint x = int (unat x)" by simp
  moreover have "sint x < 0 \<longleftrightarrow> 2147483648 \<le> uint x"
    using uint_u32_bounds [of x] by (simp add: sint_u32 not_less)
  ultimately show ?thesis by linarith
qed

lemma timer_is_before_iff: "timer_is_before a c \<longleftrightarrow> 2147483648 \<le> unat (a - c)"
  by (simp add: timer_is_before_def sint_neg_iff)

lemma unat_word_diff:
  fixes x y :: u32
  shows "unat (x - y) = (if unat y \<le> unat x then unat x - unat y else unat x + 4294967296 - unat y)"
  by (simp add: unat_sub_if')

lemma ahead_shift: "unat (a - c) =
    (if ahead b c \<le> ahead b a then ahead b a - ahead b c else ahead b a + 4294967296 - ahead b c)"
  using unat_word_diff [of "a - b" "c - b"] by (simp add: ahead_def)

lemma ahead_less: "ahead b w < 4294967296"
  unfolding ahead_def using unsigned_less [of "w - b"] by simp

lemma timer_is_before_window:
  assumes "in_window b a" and "in_window b c"
  shows "timer_is_before a c \<longleftrightarrow> ahead b a < ahead b c"
proof (cases "ahead b c \<le> ahead b a")
  case True
  with assms show ?thesis
    using ahead_shift [of a c b] by (simp add: timer_is_before_iff in_window_def)
next
  case False
  with assms show ?thesis
    using ahead_shift [of a c b] by (simp add: timer_is_before_iff in_window_def)
qed

lemma timer_is_before_irrefl [simp]: "\<not> timer_is_before a a"
  by (simp add: timer_is_before_iff)

section \<open>Bounds and exact arithmetic\<close>

lemma unat_u8: "unat (x::u8) < 256"
  using unsigned_less [of x, where 'a = nat] by simp

lemma unat_u16: "unat (x::u16) < 65536"
  using unsigned_less [of x, where 'a = nat] by simp

lemma unat_u32: "unat (x::u32) < 4294967296"
  using unsigned_less [of x, where 'a = nat] by simp

lemma unat_add_u32: "unat (x::u32) + unat y < 4294967296 \<Longrightarrow> unat (x + y) = unat x + unat y"
  using unat_add_lem [of x y] by simp

lemma unat_mult_u32: "unat (x::u32) * unat y < 4294967296 \<Longrightarrow> unat (x * y) = unat x * unat y"
  using unat_mult_lem [of x y] by simp

lemma saturating_add_u32:
  fixes x y :: u32
  shows "unat (if x + y < x then 0xffffffff else x + y) = min 4294967295 (unat x + unat y)"
proof (cases "unat x + unat y < 4294967296")
  case True
  then show ?thesis
    by (simp add: word_less_nat_alt unat_add_u32)
next
  case False
  then have "unat (x + y) = unat x + unat y - 4294967296"
    using unat_plus_if' [of x y] by simp
  with False show ?thesis
    using unat_u32 [of x] unat_u32 [of y] by (simp add: word_less_nat_alt)
qed

lemma unat_ucast_u16: "unat (ucast (x::u16) :: u32) = unat x" "uint (ucast (x::u16) :: u32) \<le> 65535"
  using unat_u16 [of x] uint_lt2p [of x] by (simp_all add: unsigned_ucast_eq take_bit_nat_eq_self take_bit_int_eq_self)

section \<open>Flags\<close>

lemma has_or: "has (x OR y) f \<longleftrightarrow> has x f \<or> has y f"
  by (simp add: has_def bit.conj_disj_distrib2 or_eq_0_iff)

lemma has_top: "has (x::u32) 0x80000000 \<longleftrightarrow> 0x80000000 \<le> unat x"
proof -
  have "has x 0x80000000 \<longleftrightarrow> bit x 31"
    using bit_iff_and_push_bit_not_eq_0 [of x 31] by (simp add: has_def)
  also have "\<dots> \<longleftrightarrow> sint x < 0"
    using bit_last_iff [of x] by simp
  finally show ?thesis
    by (simp add: sint_neg_iff)
qed

section \<open>Lists\<close>

lemma filter_upt_Cons:
  assumes "filter P [a..<n] = j # js"
  shows "a \<le> j" "j < n" "P j" "js = filter P [Suc j..<n]"
proof -
  obtain us vs where split: "[a..<n] = us @ j # vs" "P j" "js = filter P vs"
    using assms by (auto simp: filter_eq_Cons_iff)
  let ?k = "length us"
  have k: "?k < n - a"
    using arg_cong [OF split(1), of length] by simp
  have j: "j = a + ?k"
    using arg_cong [OF split(1), of "\<lambda>xs. xs ! ?k"] k by simp
  have "vs = [Suc j..<n]"
    using arg_cong [OF split(1), of "drop (Suc ?k)"] by (simp add: j)
  then show "a \<le> j" "j < n" "P j" "js = filter P [Suc j..<n]"
    using j k split(2,3) by simp_all
qed

end
