(* ===== verification/Board.thy ===== *)
theory Board
  imports Prelude
begin

text \<open>
  The levelBoard hardware as the firmware sees it: clock and pin readings, the GPIO port registers
  of \<^verbatim>\<open>src/klipper/src/stm32/gpio.c\<close> and \<^verbatim>\<open>stm32f1.c\<close>, the console of
  \<^verbatim>\<open>command.c\<close>, the state of \<^verbatim>\<open>ff_flashforge.c\<close> that every component shares, and
  the \<^verbatim>\<open>shutdown\<close> macros of \<^verbatim>\<open>command.h\<close>.

  Every read of the outside world (cycle counter, input data register, converter) takes the next
  element of the sequence \<open>env_at\<close>, so a theorem about arbitrary states covers every
  behaviour of the clock and of the pins.
\<close>

section \<open>State\<close>

record env =
  cyccnt :: u32
  pid :: "u32 \<Rightarrow> u32"
  adc_delay :: u32
  adc_value :: u16

text \<open>\<open>struct gpio_out\<close> and \<open>struct gpio_in\<close>: a port register base address and a bit.\<close>

record gpio_pin =
  gp_regs :: u32
  gp_bit :: u32

text \<open>The registers of a \<open>GPIO_Module\<close> that the firmware writes.\<close>

record gpio_module =
  AFL :: u32
  AFH :: u32
  PMODE :: u32
  POTYPE :: u32
  PUPD :: u32
  SR :: u32
  DS :: u32
  POD :: u32

text \<open>
  An outgoing message: its format string and arguments. \<open>Sid\<close> is the identifier of a static
  string, which the build assigns.
\<close>

datatype marg = U u32 | Bytes "u8 list" | Sid reason

type_synonym msg = "string \<times> marg list"

record board =
  env_at :: "nat \<Rightarrow> env"
  env_pos :: nat
  modules :: "u32 \<Rightarrow> gpio_module"
  AHBENR :: u32
  systick_pending :: bool
  in_sendf :: u8
  sent :: "msg list"
  ff_shutdown_code :: u32
  ff_timer_close :: u8
  ff_endstop_active :: u8
  ff_eddy_pin_state :: bool

text \<open>The values of the static variables at start, for an environment \<open>ev\<close>.\<close>

definition board_static :: "(nat \<Rightarrow> env) \<Rightarrow> 'z \<Rightarrow> 'z board_scheme" where
  "board_static ev m =
     \<lparr>env_at = ev, env_pos = 0,
      modules = (\<lambda>_. \<lparr>AFL = 0, AFH = 0, PMODE = 0, POTYPE = 0, PUPD = 0, SR = 0, DS = 0, POD = 0\<rparr>),
      AHBENR = 0, systick_pending = False, in_sendf = 0, sent = [], ff_shutdown_code = 0,
      ff_timer_close = 0, ff_endstop_active = 0, ff_eddy_pin_state = True, \<dots> = m\<rparr>"

section \<open>Shutdown macros\<close>

definition shutdown :: "reason \<Rightarrow> 's \<Rightarrow> ('a, 's) res" where
  "shutdown r s = Shut r s"

definition shutdown_ec :: "u32 \<Rightarrow> reason \<Rightarrow> 'z board_scheme \<Rightarrow> ('a, 'z board_scheme) res" where
  "shutdown_ec code r s = shutdown r (s\<lparr>ff_shutdown_code := code\<rparr>)"

text \<open>The fault codes of \<^verbatim>\<open>ff_flashforge.h\<close> that the modelled code latches.\<close>

definition FF_EC_TRSYNC_SIGNAL_ACTIVE :: u32 where "FF_EC_TRSYNC_SIGNAL_ACTIVE = 1"
definition FF_EC_TMCUART_DATA_TOO_LARGE :: u32 where "FF_EC_TMCUART_DATA_TOO_LARGE = 2"
definition FF_EC_GPIO_NOT_AN_OUTPUT :: u32 where "FF_EC_GPIO_NOT_AN_OUTPUT = 11"
definition FF_EC_GPIO_NOT_AN_INPUT :: u32 where "FF_EC_GPIO_NOT_AN_INPUT = 12"
definition FF_EC_STEPPER_TOO_FAR_PAST :: u32 where "FF_EC_STEPPER_TOO_FAR_PAST = 14"
definition FF_EC_STEPPER_BAD_COUNT :: u32 where "FF_EC_STEPPER_BAD_COUNT = 15"
definition FF_EC_STEPPER_ACTIVE :: u32 where "FF_EC_STEPPER_ACTIVE = 16"
definition FF_EC_CLEAR_WHEN_NOT_SHUTDOWN :: u32 where "FF_EC_CLEAR_WHEN_NOT_SHUTDOWN = 22"
definition FF_EC_PWM_MISSED_EVENT :: u32 where "FF_EC_PWM_MISSED_EVENT = 23"
definition FF_EC_PWM_MAX_DURATION :: u32 where "FF_EC_PWM_MAX_DURATION = 24"
definition FF_EC_PWM_QUEUE_MAX_DURATION :: u32 where "FF_EC_PWM_QUEUE_MAX_DURATION = 25"
definition FF_EC_NEOPIXEL_DATA_SIZE :: u32 where "FF_EC_NEOPIXEL_DATA_SIZE = 26"
definition FF_EC_NEOPIXEL_UPDATE :: u32 where "FF_EC_NEOPIXEL_UPDATE = 27"
definition FF_EC_DIGITAL_MISSED_EVENT :: u32 where "FF_EC_DIGITAL_MISSED_EVENT = 29"
definition FF_EC_DIGITAL_MAX_DURATION :: u32 where "FF_EC_DIGITAL_MAX_DURATION = 30"
definition FF_EC_SOFT_PWM_UPDATES_PENDING :: u32 where "FF_EC_SOFT_PWM_UPDATES_PENDING = 31"
definition FF_EC_DIGITAL_QUEUE_MAX_DURATION :: u32 where "FF_EC_DIGITAL_QUEUE_MAX_DURATION = 32"
definition FF_EC_DIGITAL_ACTIVE_QUEUE :: u32 where "FF_EC_DIGITAL_ACTIVE_QUEUE = 33"
definition FF_EC_TOO_MANY_BUTTONS :: u32 where "FF_EC_TOO_MANY_BUTTONS = 37"
definition FF_EC_BUTTON_OUT_OF_RANGE :: u32 where "FF_EC_BUTTON_OUT_OF_RANGE = 38"
definition FF_EC_BUTTON_RETRANSMIT_COUNT :: u32 where "FF_EC_BUTTON_RETRANSMIT_COUNT = 39"
definition FF_EC_ALLOC_CHUNK :: u32 where "FF_EC_ALLOC_CHUNK = 40"
definition FF_EC_ALLOC_CHUNKS :: u32 where "FF_EC_ALLOC_CHUNKS = 41"
definition FF_EC_MOVE_QUEUE_OVERFLOW :: u32 where "FF_EC_MOVE_QUEUE_OVERFLOW = 42"
definition FF_EC_MOVE_REQUEST_SIZE :: u32 where "FF_EC_MOVE_REQUEST_SIZE = 43"
definition FF_EC_ALREADY_FINALIZED :: u32 where "FF_EC_ALREADY_FINALIZED = 44"
definition FF_EC_INVALID_OID_TYPE :: u32 where "FF_EC_INVALID_OID_TYPE = 45"
definition FF_EC_CANNOT_ASSIGN_OID :: u32 where "FF_EC_CANNOT_ASSIGN_OID = 46"
definition FF_EC_OIDS_ALREADY_ALLOCATED :: u32 where "FF_EC_OIDS_ALREADY_ALLOCATED = 47"
definition FF_EC_HOST_EMERGENCY_STOP :: u32 where "FF_EC_HOST_EMERGENCY_STOP = 49"

section \<open>Clock\<close>

definition sample :: "'z board_scheme \<Rightarrow> env" where
  "sample s = env_at s (env_pos s)"

definition tick :: "'z board_scheme \<Rightarrow> 'z board_scheme" where
  "tick s = s\<lparr>env_pos := Suc (env_pos s)\<rparr>"

definition CONFIG_CLOCK_FREQ :: nat where
  "CONFIG_CLOCK_FREQ = 128000000"

definition timer_from_us :: "u32 \<Rightarrow> u32" where
  "timer_from_us us = us * of_nat (CONFIG_CLOCK_FREQ div 1000000)"

definition timer_read_time :: "'z board_scheme \<Rightarrow> u32 \<times> 'z board_scheme" where
  "timer_read_time s = (cyccnt (sample s), tick s)"

text \<open>\<open>timer_kick\<close> pends the SysTick exception.\<close>

definition timer_kick :: "'z board_scheme \<Rightarrow> 'z board_scheme" where
  "timer_kick s = s\<lparr>systick_pending := True\<rparr>"

section \<open>Console\<close>

text \<open>
  \<open>command_sendf\<close>: a message sent while another one is being sent (from an interrupt) is
  dropped. The call of \<open>console_sendf\<close> is recorded in \<open>sent\<close>; its byte level behaviour is
  modelled in theory \<open>Serial\<close>.
\<close>

definition console_sendf_log :: "msg \<Rightarrow> 'z board_scheme \<Rightarrow> 'z board_scheme" where
  "console_sendf_log m s = s\<lparr>sent := sent s @ [m]\<rparr>"

definition command_sendf :: "msg \<Rightarrow> 'z board_scheme \<Rightarrow> 'z board_scheme" where
  "command_sendf m s =
     (if in_sendf s \<noteq> 0 then s
      else let s = s\<lparr>in_sendf := 1\<rparr>;
               s = console_sendf_log m s
           in s\<lparr>in_sendf := 0\<rparr>)"

abbreviation sendf :: "string \<Rightarrow> marg list \<Rightarrow> 'z board_scheme \<Rightarrow> 'z board_scheme" where
  "sendf fmt args \<equiv> command_sendf (fmt, args)"

definition sendf_shutdown :: "'z board_scheme \<Rightarrow> 'z board_scheme" where
  "sendf_shutdown s = s\<lparr>in_sendf := 0\<rparr>"

section \<open>GPIO ports\<close>

definition digital_regs :: "u32 list" where
  "digital_regs = [0x40023400, 0x40023800, 0x40023c00, 0x40024000]"

definition GPIO2PORT :: "u32 \<Rightarrow> nat" where
  "GPIO2PORT pin = unat pin div 16"

definition GPIO2BIT :: "u32 \<Rightarrow> u32" where
  "GPIO2BIT pin = push_bit (unat pin mod 16) 1"

definition bit_to_pin :: "u32 \<Rightarrow> nat" where
  "bit_to_pin b = (case find (\<lambda>pin. has b (push_bit pin 1)) [0..<16] of
     Some pin \<Rightarrow> pin | None \<Rightarrow> 0)"

definition regs_to_pin :: "u32 \<Rightarrow> u32 \<Rightarrow> nat" where
  "regs_to_pin regs b = (case find (\<lambda>i. digital_regs ! i = regs) [0..<length digital_regs] of
     Some i \<Rightarrow> i * 16 + bit_to_pin b | None \<Rightarrow> 0)"

definition gpio_valid :: "u32 \<Rightarrow> bool" where
  "gpio_valid pin \<longleftrightarrow> GPIO2PORT pin < length digital_regs \<and> digital_regs ! GPIO2PORT pin \<noteq> 0"

text \<open>A write to the bit set/clear register: the low half sets, the high half clears.\<close>

definition pbsc_write :: "u32 \<Rightarrow> gpio_module \<Rightarrow> gpio_module" where
  "pbsc_write w r = r\<lparr>POD := (POD r AND NOT (drop_bit 16 w)) OR (w AND 0xffff)\<rparr>"

definition write_module :: "u32 \<Rightarrow> (gpio_module \<Rightarrow> gpio_module) \<Rightarrow> 'z board_scheme \<Rightarrow> 'z board_scheme" where
  "write_module regs f s = s\<lparr>modules := upd (modules s) regs f\<rparr>"

text \<open>
  The clock enable bit of a port is computed from its address; a left shift by 32 or more gives 0
  on this core, as \<open>push_bit\<close> does on a 32-bit word.
\<close>

definition gpio_clock_enable :: "u32 \<Rightarrow> 'z board_scheme \<Rightarrow> 'z board_scheme" where
  "gpio_clock_enable regs s =
     (let rcc_pos = (regs - 0x40010000) div 0x400
      in s\<lparr>AHBENR := AHBENR s OR push_bit (unat rcc_pos) 1\<rparr>)"

definition GPIO_OUTPUT :: u32 where "GPIO_OUTPUT = 1"
definition GPIO_INPUT :: u32 where "GPIO_INPUT = 0"

definition gpio_peripheral_regs :: "u32 \<Rightarrow> nat \<Rightarrow> u32 \<Rightarrow> u32 \<Rightarrow> gpio_module \<Rightarrow> gpio_module" where
  "gpio_peripheral_regs r pos mode pullup m =
     (let shift = pos mod 8 * 4;
          m = (if pos \<ge> 8
               then m\<lparr>AFH := (AFH m AND NOT (push_bit shift 0xf)) OR push_bit shift r\<rparr>
               else m\<lparr>AFL := (AFL m AND NOT (push_bit shift 0xf)) OR push_bit shift r\<rparr>);
          shift = pos * 2;
          m = m\<lparr>PMODE := push_bit shift (mode AND 3) OR (PMODE m AND NOT (push_bit shift 3))\<rparr>;
          mask = NOT (push_bit shift (3::u32));
          kind = mode AND NOT 0x10;
          m = (if kind = 1 \<or> kind = 2
               then m\<lparr>POTYPE := push_bit pos (drop_bit 4 (mode AND 0x10))
                                OR (POTYPE m AND NOT (push_bit pos 1))\<rparr>
               else m);
          m = m\<lparr>PUPD := push_bit shift pullup OR (PUPD m AND mask)\<rparr>;
          m = m\<lparr>SR := SR m AND NOT (push_bit pos 1)\<rparr>;
          m = m\<lparr>DS := push_bit shift 2 OR (DS m AND mask)\<rparr>
      in if 0 < sint pullup then pbsc_write (push_bit pos 1) m
         else if pullup \<noteq> 0 then pbsc_write (push_bit (pos + 16) 1) m
         else m)"

definition gpio_peripheral :: "nat \<Rightarrow> u32 \<Rightarrow> u32 \<Rightarrow> 'z board_scheme \<Rightarrow> 'z board_scheme" where
  "gpio_peripheral gpio mode pullup s =
     (let r = digital_regs ! (gpio div 16);
          s = gpio_clock_enable r s
      in write_module r (gpio_peripheral_regs r (gpio mod 16) mode pullup) s)"

definition gpio_out_reset :: "gpio_pin \<Rightarrow> u32 \<Rightarrow> 'z board_scheme \<Rightarrow> 'z board_scheme" where
  "gpio_out_reset g val s =
     (let pin = regs_to_pin (gp_regs g) (gp_bit g);
          s = write_module (gp_regs g)
                (pbsc_write (if val \<noteq> 0 then gp_bit g else push_bit 16 (gp_bit g))) s
      in gpio_peripheral pin GPIO_OUTPUT 0 s)"

definition gpio_out_setup :: "u32 \<Rightarrow> u32 \<Rightarrow> 'z board_scheme \<Rightarrow> (gpio_pin, 'z board_scheme) res" where
  "gpio_out_setup pin val s =
     (if \<not> gpio_valid pin then shutdown_ec FF_EC_GPIO_NOT_AN_OUTPUT ''Not an output pin'' s
      else let regs = digital_regs ! GPIO2PORT pin;
               s = gpio_clock_enable regs s;
               g = \<lparr>gp_regs = regs, gp_bit = GPIO2BIT pin\<rparr>
           in Ret g (gpio_out_reset g val s))"

definition gpio_out_toggle_noirq :: "gpio_pin \<Rightarrow> 'z board_scheme \<Rightarrow> 'z board_scheme" where
  "gpio_out_toggle_noirq g s = write_module (gp_regs g) (\<lambda>r. r\<lparr>POD := POD r XOR gp_bit g\<rparr>) s"

definition gpio_out_toggle :: "gpio_pin \<Rightarrow> 'z board_scheme \<Rightarrow> 'z board_scheme" where
  "gpio_out_toggle g s = gpio_out_toggle_noirq g s"

definition gpio_out_write :: "gpio_pin \<Rightarrow> u32 \<Rightarrow> 'z board_scheme \<Rightarrow> 'z board_scheme" where
  "gpio_out_write g val s =
     (if val \<noteq> 0 then write_module (gp_regs g) (pbsc_write (gp_bit g)) s
      else write_module (gp_regs g) (pbsc_write (push_bit 16 (gp_bit g))) s)"

definition gpio_in_reset :: "gpio_pin \<Rightarrow> u32 \<Rightarrow> 'z board_scheme \<Rightarrow> 'z board_scheme" where
  "gpio_in_reset g pull_up s =
     (let pin = regs_to_pin (gp_regs g) (gp_bit g) in gpio_peripheral pin GPIO_INPUT pull_up s)"

definition gpio_in_setup :: "u32 \<Rightarrow> u32 \<Rightarrow> 'z board_scheme \<Rightarrow> (gpio_pin, 'z board_scheme) res" where
  "gpio_in_setup pin pull_up s =
     (if \<not> gpio_valid pin then shutdown_ec FF_EC_GPIO_NOT_AN_INPUT ''Not a valid input pin'' s
      else let regs = digital_regs ! GPIO2PORT pin;
               g = \<lparr>gp_regs = regs, gp_bit = GPIO2BIT pin\<rparr>
           in Ret g (gpio_in_reset g pull_up s))"

definition FF_EDDY_ENDSTOP_PORT :: u32 where "FF_EDDY_ENDSTOP_PORT = 0x40024000"
definition FF_EDDY_ENDSTOP_BIT :: u32 where "FF_EDDY_ENDSTOP_BIT = 1"

definition gpio_in_read :: "gpio_pin \<Rightarrow> 'z board_scheme \<Rightarrow> bool \<times> 'z board_scheme" where
  "gpio_in_read g s =
     (if gp_regs g \<noteq> FF_EDDY_ENDSTOP_PORT \<or> gp_bit g \<noteq> FF_EDDY_ENDSTOP_BIT
      then (has (pid (sample s) (gp_regs g)) (gp_bit g), tick s)
      else (ff_eddy_pin_state s, s))"

text \<open>The level that an output pin drives.\<close>

definition pin_level :: "gpio_pin \<Rightarrow> 'z board_scheme \<Rightarrow> bool" where
  "pin_level g s \<longleftrightarrow> has (POD (modules s (gp_regs g))) (gp_bit g)"

end
