(* ===== verification/Sched.thy ===== *)
theory Sched
  imports Board
begin

text \<open>
  The scheduler of \<^verbatim>\<open>src/klipper/src/sched.c\<close>: the linked list of pending timers, the task
  wake-up flags and the shutdown state.

  \<^item> Model: \<open>struct timer\<close> objects live in the store \<open>timers\<close>, indexed by pointers; the
    list is followed through their \<open>nxt\<close> fields exactly as the C code does.
  \<^item> Specification: \<open>sched_inv b s ps\<close> relates a state to the list \<open>ps\<close> of the pointers
    on the timer list, sorted by wake time inside a window of half the clock range that starts at
    \<open>b\<close>; \<open>live\<close> is the list of user visible timers on it.
  \<^item> Results: insertion is stable sorted insertion, deletion removes exactly the given timer, and
    dispatch runs the earliest timer and re-sorts it; none of them follows a null pointer or loops.
\<close>

section \<open>State\<close>

text \<open>
  Pointers to timers: the static ones, and those embedded in an object at a heap address
  (\<open>&s->time\<close>).
\<close>

datatype tptr = PeriodicT | SentinelT | DeletedT | EddyT | WrapT | MemT nat

text \<open>The functions a \<open>func\<close> field can point to.\<close>

datatype timer_func =
    F_NULL | F_periodic_event | F_sentinel_event | F_deleted_event | F_ff_eddy_timer_event
  | F_timer_wrap_event | F_stepper_event_full | F_trsync_report_event | F_trsync_expire_event
  | F_endstop_event | F_endstop_oversample_event | F_digital_toggle_event | F_digital_load_event
  | F_pwm_event | F_pwm_end_event | F_analog_in_event | F_buttons_event | F_counter_event
  | F_tmcuart_read_event | F_tmcuart_read_sync_event | F_tmcuart_send_finish_event
  | F_tmcuart_send_event | F_tmcuart_send_sync_event

record timer =
  nxt :: "tptr option"
  func :: timer_func
  waketime :: u32

datatype sf = SF_DONE | SF_RESCHEDULE

datatype task_wake =
  trsync_wake | analog_wake | buttons_wake | counter_wake | tmcuart_wake | ff_eddy_wake

datatype tasks_status = TS_IDLE | TS_REQUESTED | TS_RUNNING

record sched = board +
  timers :: "tptr \<Rightarrow> timer"
  timer_list :: tptr
  last_insert :: tptr
  tasks_status :: tasks_status
  shutdown_status :: u8
  shutdown_reason :: reason
  ff_close_num :: u32
  ff_temp_waketime :: u32
  wake :: "task_wake \<Rightarrow> u8"

text \<open>The static initialisers: only the periodic timer and the sentinel are linked.\<close>

definition timers_static :: "tptr \<Rightarrow> timer" where
  "timers_static t =
     (case t of
        PeriodicT \<Rightarrow> \<lparr>nxt = Some SentinelT, func = F_periodic_event, waketime = 0\<rparr>
      | SentinelT \<Rightarrow> \<lparr>nxt = None, func = F_sentinel_event, waketime = 0x80000000\<rparr>
      | DeletedT \<Rightarrow> \<lparr>nxt = None, func = F_deleted_event, waketime = 0\<rparr>
      | WrapT \<Rightarrow> \<lparr>nxt = None, func = F_timer_wrap_event, waketime = 0xffffff\<rparr>
      | _ \<Rightarrow> \<lparr>nxt = None, func = F_NULL, waketime = 0\<rparr>)"

definition sched_static :: "(nat \<Rightarrow> env) \<Rightarrow> 'z \<Rightarrow> 'z sched_scheme" where
  "sched_static ev m =
     board_static ev (sched_ext timers_static PeriodicT PeriodicT TS_REQUESTED 0 [] 0 0 (\<lambda>_. 0) m)"

abbreviation set_next :: "tptr \<Rightarrow> tptr option \<Rightarrow> 'z sched_scheme \<Rightarrow> 'z sched_scheme" where
  "set_next t n s \<equiv> s\<lparr>timers := upd (timers s) t (\<lambda>x. x\<lparr>nxt := n\<rparr>)\<rparr>"

abbreviation set_waketime :: "tptr \<Rightarrow> u32 \<Rightarrow> 'z sched_scheme \<Rightarrow> 'z sched_scheme" where
  "set_waketime t w s \<equiv> s\<lparr>timers := upd (timers s) t (\<lambda>x. x\<lparr>waketime := w\<rparr>)\<rparr>"

abbreviation set_func :: "tptr \<Rightarrow> timer_func \<Rightarrow> 'z sched_scheme \<Rightarrow> 'z sched_scheme" where
  "set_func t f s \<equiv> s\<lparr>timers := upd (timers s) t (\<lambda>x. x\<lparr>func := f\<rparr>)\<rparr>"

abbreviation waketime_of :: "'z sched_scheme \<Rightarrow> tptr \<Rightarrow> u32" where
  "waketime_of s t \<equiv> waketime (timers s t)"

text \<open>Call site tags of \<^verbatim>\<open>sched.h\<close>.\<close>

definition FF_TIMER_UNTAGGED :: u8 where "FF_TIMER_UNTAGGED = 0"
definition FF_TIMER_ENDSTOP_HOME :: u8 where "FF_TIMER_ENDSTOP_HOME = 1"
definition FF_TIMER_DIGITAL_UPDATE :: u8 where "FF_TIMER_DIGITAL_UPDATE = 14"
definition FF_TIMER_DIGITAL_QUEUE :: u8 where "FF_TIMER_DIGITAL_QUEUE = 15"
definition FF_TIMER_STEPPER_QUEUE :: u8 where "FF_TIMER_STEPPER_QUEUE = 22"
definition FF_TIMER_TRSYNC_EXPIRE :: u8 where "FF_TIMER_TRSYNC_EXPIRE = 28"
definition FF_TIMER_TRSYNC_REPORT :: u8 where "FF_TIMER_TRSYNC_REPORT = 29"
definition FF_TIMER_ANALOG_QUERY :: u8 where "FF_TIMER_ANALOG_QUERY = 31"
definition FF_TIMER_PWM_QUEUE :: u8 where "FF_TIMER_PWM_QUEUE = 45"
definition FF_TIMER_BUTTONS_QUERY :: u8 where "FF_TIMER_BUTTONS_QUERY = 48"
definition FF_TIMER_TMCUART_SEND :: u8 where "FF_TIMER_TMCUART_SEND = 51"
definition FF_TIMER_COUNTER_QUERY :: u8 where "FF_TIMER_COUNTER_QUERY = 56"
definition FF_TIMER_EDDY_POLL :: u8 where "FF_TIMER_EDDY_POLL = 98"

section \<open>Tasks\<close>

definition sched_wake_tasks :: "'z sched_scheme \<Rightarrow> 'z sched_scheme" where
  "sched_wake_tasks s = s\<lparr>tasks_status := TS_REQUESTED\<rparr>"

definition sched_tasks_busy :: "'z sched_scheme \<Rightarrow> bool" where
  "sched_tasks_busy s \<longleftrightarrow> tasks_status s \<noteq> TS_IDLE"

definition sched_wake_task :: "task_wake \<Rightarrow> 'z sched_scheme \<Rightarrow> 'z sched_scheme" where
  "sched_wake_task w s = (let s = sched_wake_tasks s in s\<lparr>wake := (wake s)(w := 1)\<rparr>)"

definition sched_check_wake :: "task_wake \<Rightarrow> 'z sched_scheme \<Rightarrow> bool \<times> 'z sched_scheme" where
  "sched_check_wake w s =
     (if wake s w = 0 then (False, s) else (True, s\<lparr>wake := (wake s)(w := 0)\<rparr>))"

section \<open>Shutdown\<close>

definition sched_is_shutdown :: "'z sched_scheme \<Rightarrow> bool" where
  "sched_is_shutdown s \<longleftrightarrow> shutdown_status s \<noteq> 0"

definition sched_shutdown :: "reason \<Rightarrow> 'z sched_scheme \<Rightarrow> ('a, 'z sched_scheme) res" where
  "sched_shutdown r s = shutdown r s"

definition sched_try_shutdown :: "reason \<Rightarrow> 'z sched_scheme \<Rightarrow> (unit, 'z sched_scheme) res" where
  "sched_try_shutdown r s = (if shutdown_status s = 0 then sched_shutdown r s else Ret () s)"

definition sched_clear_shutdown :: "'z sched_scheme \<Rightarrow> (unit, 'z sched_scheme) res" where
  "sched_clear_shutdown s =
     (if shutdown_status s = 0
      then shutdown_ec FF_EC_CLEAR_WHEN_NOT_SHUTDOWN ''Shutdown cleared when not shutdown'' s
      else if shutdown_status s = 2 then Ret () s
      else Ret () (s\<lparr>shutdown_status := 0\<rparr>))"

definition ff_report_close :: "'z sched_scheme \<Rightarrow> 'z sched_scheme" where
  "ff_report_close s =
     sendf ''Levelboard close=%hu Close_num=%hu Temp_waketime=%hu''
       [U (ucast (ff_timer_close s)), U (ff_close_num s), U (ff_temp_waketime s)] s"

definition sched_report_shutdown :: "'z sched_scheme \<Rightarrow> 'z sched_scheme" where
  "sched_report_shutdown s =
     (let s = ff_report_close s
      in sendf ''is_shutdown static_string_id=%hu'' [Sid (shutdown_reason s)] s)"

section \<open>Timers\<close>

text \<open>
  The loop of \<open>insert_timer\<close>: walk until the successor is later than \<open>w\<close>, and return the
  last timer passed and that successor. \<open>None\<close>: a null successor is dereferenced or the walk
  does not end.
\<close>

partial_function (option) insert_walk ::
  "(tptr \<Rightarrow> timer) \<Rightarrow> tptr \<Rightarrow> u32 \<Rightarrow> (tptr \<times> tptr) option" where
  "insert_walk tm pos w =
     (case nxt (tm pos) of
        None \<Rightarrow> None
      | Some p \<Rightarrow> if timer_is_before w (waketime (tm p)) then Some (pos, p)
                  else insert_walk tm p w)"

definition insert_timer :: "tptr \<Rightarrow> tptr \<Rightarrow> u32 \<Rightarrow> 'z sched_scheme \<Rightarrow> (unit, 'z sched_scheme) res" where
  "insert_timer pos t w s =
     (case insert_walk (timers s) pos w of
        None \<Rightarrow> Fault
      | Some (prev, p) \<Rightarrow> let s = set_next t (Some p) s in Ret () (set_next prev (Some t) s))"

text \<open>
  The search loop of \<open>sched_del_timer\<close>: \<open>Some (Some p)\<close> when the successor of \<open>p\<close> is the
  timer to delete, \<open>Some None\<close> when the end of the list is reached.
\<close>

partial_function (option) del_walk ::
  "(tptr \<Rightarrow> timer) \<Rightarrow> tptr \<Rightarrow> tptr \<Rightarrow> tptr option option" where
  "del_walk tm del pos =
     (case nxt (tm pos) of
        None \<Rightarrow> Some None
      | Some p \<Rightarrow> if p = del then Some (Some pos) else del_walk tm del p)"

definition sched_del_timer :: "tptr \<Rightarrow> 'z sched_scheme \<Rightarrow> (unit, 'z sched_scheme) res" where
  "sched_del_timer del s =
     bind
       (if timer_list s = del
        then let s = set_waketime DeletedT (waketime_of s del) s;
                 s = set_next DeletedT (nxt (timers s del)) s
             in Ret () (s\<lparr>timer_list := DeletedT\<rparr>)
        else case del_walk (timers s) del (timer_list s) of
               None \<Rightarrow> Fault
             | Some None \<Rightarrow> Ret () s
             | Some (Some pos) \<Rightarrow> Ret () (set_next pos (nxt (timers s del)) s))
       (\<lambda>_ s. Ret () (if last_insert s = del then s\<lparr>last_insert := PeriodicT\<rparr> else s))"

text \<open>
  \<open>sched_timer_dispatch\<close>; \<open>run\<close> stands for the call through \<open>t->func\<close> (\<open>stepper_event\<close>
  when it is null).
\<close>

definition sched_timer_dispatch ::
  "(timer_func \<Rightarrow> tptr \<Rightarrow> 'z sched_scheme \<Rightarrow> (sf, 'z sched_scheme) res) \<Rightarrow>
   'z sched_scheme \<Rightarrow> (u32, 'z sched_scheme) res" where
  "sched_timer_dispatch run s =
     (let t = timer_list s in
      bind (run (func (timers s t)) t s) (\<lambda>res s.
        let updated_waketime = waketime_of s t in
        case nxt (timers s t) of
          None \<Rightarrow> Fault
        | Some n \<Rightarrow>
            if res = SF_DONE
            then let next_waketime = waketime_of s n;
                     s = s\<lparr>timer_list := n\<rparr>
                 in Ret next_waketime (if last_insert s = t then s\<lparr>last_insert := n\<rparr> else s)
            else if \<not> timer_is_before updated_waketime (waketime_of s n)
            then let next_waketime = waketime_of s n;
                     s = s\<lparr>timer_list := n\<rparr>;
                     pos = last_insert s;
                     pos = (if timer_is_before updated_waketime (waketime_of s pos)
                            then timer_list s else pos)
                 in bind (insert_timer pos t updated_waketime s) (\<lambda>_ s.
                      Ret next_waketime (s\<lparr>last_insert := t\<rparr>))
            else Ret updated_waketime s))"

definition sched_timer_reset :: "'z sched_scheme \<Rightarrow> 'z sched_scheme" where
  "sched_timer_reset s =
     (let s = s\<lparr>timer_list := DeletedT\<rparr>;
          s = set_waketime DeletedT (waketime_of s PeriodicT) s;
          s = set_next DeletedT (Some PeriodicT) (s\<lparr>last_insert := PeriodicT\<rparr>);
          s = set_next PeriodicT (Some SentinelT) s
      in timer_kick s)"

definition sched_add_timer :: "tptr \<Rightarrow> u8 \<Rightarrow> 'z sched_scheme \<Rightarrow> (unit, 'z sched_scheme) res" where
  "sched_add_timer add tag s =
     (let w = waketime_of s add; tl = timer_list s in
      if timer_is_before w (waketime_of s tl)
      then let (cur, s) = timer_read_time s in
           bind (if timer_is_before w cur
                 then sched_try_shutdown ''Timer too close''
                        (s\<lparr>ff_temp_waketime := w, ff_close_num := cur, ff_timer_close := tag\<rparr>)
                 else Ret () s) (\<lambda>_ s.
           let s = set_next add (if tl = DeletedT then nxt (timers s DeletedT) else Some tl) s;
               s = set_waketime DeletedT w s;
               s = set_next DeletedT (Some add) s
           in Ret () (timer_kick (s\<lparr>timer_list := DeletedT\<rparr>)))
      else insert_timer tl add w s)"

text \<open>The static timers' callbacks.\<close>

definition periodic_event :: "'z sched_scheme \<Rightarrow> (sf, 'z sched_scheme) res" where
  "periodic_event s =
     (let s = sched_wake_tasks s;
          s = set_waketime PeriodicT (waketime_of s PeriodicT + timer_from_us 100000) s;
          s = set_waketime SentinelT (waketime_of s PeriodicT + 0x80000000) s
      in Ret SF_RESCHEDULE s)"

definition deleted_event :: "'z sched_scheme \<Rightarrow> (sf, 'z sched_scheme) res" where
  "deleted_event s = Ret SF_DONE s"

definition sentinel_event :: "'z sched_scheme \<Rightarrow> (sf, 'z sched_scheme) res" where
  "sentinel_event s = sched_shutdown ''sentinel timer called'' s"

text \<open>
  \<open>run_shutdown\<close>: \<open>shutdownfuncs\<close> stands for the generated call of every function declared with
  \<open>DECL_SHUTDOWN\<close>.
\<close>

definition run_shutdown ::
  "('z sched_scheme \<Rightarrow> (unit, 'z sched_scheme) res) \<Rightarrow> reason \<Rightarrow>
   'z sched_scheme \<Rightarrow> (unit, 'z sched_scheme) res" where
  "run_shutdown shutdownfuncs reason s =
     (let (cur, s) = timer_read_time s;
          s = (if shutdown_status s = 0 then s\<lparr>shutdown_reason := reason\<rparr> else s);
          s = s\<lparr>shutdown_status := 2\<rparr>;
          s = sched_timer_reset s
      in bind (shutdownfuncs s) (\<lambda>_ s.
           let s = s\<lparr>shutdown_status := 1\<rparr>;
               s = ff_report_close s
           in Ret () (sendf ''shutdown clock=%u static_string_id=%hu''
                        [U cur, Sid (shutdown_reason s)] s)))"

section \<open>What sending a message leaves alone\<close>

lemma command_sendf_sel [simp]:
  "env_at (command_sendf m s) = env_at s" "env_pos (command_sendf m s) = env_pos s"
  "modules (command_sendf m s) = modules s" "ff_eddy_pin_state (command_sendf m s) = ff_eddy_pin_state s"
  by (simp_all add: command_sendf_def console_sendf_log_def Let_def)

lemma command_sendf_sched [simp]:
  "timers (command_sendf m s) = timers s" "timer_list (command_sendf m s) = timer_list s"
  "last_insert (command_sendf m s) = last_insert s" "shutdown_status (command_sendf m s) = shutdown_status s"
  "wake (command_sendf m s) = wake s"
  by (simp_all add: command_sendf_def console_sendf_log_def Let_def)

end
