(* ===== verification/Basecmd.thy ===== *)
theory Basecmd
  imports Sched
begin

text \<open>
  \<^verbatim>\<open>src/klipper/src/basecmd.c\<close>: the allocator, the pool of move nodes and the move queues, the
  table of object ids, and the configuration and statistics commands.

  Addresses are natural numbers. Memory is typed: a node of a move queue is its address, with the
  \<open>next\<close> links of all nodes in the store \<open>mnext\<close>; the objects that \<open>oid_alloc\<close> hands out are
  addresses too, and each component keeps the fields of its own objects in a store indexed by them.
\<close>

section \<open>State\<close>

text \<open>The \<open>type\<close> argument of the oid functions is the address of the configuring command.\<close>

datatype otype =
    T_config_stepper | T_config_endstop | T_config_trsync | T_config_digital_out | T_config_pwm_out
  | T_config_analog_in | T_config_buttons | T_config_counter | T_config_tmcuart | T_config_neopixel

record oid_s =
  otype :: "otype option"
  odata :: nat

record move_queue_head =
  first :: "nat option"
  mlast :: "nat option"

record base = sched +
  dynmem_start :: nat
  dynmem_end :: nat
  alloc_end :: nat
  move_free_list :: "nat option"
  move_list :: nat
  move_count :: u16
  move_item_size :: u8
  mnext :: "nat \<Rightarrow> nat option"
  oids_ptr :: nat
  oids :: "nat \<Rightarrow> oid_s"
  oid_count :: u8
  config_crc :: u32
  stats_send_time :: u32
  stats_send_time_high :: u32
  stats_count :: u32
  stats_sum :: u32
  stats_sumsq :: u32

definition base_static :: "(nat \<Rightarrow> env) \<Rightarrow> nat \<Rightarrow> nat \<Rightarrow> 'z \<Rightarrow> 'z base_scheme" where
  "base_static ev start end m =
     sched_static ev (base_ext start end 0 None 0 0 0 (\<lambda>_. None) 0 (\<lambda>_. \<lparr>otype = None, odata = 0\<rparr>)
       0 0 0 0 0 0 0 m)"

section \<open>Allocation\<close>

definition ALIGN :: "nat \<Rightarrow> nat" where
  "ALIGN x = (x + 3) div 4 * 4"

definition alloc_init :: "'z base_scheme \<Rightarrow> 'z base_scheme" where
  "alloc_init s = s\<lparr>alloc_end := ALIGN (dynmem_start s)\<rparr>"

text \<open>The \<open>memset\<close> of the new area is done by the callers, on their typed stores.\<close>

definition alloc_chunk :: "nat \<Rightarrow> 'z base_scheme \<Rightarrow> (nat, 'z base_scheme) res" where
  "alloc_chunk sz s =
     (if alloc_end s + sz > dynmem_end s
      then shutdown_ec FF_EC_ALLOC_CHUNK ''alloc_chunk failed'' s
      else let data = alloc_end s in Ret data (s\<lparr>alloc_end := alloc_end s + ALIGN sz\<rparr>))"

text \<open>The counting loop of \<open>alloc_chunks\<close>: at most \<open>count\<close> chunks from \<open>p\<close> up to \<open>e\<close>.\<close>

primrec chunk_count :: "nat \<Rightarrow> nat \<Rightarrow> nat \<Rightarrow> nat \<Rightarrow> nat" where
  "chunk_count sz e p 0 = 0"
| "chunk_count sz e p (Suc count) = (if p + sz \<le> e then Suc (chunk_count sz e (p + sz) count) else 0)"

definition alloc_chunks :: "nat \<Rightarrow> nat \<Rightarrow> 'z base_scheme \<Rightarrow> (nat \<times> u16, 'z base_scheme) res" where
  "alloc_chunks sz count s =
     (let can_alloc = chunk_count sz (dynmem_end s) (alloc_end s) count in
      if can_alloc = 0 then shutdown_ec FF_EC_ALLOC_CHUNKS ''alloc_chunks failed'' s
      else bind (alloc_chunk (can_alloc * sz) s) (\<lambda>data s. Ret (data, of_nat can_alloc) s))"

section \<open>Move queue\<close>

definition is_finalized :: "'z base_scheme \<Rightarrow> bool" where
  "is_finalized s \<longleftrightarrow> move_count s \<noteq> 0"

definition move_free :: "nat \<Rightarrow> 'z base_scheme \<Rightarrow> 'z base_scheme" where
  "move_free m s =
     (let s = s\<lparr>mnext := (mnext s)(m := move_free_list s)\<rparr> in s\<lparr>move_free_list := Some m\<rparr>)"

definition move_alloc :: "'z base_scheme \<Rightarrow> (nat, 'z base_scheme) res" where
  "move_alloc s =
     (case move_free_list s of
        None \<Rightarrow> shutdown_ec FF_EC_MOVE_QUEUE_OVERFLOW ''Move queue overflow'' s
      | Some mf \<Rightarrow> Ret mf (s\<lparr>move_free_list := mnext s mf\<rparr>))"

definition move_queue_empty :: "move_queue_head \<Rightarrow> bool" where
  "move_queue_empty mh \<longleftrightarrow> first mh = None"

definition move_queue_first :: "move_queue_head \<Rightarrow> nat option" where
  "move_queue_first mh = first mh"

text \<open>\<open>move_queue_push\<close> returns whether the queue was empty. A queue with a first node has a last one.\<close>

definition move_queue_push ::
  "nat \<Rightarrow> move_queue_head \<Rightarrow> 'z base_scheme \<Rightarrow> bool \<times> move_queue_head \<times> 'z base_scheme" where
  "move_queue_push m mh s =
     (let s = s\<lparr>mnext := (mnext s)(m := None)\<rparr> in
      if first mh \<noteq> None
      then (False, mh\<lparr>mlast := Some m\<rparr>, s\<lparr>mnext := (mnext s)(the (mlast mh) := Some m)\<rparr>)
      else (True, mh\<lparr>first := Some m, mlast := Some m\<rparr>, s))"

definition move_queue_pop ::
  "move_queue_head \<Rightarrow> 'z base_scheme \<Rightarrow> (nat \<times> move_queue_head, 'z base_scheme) res" where
  "move_queue_pop mh s =
     (case first mh of
        None \<Rightarrow> Fault
      | Some mn \<Rightarrow> Ret (mn, mh\<lparr>first := mnext s mn\<rparr>) s)"

definition move_queue_clear :: "move_queue_head \<Rightarrow> move_queue_head" where
  "move_queue_clear mh = mh\<lparr>first := None\<rparr>"

definition move_queue_setup :: "nat \<Rightarrow> 'z base_scheme \<Rightarrow> (move_queue_head, 'z base_scheme) res" where
  "move_queue_setup sz s =
     (let mh = \<lparr>first = None, mlast = None\<rparr> in
      if sz > 255 \<or> is_finalized s
      then shutdown_ec FF_EC_MOVE_REQUEST_SIZE ''Invalid move request size'' s
      else if sz > unat (move_item_size s) then Ret mh (s\<lparr>move_item_size := of_nat sz\<rparr>)
      else Ret mh s)"

abbreviation move_slot :: "nat \<Rightarrow> 'z base_scheme \<Rightarrow> nat" where
  "move_slot i s \<equiv> move_list s + i * unat (move_item_size s)"

definition move_reset :: "'z base_scheme \<Rightarrow> 'z base_scheme" where
  "move_reset s =
     (if move_count s = 0 then s
      else let n = unat (move_count s);
               s = fold (\<lambda>i s. s\<lparr>mnext := (mnext s)(move_slot i s := Some (move_slot (i + 1) s))\<rparr>)
                     [0..<n - 1] s;
               s = s\<lparr>mnext := (mnext s)(move_slot (n - 1) s := None)\<rparr>
           in s\<lparr>move_free_list := Some (move_list s)\<rparr>)"

definition move_finalize :: "'z base_scheme \<Rightarrow> (unit, 'z base_scheme) res" where
  "move_finalize s =
     (if is_finalized s then shutdown_ec FF_EC_ALREADY_FINALIZED ''Already finalized'' s
      else bind (move_queue_setup 4 s) (\<lambda>_ s.
           bind (alloc_chunks (unat (move_item_size s)) 1024 s) (\<lambda>(data, avail) s.
           let s = s\<lparr>move_count := avail\<rparr>;
               s = s\<lparr>move_list := data\<rparr>
           in Ret () (move_reset s))))"

section \<open>Object ids\<close>

definition oid_lookup :: "u8 \<Rightarrow> otype \<Rightarrow> 'z base_scheme \<Rightarrow> (nat, 'z base_scheme) res" where
  "oid_lookup oid ty s =
     (if oid \<ge> oid_count s \<or> otype (oids s (unat oid)) \<noteq> Some ty
      then shutdown_ec FF_EC_INVALID_OID_TYPE ''Invalid oid type'' s
      else Ret (odata (oids s (unat oid))) s)"

definition oid_alloc :: "u8 \<Rightarrow> otype \<Rightarrow> nat \<Rightarrow> 'z base_scheme \<Rightarrow> (nat, 'z base_scheme) res" where
  "oid_alloc oid ty sz s =
     (if oid \<ge> oid_count s \<or> otype (oids s (unat oid)) \<noteq> None \<or> is_finalized s
      then shutdown_ec FF_EC_CANNOT_ASSIGN_OID ''Can't assign oid'' s
      else let s = s\<lparr>oids := upd (oids s) (unat oid) (\<lambda>x. x\<lparr>otype := Some ty\<rparr>)\<rparr> in
           bind (alloc_chunk sz s) (\<lambda>data s.
             Ret data (s\<lparr>oids := upd (oids s) (unat oid) (\<lambda>x. x\<lparr>odata := data\<rparr>)\<rparr>)))"

text \<open>The loop of \<open>oid_next\<close>, from the first index it looks at.\<close>

function oid_search :: "nat \<Rightarrow> otype \<Rightarrow> 'z base_scheme \<Rightarrow> (nat \<times> nat) option" where
  "oid_search oid ty s =
     (if oid \<ge> unat (oid_count s) then None
      else if otype (oids s oid) = Some ty then Some (oid, odata (oids s oid))
      else oid_search (Suc oid) ty s)"
  by pat_completeness auto
termination
  by (relation "measure (\<lambda>(oid, ty, s). unat (oid_count s) - oid)") auto

declare oid_search.simps [simp del]

definition oid_next :: "u8 \<Rightarrow> otype \<Rightarrow> 'z base_scheme \<Rightarrow> (u8 \<times> nat) option" where
  "oid_next i ty s = map_option (\<lambda>(oid, data). (of_nat oid, data)) (oid_search (unat (i + 1)) ty s)"

lemma oid_search_Some:
  "oid_search i ty s = Some (oid, data) \<Longrightarrow>
     i \<le> oid \<and> oid < unat (oid_count s) \<and> otype (oids s oid) = Some ty \<and> data = odata (oids s oid)"
  by (induction i ty s rule: oid_search.induct) (subst (asm) oid_search.simps, auto split: if_splits)

lemma oid_next_less:
  assumes "oid_next i ty s = Some (oid, data)"
  shows "unat (i + 1) < unat (oid + 1)"
proof -
  obtain j where j: "oid = of_nat j" "unat (i + 1) \<le> j" "j < unat (oid_count s)"
    using assms by (auto simp: oid_next_def dest: oid_search_Some)
  moreover have "unat (oid_count s) < 256"
    using unsigned_less [of "oid_count s"] by simp
  moreover have "unat (of_nat (Suc j) :: u8) = Suc j"
    using j \<open>unat (oid_count s) < 256\<close> by (simp add: unat_of_nat take_bit_nat_eq_self del: of_nat_Suc)
  ultimately show ?thesis
    by (simp add: add.commute)
qed

text \<open>
  \<open>foreach_oid\<close> starts at -1 and stops at the first null data pointer. The loop bodies do not
  change the table, so the objects they visit are those found before the loop.
\<close>

function oid_list :: "u8 \<Rightarrow> otype \<Rightarrow> 'z base_scheme \<Rightarrow> (u8 \<times> nat) list" where
  "oid_list i ty s =
     (case oid_next i ty s of
        None \<Rightarrow> []
      | Some (oid, data) \<Rightarrow> if data = 0 then [] else (oid, data) # oid_list oid ty s)"
  by pat_completeness auto
termination
proof (relation "measure (\<lambda>(i, ty, s). 256 - unat (i + 1))", goal_cases)
  case (2 i ty s x oid data)
  then have "unat (i + 1) < unat (oid + 1)"
    by (auto intro: oid_next_less)
  moreover have "unat (oid + 1) < 256"
    using unsigned_less [of "oid + 1"] by simp
  ultimately show ?case by simp
qed simp

declare oid_list.simps [simp del]

primrec each :: "('x \<Rightarrow> 's \<Rightarrow> (unit, 's) res) \<Rightarrow> 'x list \<Rightarrow> 's \<Rightarrow> (unit, 's) res" where
  "each f [] s = Ret () s"
| "each f (x # xs) s = bind (f x s) (\<lambda>_ s. each f xs s)"

definition foreach_oid ::
  "otype \<Rightarrow> (u8 \<Rightarrow> nat \<Rightarrow> 'z base_scheme \<Rightarrow> (unit, 'z base_scheme) res) \<Rightarrow> 'z base_scheme \<Rightarrow>
   (unit, 'z base_scheme) res" where
  "foreach_oid ty f s = each (\<lambda>(oid, data). f oid data) (oid_list (- 1) ty s) s"

definition command_allocate_oids :: "u32 list \<Rightarrow> 'z base_scheme \<Rightarrow> (unit, 'z base_scheme) res" where
  "command_allocate_oids args s =
     (if oids_ptr s \<noteq> 0 then shutdown_ec FF_EC_OIDS_ALREADY_ALLOCATED ''oids already allocated'' s
      else let count = ucast (args ! 0) :: u8 in
           bind (alloc_chunk (8 * unat count) s) (\<lambda>data s.
             let s = s\<lparr>oids_ptr := data, oids := (\<lambda>_. \<lparr>otype = None, odata = 0\<rparr>)\<rparr>
             in Ret () (s\<lparr>oid_count := count\<rparr>)))"

section \<open>Configuration\<close>

definition command_get_config :: "u32 list \<Rightarrow> 'z base_scheme \<Rightarrow> 'z base_scheme" where
  "command_get_config args s =
     sendf ''config is_config=%c crc=%u is_shutdown=%c move_count=%hu''
       [U (c_bool (is_finalized s)), U (config_crc s), U (c_bool (sched_is_shutdown s)),
        U (ucast (move_count s))] s"

definition command_finalize_config :: "u32 list \<Rightarrow> 'z base_scheme \<Rightarrow> (unit, 'z base_scheme) res" where
  "command_finalize_config args s =
     bind (move_finalize s) (\<lambda>_ s. Ret () (s\<lparr>config_crc := args ! 0\<rparr>))"

definition config_reset :: "u32 list \<Rightarrow> 'z base_scheme \<Rightarrow> (unit, 'z base_scheme) res" where
  "config_reset args s =
     (if \<not> sched_is_shutdown s then shutdown ''config_reset only available when shutdown'' s
      else let s = s\<lparr>config_crc := 0, oid_count := 0, oids_ptr := 0, move_free_list := None,
                     move_list := 0, move_count := 0, move_item_size := 0\<rparr>;
               s = alloc_init s;
               s = sched_timer_reset s
           in sched_clear_shutdown s)"

section \<open>Statistics\<close>

definition command_get_clock :: "u32 list \<Rightarrow> 'z base_scheme \<Rightarrow> 'z base_scheme" where
  "command_get_clock args s =
     (let (cur, s) = timer_read_time s in sendf ''clock clock=%u'' [U cur] s)"

definition command_get_uptime :: "u32 list \<Rightarrow> 'z base_scheme \<Rightarrow> 'z base_scheme" where
  "command_get_uptime args s =
     (let (cur, s) = timer_read_time s;
          high = stats_send_time_high s + c_bool (cur < stats_send_time s)
      in sendf ''uptime high=%u clock=%u'' [U high, U cur] s)"

definition SUMSQ_BASE :: u32 where "SUMSQ_BASE = 256"

definition DIV_ROUND_UP :: "u32 \<Rightarrow> u32 \<Rightarrow> u32" where
  "DIV_ROUND_UP n d = (n + d - 1) div d"

definition stats_update :: "u32 \<Rightarrow> u32 \<Rightarrow> 'z base_scheme \<Rightarrow> 'z base_scheme" where
  "stats_update start cur s =
     (let diff = cur - start;
          s = s\<lparr>stats_count := stats_count s + 1\<rparr>;
          s = s\<lparr>stats_sum := stats_sum s + diff\<rparr>;
          nextsumsq =
            (if diff \<le> 0xffff then stats_sumsq s + DIV_ROUND_UP (diff * diff) SUMSQ_BASE
             else if diff \<le> 0xfffff then stats_sumsq s + DIV_ROUND_UP diff SUMSQ_BASE * diff
             else 0xffffffff);
          nextsumsq = (if nextsumsq < stats_sumsq s then 0xffffffff else nextsumsq);
          s = s\<lparr>stats_sumsq := nextsumsq\<rparr>
      in if timer_is_before cur (stats_send_time s + timer_from_us 5000000) then s
         else let s = sendf ''stats count=%u sum=%u sumsq=%u''
                        [U (stats_count s), U (stats_sum s), U (stats_sumsq s)] s;
                  s = (if cur < stats_send_time s
                       then s\<lparr>stats_send_time_high := stats_send_time_high s + 1\<rparr> else s)
              in s\<lparr>stats_send_time := cur, stats_count := 0, stats_sum := 0, stats_sumsq := 0\<rparr>)"

section \<open>Miscellaneous commands\<close>

definition command_emergency_stop :: "u32 list \<Rightarrow> 'z base_scheme \<Rightarrow> (unit, 'z base_scheme) res" where
  "command_emergency_stop args s = shutdown_ec FF_EC_HOST_EMERGENCY_STOP ''Command request'' s"

definition command_clear_shutdown :: "u32 list \<Rightarrow> 'z base_scheme \<Rightarrow> (unit, 'z base_scheme) res" where
  "command_clear_shutdown args s = sched_clear_shutdown s"

text \<open>
  \<open>data\<close> is the dictionary \<open>command_identify_data\<close> that the build generates. The \<open>count\<close>
  field wraps to 8 bits; its sum with the offset is computed in 32 bits.
\<close>

definition command_identify :: "u8 list \<Rightarrow> u32 list \<Rightarrow> 'z base_scheme \<Rightarrow> 'z base_scheme" where
  "command_identify data args s =
     (let offset = args ! 0;
          count = ucast (args ! 1) :: u8;
          isize = of_nat (length data) :: u32;
          count = (if offset \<ge> isize then 0
                   else if offset + ucast count > isize then ucast (isize - offset)
                   else count)
      in sendf ''identify_response offset=%u data=%.*s''
           [U offset, Bytes (take (unat count) (drop (unat offset) data))] s)"

definition command_get_mcu_version :: "u32 list \<Rightarrow> 'z base_scheme \<Rightarrow> 'z base_scheme" where
  "command_get_mcu_version args s =
     sendf ''mcu_version year=%u date=%u version=%u'' [U 2026, U 613, U 7091] s"

definition CONFIG_FF_BOARD_EBOARD :: bool where
  "CONFIG_FF_BOARD_EBOARD \<longleftrightarrow> False"

text \<open>The pressure advance commands do nothing on this board; \<open>ff_pa_value\<close> is never written.\<close>

definition command_get_emcu_pa_value :: "u32 \<Rightarrow> u32 list \<Rightarrow> 'z base_scheme \<Rightarrow> 'z base_scheme" where
  "command_get_emcu_pa_value ff_pa_value args s =
     (if \<not> CONFIG_FF_BOARD_EBOARD then s else sendf ''pa_value value=%u'' [U ff_pa_value] s)"

definition ff_pa_action :: "u32 \<Rightarrow> u32 \<Rightarrow> 'z base_scheme \<Rightarrow> 'z base_scheme" where
  "ff_pa_action action pc s = s"

definition command_pa_action :: "u32 list \<Rightarrow> 'z base_scheme \<Rightarrow> 'z base_scheme" where
  "command_pa_action args s =
     (if \<not> CONFIG_FF_BOARD_EBOARD then s else ff_pa_action (args ! 0) (args ! 1) s)"

end
