(* ===== verification/Command.thy ===== *)
theory Command
  imports Basecmd
begin

text \<open>
  \<^verbatim>\<open>src/klipper/src/command.c\<close> and \<^verbatim>\<open>generic/crc16_ccitt.c\<close>: variable length integers,
  message encoding, message blocks and command dispatch.

  Buffers are byte lists and pointers into them are positions. A read outside of the list is
  \<open>None\<close> (or \<open>Fault\<close>), so that the absence of such reads is a theorem. The tables that the
  build generates (\<open>command_index\<close>, the encoders, the ids of static strings) are parameters.
\<close>

section \<open>State and tables\<close>

record command = base +
  next_sequence :: u8
  sync_state :: u8

datatype ptype = PT_uint32 | PT_int32 | PT_uint16 | PT_int16 | PT_byte
  | PT_string | PT_progmem_buffer | PT_buffer

record command_encoder =
  ce_encoded_msgid :: u16
  ce_max_size :: nat
  ce_param_types :: "ptype list"

text \<open>The \<open>num_params\<close> fields are the lengths of the lists of parameter types.\<close>

record 's command_parser =
  cp_num_args :: nat
  cp_flags :: u8
  cp_param_types :: "ptype list"
  cp_func :: "u8 list \<Rightarrow> u32 list \<Rightarrow> 's \<Rightarrow> (unit, 's) res"

definition HF_IN_SHUTDOWN :: u8 where "HF_IN_SHUTDOWN = 1"

definition MESSAGE_MIN :: nat where "MESSAGE_MIN = 5"
definition MESSAGE_MAX :: nat where "MESSAGE_MAX = 64"
definition MESSAGE_HEADER_SIZE :: nat where "MESSAGE_HEADER_SIZE = 2"
definition MESSAGE_TRAILER_SIZE :: nat where "MESSAGE_TRAILER_SIZE = 3"
definition MESSAGE_SEQ_MASK :: u8 where "MESSAGE_SEQ_MASK = 0x0f"
definition MESSAGE_DEST :: u8 where "MESSAGE_DEST = 0x10"
definition MESSAGE_SYNC :: u8 where "MESSAGE_SYNC = 0x7e"

lemmas message_defs = MESSAGE_MIN_def MESSAGE_MAX_def MESSAGE_HEADER_SIZE_def MESSAGE_TRAILER_SIZE_def

definition command_static :: "(nat \<Rightarrow> env) \<Rightarrow> nat \<Rightarrow> nat \<Rightarrow> 'z \<Rightarrow> 'z command_scheme" where
  "command_static ev start end m = base_static ev start end (command_ext MESSAGE_DEST 0 m)"

section \<open>Checksum\<close>

definition crc_step :: "u16 \<Rightarrow> u8 \<Rightarrow> u16" where
  "crc_step crc data =
     (let data = data XOR ucast (crc AND 0xff);
          data = data XOR push_bit 4 data
      in ((push_bit 8 (ucast data) OR drop_bit 8 crc) XOR ucast (drop_bit 4 data))
           XOR push_bit 3 (ucast data))"

definition crc16_ccitt :: "u8 list \<Rightarrow> u16" where
  "crc16_ccitt buf = foldl crc_step 0xffff buf"

section \<open>Variable length integers\<close>

definition encode_int :: "u32 \<Rightarrow> u8 list" where
  "encode_int v =
     (let sv = sint v;
          f4 = [ucast (v AND 0x7f)];
          f3 = (ucast (drop_bit 7 v AND 0x7f) OR 0x80) # f4;
          f2 = (ucast (drop_bit 14 v AND 0x7f) OR 0x80) # f3;
          f1 = (ucast (drop_bit 21 v AND 0x7f) OR 0x80) # f2
      in if sv < 3 * 2 ^ 5 \<and> sv \<ge> - (2 ^ 5) then f4
         else if sv < 3 * 2 ^ 12 \<and> sv \<ge> - (2 ^ 12) then f3
         else if sv < 3 * 2 ^ 19 \<and> sv \<ge> - (2 ^ 19) then f2
         else if sv < 3 * 2 ^ 26 \<and> sv \<ge> - (2 ^ 26) then f1
         else (ucast (drop_bit 28 v) OR 0x80) # f1)"

text \<open>The loop of \<open>parse_int\<close>: \<open>c\<close> is the byte read last, \<open>p\<close> the position after it.\<close>

function parse_int_loop :: "u8 list \<Rightarrow> nat \<Rightarrow> u8 \<Rightarrow> u32 \<Rightarrow> (u32 \<times> nat) option" where
  "parse_int_loop buf p c v =
     (if has c 0x80
      then if p < length buf
           then let c = buf ! p in parse_int_loop buf (p + 1) c (push_bit 7 v OR (ucast c AND 0x7f))
           else None
      else Some (v, p))"
  by pat_completeness auto
termination
  by (relation "measure (\<lambda>(buf, p, c, v). length buf - p)") auto

declare parse_int_loop.simps [simp del]

definition parse_int :: "u8 list \<Rightarrow> nat \<Rightarrow> (u32 \<times> nat) option" where
  "parse_int buf p =
     (if p < length buf
      then let c = buf ! p;
               v = ucast c AND 0x7f;
               v = (if c AND 0x60 = 0x60 then v OR - 0x20 else v)
           in parse_int_loop buf (p + 1) c v
      else None)"

definition encode_msgid :: "u16 \<Rightarrow> u8 list" where
  "encode_msgid encoded_msgid =
     (if encoded_msgid \<ge> 0x80 then [ucast (drop_bit 7 encoded_msgid) OR 0x80] else [])
       @ [ucast (encoded_msgid AND 0x7f)]"

definition command_parse_msgid :: "u8 list \<Rightarrow> nat \<Rightarrow> (u32 \<times> nat) option" where
  "command_parse_msgid buf p =
     (if p < length buf
      then let encoded_msgid = ucast (buf ! p) :: u32 in
           if has encoded_msgid 0x80
           then if p + 1 < length buf
                then Some (push_bit 7 (encoded_msgid AND 0x7f) OR ucast (buf ! (p + 1)), p + 2)
                else None
           else Some (encoded_msgid, p + 1)
      else None)"

section \<open>Parsing and encoding of parameters\<close>

text \<open>
  \<open>command_parsef\<close>: the arguments and the new position. A pointer argument is a position in the
  buffer.
\<close>

fun command_parsef ::
  "u8 list \<Rightarrow> nat \<Rightarrow> nat \<Rightarrow> ptype list \<Rightarrow> 's \<Rightarrow> (u32 list \<times> nat, 's) res" where
  "command_parsef buf p maxend [] s = Ret ([], p) s"
| "command_parsef buf p maxend (t # ts) s =
     (if p > maxend then shutdown ''Command parser error'' s
      else if t \<in> {PT_uint32, PT_int32, PT_uint16, PT_int16, PT_byte}
      then case parse_int buf p of
             None \<Rightarrow> Fault
           | Some (v, p) \<Rightarrow> bind (command_parsef buf p maxend ts s) (\<lambda>(args, p) s. Ret (v # args, p) s)
      else if t = PT_buffer
      then if p < length buf
           then let len = unat (buf ! p); p = p + 1 in
                if p + len > maxend then shutdown ''Command parser error'' s
                else bind (command_parsef buf (p + len) maxend ts s) (\<lambda>(args, p') s.
                       Ret (of_nat len # of_nat p # args, p') s)
           else Fault
      else shutdown ''Command parser error'' s)"

text \<open>
  The parameter loop of \<open>command_encodef\<close>, with \<open>room\<close> = \<open>maxend - p\<close>: the bytes it appends, or
  \<open>None\<close> for the encode error. A \<open>Bytes\<close> argument stands for a C string or for a length and
  pointer pair.
\<close>

fun marg_value :: "(reason \<Rightarrow> u8) \<Rightarrow> marg \<Rightarrow> u32" where
  "marg_value sid (U v) = v"
| "marg_value sid (Sid r) = ucast (sid r)"
| "marg_value sid (Bytes bs) = of_nat (length bs)"

fun marg_bytes :: "marg \<Rightarrow> u8 list" where
  "marg_bytes (Bytes bs) = bs"
| "marg_bytes _ = []"

definition param_bytes :: "(reason \<Rightarrow> u8) \<Rightarrow> int \<Rightarrow> ptype \<Rightarrow> marg \<Rightarrow> u8 list" where
  "param_bytes sid room t a =
     (case t of
        PT_string \<Rightarrow>
          let bs = take (nat (room - 1)) (takeWhile (\<lambda>c. c \<noteq> 0) (marg_bytes a))
          in of_nat (length bs) # bs
      | PT_progmem_buffer \<Rightarrow> let bs = take (nat room) (marg_bytes a) in of_nat (length bs) # bs
      | PT_buffer \<Rightarrow> let bs = take (nat room) (marg_bytes a) in of_nat (length bs) # bs
      | _ \<Rightarrow> encode_int (marg_value sid a))"

text \<open>Every call passes one argument for each parameter of its encoder.\<close>

fun encode_params :: "(reason \<Rightarrow> u8) \<Rightarrow> int \<Rightarrow> ptype list \<Rightarrow> marg list \<Rightarrow> u8 list option" where
  "encode_params sid room [] args = Some []"
| "encode_params sid room (t # ts) [] = None"
| "encode_params sid room (t # ts) (a # args) =
     (if room < 0 then None
      else let out = param_bytes sid room t a
           in map_option (\<lambda>rest. out @ rest) (encode_params sid (room - int (length out)) ts args))"

text \<open>
  \<open>command_encodef\<close>: the payload between header and trailer, and the length of the message. An
  encoder without payload (ack and nak) has \<open>max_size\<close> at most 5.
\<close>

definition command_encodef ::
  "(reason \<Rightarrow> u8) \<Rightarrow> command_encoder \<Rightarrow> marg list \<Rightarrow> 's \<Rightarrow> (u8 list \<times> nat, 's) res" where
  "command_encodef sid ce args s =
     (if ce_max_size ce \<le> MESSAGE_MIN then Ret ([], ce_max_size ce) s
      else let p = encode_msgid (ce_encoded_msgid ce);
               room = int (ce_max_size ce) - int MESSAGE_MIN - int (length p)
           in case encode_params sid room (ce_param_types ce) args of
                None \<Rightarrow> shutdown ''Message encode error'' s
              | Some rest \<Rightarrow>
                  Ret (p @ rest, MESSAGE_HEADER_SIZE + length (p @ rest) + MESSAGE_TRAILER_SIZE) s)"

definition command_add_frame :: "u8 list \<Rightarrow> nat \<Rightarrow> 'z command_scheme \<Rightarrow> u8 list" where
  "command_add_frame payload msglen s =
     (let body = of_nat msglen # next_sequence s # payload;
          crc = crc16_ccitt body
      in body @ [ucast (drop_bit 8 crc), ucast crc, MESSAGE_SYNC])"

definition command_encode_and_frame ::
  "(reason \<Rightarrow> u8) \<Rightarrow> command_encoder \<Rightarrow> marg list \<Rightarrow> 'z command_scheme \<Rightarrow>
   (u8 list, 'z command_scheme) res" where
  "command_encode_and_frame sid ce args s =
     bind (command_encodef sid ce args s) (\<lambda>(payload, msglen) s.
       Ret (command_add_frame payload msglen s) s)"

section \<open>Command routing\<close>

definition command_lookup_parser ::
  "'s command_parser list \<Rightarrow> u32 \<Rightarrow> 's \<Rightarrow> ('s command_parser, 's) res" where
  "command_lookup_parser command_index cmdid s =
     (if cmdid = 0 \<or> unat cmdid \<ge> length command_index then shutdown ''Invalid command'' s
      else Ret (command_index ! unat cmdid) s)"

definition encode_acknak :: msg where "encode_acknak = ([], [])"

definition CF_NEED_SYNC :: u8 where "CF_NEED_SYNC = 1"
definition CF_NEED_VALID :: u8 where "CF_NEED_VALID = 2"

text \<open>The code from label \<open>need_sync\<close> on.\<close>

definition find_sync :: "u8 list \<Rightarrow> 'z command_scheme \<Rightarrow> int \<times> nat \<times> 'z command_scheme" where
  "find_sync buf s =
     (let (pop_count, s) =
        (if MESSAGE_SYNC \<in> set buf
         then (length (takeWhile (\<lambda>c. c \<noteq> MESSAGE_SYNC) buf) + 1,
               s\<lparr>sync_state := sync_state s AND NOT CF_NEED_SYNC\<rparr>)
         else (length buf, s))
      in if has (sync_state s) CF_NEED_VALID then (- 1, pop_count, s)
         else let s = s\<lparr>sync_state := sync_state s OR CF_NEED_VALID\<rparr>
              in (- 1, pop_count, command_sendf encode_acknak s))"

text \<open>The code from label \<open>error\<close> on.\<close>

definition find_error :: "u8 list \<Rightarrow> 'z command_scheme \<Rightarrow> int \<times> nat \<times> 'z command_scheme" where
  "find_error buf s =
     (if buf ! 0 = MESSAGE_SYNC then (- 1, 1, s)
      else find_sync buf (s\<lparr>sync_state := sync_state s OR CF_NEED_SYNC\<rparr>))"

text \<open>\<open>buf\<close> is the part of the receive buffer that is filled; \<open>buf_len\<close> is its length.\<close>

definition command_find_block ::
  "u8 list \<Rightarrow> 'z command_scheme \<Rightarrow> int \<times> nat \<times> 'z command_scheme" where
  "command_find_block buf s =
     (if buf \<noteq> [] \<and> has (sync_state s) CF_NEED_SYNC then find_sync buf s
      else if length buf < MESSAGE_MIN then (0, 0, s)
      else let msglen = unat (buf ! 0) in
           if msglen < MESSAGE_MIN \<or> msglen > MESSAGE_MAX then find_error buf s
           else let msgseq = buf ! 1 in
           if msgseq AND NOT MESSAGE_SEQ_MASK \<noteq> MESSAGE_DEST then find_error buf s
           else if length buf < msglen then (0, 0, s)
           else if buf ! (msglen - 1) \<noteq> MESSAGE_SYNC then find_error buf s
           else let msgcrc = push_bit 8 (ucast (buf ! (msglen - 3))) OR ucast (buf ! (msglen - 2)) in
           if crc16_ccitt (take (msglen - MESSAGE_TRAILER_SIZE) buf) \<noteq> msgcrc then find_error buf s
           else let s = s\<lparr>sync_state := sync_state s AND NOT CF_NEED_VALID\<rparr> in
           if msgseq \<noteq> next_sequence s then (- 1, msglen, command_sendf encode_acknak s)
           else (1, msglen, s\<lparr>next_sequence := ((msgseq + 1) AND MESSAGE_SEQ_MASK) OR MESSAGE_DEST\<rparr>))"

text \<open>Parsing always moves forward.\<close>

lemma parse_int_loop_progress: "parse_int_loop buf p c v = Some (w, p') \<Longrightarrow> p \<le> p'"
  by (induction buf p c v rule: parse_int_loop.induct)
    (subst (asm) parse_int_loop.simps, fastforce simp: Let_def split: if_splits)

lemma parse_int_progress: "parse_int buf p = Some (w, p') \<Longrightarrow> p < p'"
  by (auto simp: parse_int_def Let_def Suc_le_eq dest!: parse_int_loop_progress split: if_splits)

lemma command_parse_msgid_progress: "command_parse_msgid buf p = Some (v, p') \<Longrightarrow> p < p'"
  by (auto simp: command_parse_msgid_def Let_def split: if_splits)

lemma command_parsef_progress: "command_parsef buf p maxend ts s = Ret (args, p') s' \<Longrightarrow> p \<le> p'"
proof (induction ts arbitrary: p args)
  case (Cons t ts)
  from Cons.prems show ?case
    by (auto simp: shutdown_def Let_def bind_Ret_iff split: if_splits option.splits
        dest!: parse_int_progress Cons.IH)
qed simp

text \<open>
  The loop of \<open>command_dispatch\<close>, with \<open>msgend\<close> the position of the trailer. Each round parses one
  command; a command that may not run in shutdown only reports the shutdown.
\<close>

function command_dispatch_loop ::
  "'z command_scheme command_parser list \<Rightarrow> u8 list \<Rightarrow> nat \<Rightarrow> nat \<Rightarrow> 'z command_scheme \<Rightarrow>
   (unit, 'z command_scheme) res" where
  "command_dispatch_loop idx buf p msgend s =
     (if p < msgend
      then case command_parse_msgid buf p of
             None \<Rightarrow> Fault
           | Some (cmdid, p1) \<Rightarrow>
               bind (command_lookup_parser idx cmdid s) (\<lambda>cp s.
               bind (command_parsef buf p1 msgend (cp_param_types cp) s) (\<lambda>(args, p2) s.
               if sched_is_shutdown s \<and> \<not> has (cp_flags cp) HF_IN_SHUTDOWN
               then command_dispatch_loop idx buf p2 msgend (sched_report_shutdown s)
               else bind (cp_func cp buf args s) (\<lambda>_ s. command_dispatch_loop idx buf p2 msgend s)))
      else Ret () s)"
  by pat_completeness auto
termination
  by (relation "measure (\<lambda>(idx, buf, p, msgend, s). msgend - p)")
    (auto dest!: command_parse_msgid_progress command_parsef_progress)

declare command_dispatch_loop.simps [simp del]

definition command_dispatch ::
  "'z command_scheme command_parser list \<Rightarrow> u8 list \<Rightarrow> nat \<Rightarrow> 'z command_scheme \<Rightarrow>
   (unit, 'z command_scheme) res" where
  "command_dispatch idx buf msglen s =
     command_dispatch_loop idx buf MESSAGE_HEADER_SIZE (msglen - MESSAGE_TRAILER_SIZE) s"

definition command_send_ack :: "'z command_scheme \<Rightarrow> 'z command_scheme" where
  "command_send_ack s = command_sendf encode_acknak s"

definition command_find_and_dispatch ::
  "'z command_scheme command_parser list \<Rightarrow> u8 list \<Rightarrow> 'z command_scheme \<Rightarrow>
   (int \<times> nat, 'z command_scheme) res" where
  "command_find_and_dispatch idx buf s =
     (case command_find_block buf s of (ret, pop_count, s) \<Rightarrow>
        if ret > 0
        then bind (command_dispatch idx buf pop_count s) (\<lambda>_ s.
               Ret (ret, pop_count) (command_send_ack s))
        else Ret (ret, pop_count) s)"

end
