(* ===== verification/Serial.thy ===== *)
theory Serial
  imports Command
begin

text \<open>
  \<^verbatim>\<open>src/klipper/src/generic/serial_irq.c\<close> and the interrupt path of \<^verbatim>\<open>stm32/serial.c\<close>: the
  receive and transmit buffers between the USART interrupt and the command code.

  The main code can be interrupted between any two accesses to the shared positions. What the
  interrupt does in such a gap is an argument of the model: the bytes that arrive during each round
  of \<open>console_pop_input\<close>, and the number of bytes that are sent while \<open>console_sendf\<close> looks for
  space. An access outside of a buffer is \<open>Fault\<close>.
\<close>

section \<open>State\<close>

record serial_state =
  receive_buf :: "u8 list"
  receive_pos :: u16
  transmit_buf :: "u8 list"
  transmit_pos :: u8
  transmit_max :: u8
  tx_irq :: bool

record serial = command +
  ser :: serial_state

definition RX_BUFFER_SIZE :: nat where "RX_BUFFER_SIZE = 384"
definition TX_BUFFER_SIZE :: nat where "TX_BUFFER_SIZE = 96"

definition serial_state_static :: serial_state where
  "serial_state_static =
     \<lparr>receive_buf = replicate RX_BUFFER_SIZE 0, receive_pos = 0,
      transmit_buf = replicate TX_BUFFER_SIZE 0, transmit_pos = 0, transmit_max = 0, tx_irq = False\<rparr>"

definition serial_static :: "(nat \<Rightarrow> env) \<Rightarrow> nat \<Rightarrow> nat \<Rightarrow> 'z \<Rightarrow> 'z serial_scheme" where
  "serial_static ev start end m = command_static ev start end (serial_ext serial_state_static m)"

abbreviation upd_ser :: "(serial_state \<Rightarrow> serial_state) \<Rightarrow> 'z serial_scheme \<Rightarrow> 'z serial_scheme" where
  "upd_ser f s \<equiv> s\<lparr>ser := f (ser s)\<rparr>"

text \<open>\<open>readb(&receive_pos)\<close> reads one byte of a 16-bit variable, the low one on this core.\<close>

definition readb_receive_pos :: "'z serial_scheme \<Rightarrow> nat" where
  "readb_receive_pos s = unat (ucast (receive_pos (ser s)) :: u8)"

section \<open>Interrupt side\<close>

definition serial_rx_byte :: "u8 \<Rightarrow> 'z serial_scheme \<Rightarrow> 'z serial_scheme" where
  "serial_rx_byte data s =
     (let s = (if data = MESSAGE_SYNC then sched_wake_tasks s else s);
          pos = unat (receive_pos (ser s))
      in if pos \<ge> RX_BUFFER_SIZE then s
         else upd_ser (\<lambda>x. x\<lparr>receive_buf := (receive_buf x)[pos := data], receive_pos := receive_pos x + 1\<rparr>) s)"

definition serial_get_tx_byte :: "'z serial_scheme \<Rightarrow> u8 option \<times> 'z serial_scheme" where
  "serial_get_tx_byte s =
     (if transmit_pos (ser s) \<ge> transmit_max (ser s) then (None, s)
      else let tpos = transmit_pos (ser s);
               data = transmit_buf (ser s) ! unat tpos
           in (Some data, upd_ser (\<lambda>x. x\<lparr>transmit_pos := tpos + 1\<rparr>) s))"

definition serial_enable_tx_irq :: "'z serial_scheme \<Rightarrow> 'z serial_scheme" where
  "serial_enable_tx_irq s = upd_ser (\<lambda>x. x\<lparr>tx_irq := True\<rparr>) s"

text \<open>
  The USART interrupt: \<open>rx\<close> is the received byte when the status shows one, \<open>txe\<close> whether the
  transmitter is empty. The result is the byte written to the data register.
\<close>

definition USARTx_IRQHandler ::
  "u8 option \<Rightarrow> bool \<Rightarrow> 'z serial_scheme \<Rightarrow> u8 option \<times> 'z serial_scheme" where
  "USARTx_IRQHandler rx txe s =
     (let s = (case rx of None \<Rightarrow> s | Some d \<Rightarrow> serial_rx_byte d s) in
      if txe \<and> tx_irq (ser s)
      then case serial_get_tx_byte s of
             (None, s) \<Rightarrow> (None, upd_ser (\<lambda>x. x\<lparr>tx_irq := False\<rparr>) s)
           | (Some d, s) \<Rightarrow> (Some d, s)
      else (None, s))"

section \<open>Receiving\<close>

text \<open>\<open>memmove\<close> inside a buffer; \<open>None\<close> when it would leave the buffer.\<close>

definition memmove :: "nat \<Rightarrow> nat \<Rightarrow> nat \<Rightarrow> u8 list \<Rightarrow> u8 list option" where
  "memmove dst src n b =
     (if src + n \<le> length b \<and> dst + n \<le> length b
      then Some (take dst b @ take n (drop src b) @ drop (dst + n) b) else None)"

text \<open>
  The loop of \<open>console_pop_input\<close>: \<open>arr\<close> holds the bytes that arrive in each round between the
  read of \<open>receive_pos\<close> and the check with interrupts off; the loop ends at the latest in the
  round in which nothing arrives. The subtraction \<open>rpos - len\<close> is one of unsigned 32-bit integers.
\<close>

fun console_pop_loop ::
  "nat \<Rightarrow> u8 list list \<Rightarrow> nat \<Rightarrow> 'z serial_scheme \<Rightarrow> (unit, 'z serial_scheme) res" where
  "console_pop_loop len arr copied s =
     (let rpos = readb_receive_pos s;
          needcopy = unat (of_nat rpos - of_nat len :: u32);
          n = unat (of_nat needcopy - of_nat copied :: u32)
      in case (if needcopy \<noteq> 0 then memmove copied (copied + len) n (receive_buf (ser s))
               else Some (receive_buf (ser s))) of
           None \<Rightarrow> Fault
         | Some b \<Rightarrow>
             let s = upd_ser (\<lambda>x. x\<lparr>receive_buf := b\<rparr>) s;
                 s = (if needcopy \<noteq> 0 then sched_wake_tasks s else s);
                 copied = (if needcopy \<noteq> 0 then needcopy else copied)
             in case arr of
                  [] \<Rightarrow> Ret () (upd_ser (\<lambda>x. x\<lparr>receive_pos := of_nat needcopy\<rparr>) s)
                | ds # arr \<Rightarrow>
                    let s = fold serial_rx_byte ds s in
                    if rpos \<noteq> readb_receive_pos s then console_pop_loop len arr copied s
                    else Ret () (upd_ser (\<lambda>x. x\<lparr>receive_pos := of_nat needcopy\<rparr>) s))"

declare console_pop_loop.simps [simp del]

definition console_pop_input :: "nat \<Rightarrow> u8 list list \<Rightarrow> 'z serial_scheme \<Rightarrow> (unit, 'z serial_scheme) res" where
  "console_pop_input len arr s = console_pop_loop len arr 0 s"

text \<open>The request string of the bootloader; \<open>bootloader_request\<close> does not return.\<close>

definition bootloader_string :: "u8 list" where
  "bootloader_string = [0x20, 0x1c, 0x20, 0x52, 0x65, 0x71, 0x75, 0x65, 0x73, 0x74, 0x20, 0x53, 0x65, 0x72,
     0x69, 0x61, 0x6c, 0x20, 0x42, 0x6f, 0x6f, 0x74, 0x6c, 0x6f, 0x61, 0x64, 0x65, 0x72, 0x21, 0x21, 0x20, 0x7e]"

datatype console_result = Console_Done | Bootloader_Requested

text \<open>
  \<open>ds\<close> are the bytes that arrive while the commands of the block run, \<open>arr\<close> those that arrive
  during the rounds of \<open>console_pop_input\<close>.
\<close>

definition console_task ::
  "'z serial_scheme command_parser list \<Rightarrow> u8 list \<Rightarrow> u8 list list \<Rightarrow> 'z serial_scheme \<Rightarrow>
   (console_result, 'z serial_scheme) res" where
  "console_task idx ds arr s =
     (let rpos = readb_receive_pos s in
      case command_find_block (take rpos (receive_buf (ser s))) s of (ret, pop_count, s) \<Rightarrow>
        bind (if ret > 0 then command_dispatch idx (receive_buf (ser s)) pop_count s else Ret () s) (\<lambda>_ s.
        let s = fold serial_rx_byte ds s in
        if ret = 0 then Ret Console_Done s
        else if ret < 0 \<and> pop_count = 32 \<and> take 32 (receive_buf (ser s)) = bootloader_string
        then Ret Bootloader_Requested s
        else bind (console_pop_input pop_count arr s) (\<lambda>_ s.
               Ret Console_Done (if ret > 0 then command_send_ack s else s))))"

section \<open>Transmitting\<close>

text \<open>The interrupt sends \<open>n\<close> bytes.\<close>

primrec tx_bytes :: "nat \<Rightarrow> 'z serial_scheme \<Rightarrow> u8 list \<times> 'z serial_scheme" where
  "tx_bytes 0 s = ([], s)"
| "tx_bytes (Suc n) s =
     (case serial_get_tx_byte s of
        (None, s) \<Rightarrow> ([], s)
      | (Some d, s) \<Rightarrow> (case tx_bytes n s of (ds, s) \<Rightarrow> (d # ds, s)))"

text \<open>
  \<open>console_sendf\<close>, in three parts: the positions are reset when everything was sent; when the
  message does not fit behind the waiting bytes, these are moved to the front of the buffer; then
  the message is written. \<open>k\<close> bytes go out between the read of the positions and the moment the
  buffer is taken from the interrupt; the result lists these bytes. A message that does not fit
  even then is dropped.
\<close>

definition sendf_start :: "'z serial_scheme \<Rightarrow> 'z serial_scheme" where
  "sendf_start s =
     (if transmit_pos (ser s) \<ge> transmit_max (ser s)
      then upd_ser (\<lambda>x. x\<lparr>transmit_max := 0, transmit_pos := 0\<rparr>) s else s)"

definition sendf_room :: "nat \<Rightarrow> nat \<Rightarrow> 'z serial_scheme \<Rightarrow> (nat, 'z serial_scheme) res" where
  "sendf_room tmax max_size s =
     (if tmax + max_size > TX_BUFFER_SIZE
      then let s = upd_ser (\<lambda>x. x\<lparr>transmit_max := 0\<rparr>) s;
               tpos = unat (transmit_pos (ser s));
               tmax = tmax - tpos
           in case memmove 0 tpos tmax (transmit_buf (ser s)) of
                None \<Rightarrow> Fault
              | Some b \<Rightarrow>
                  let s = upd_ser (\<lambda>x. x\<lparr>transmit_buf := b, transmit_pos := 0, transmit_max := of_nat tmax\<rparr>) s
                  in Ret tmax (serial_enable_tx_irq s)
      else Ret tmax s)"

definition sendf_write :: "nat \<Rightarrow> u8 list \<Rightarrow> 'z serial_scheme \<Rightarrow> (unit, 'z serial_scheme) res" where
  "sendf_write tmax msg s =
     (if tmax + length msg > TX_BUFFER_SIZE then Fault
      else Ret () (serial_enable_tx_irq (upd_ser (\<lambda>x. x\<lparr>
             transmit_buf := take tmax (transmit_buf x) @ msg @ drop (tmax + length msg) (transmit_buf x),
             transmit_max := of_nat (tmax + length msg)\<rparr>) s)))"

definition console_sendf ::
  "(reason \<Rightarrow> u8) \<Rightarrow> nat \<Rightarrow> command_encoder \<Rightarrow> marg list \<Rightarrow> 'z serial_scheme \<Rightarrow>
   (u8 list, 'z serial_scheme) res" where
  "console_sendf sid k ce args s =
     (let s = sendf_start s;
          tpos = unat (transmit_pos (ser s));
          tmax = unat (transmit_max (ser s));
          max_size = ce_max_size ce;
          (out, s) = tx_bytes k s
      in if tmax + max_size > TX_BUFFER_SIZE \<and> tmax + max_size - tpos > TX_BUFFER_SIZE then Ret out s
         else bind (sendf_room tmax max_size s) (\<lambda>tmax s.
              bind (command_encode_and_frame sid ce args s) (\<lambda>msg s.
              bind (sendf_write tmax msg s) (\<lambda>_ s. Ret out s))))"

end
