(* ===== verification/Sched_Spec.thy ===== *)
theory Sched_Spec
  imports Sched
begin

text \<open>
  Specification and correctness of the timer list of \<open>Sched\<close>. The pointer structure is
  abstracted to the list of timers it links (\<open>tpath\<close>), the invariant \<open>sched_inv\<close> says that
  this list is sorted, and each scheduler operation is shown to act on it as the corresponding
  operation on sorted lists. The contract that a timer callback has to respect is the locale
  \<open>timer_callbacks\<close>.
\<close>

section \<open>Specification\<close>

primrec tpath :: "(tptr \<Rightarrow> timer) \<Rightarrow> tptr option \<Rightarrow> tptr list \<Rightarrow> bool" where
  "tpath tm p [] \<longleftrightarrow> p = None"
| "tpath tm p (x # xs) \<longleftrightarrow> p = Some x \<and> tpath tm (nxt (tm x)) xs"

text \<open>Sorted insertion after the timers with an equal key.\<close>

fun insort_timer :: "(tptr \<Rightarrow> nat) \<Rightarrow> tptr \<Rightarrow> tptr list \<Rightarrow> tptr list" where
  "insort_timer k t [] = [t]"
| "insort_timer k t (x # xs) = (if k t < k x then t # x # xs else x # insort_timer k t xs)"

definition key :: "u32 \<Rightarrow> 'z sched_scheme \<Rightarrow> tptr \<Rightarrow> nat" where
  "key b s t = ahead b (waketime_of s t)"

definition user_timer :: "tptr \<Rightarrow> bool" where
  "user_timer t \<longleftrightarrow> t \<noteq> PeriodicT \<and> t \<noteq> SentinelT \<and> t \<noteq> DeletedT"

text \<open>
  \<open>chain b s p qs\<close>: from pointer \<open>p\<close> the store links the timers \<open>qs\<close> and then the sentinel,
  with the wake times of \<open>qs\<close> inside the window and in order.
\<close>

definition chain :: "u32 \<Rightarrow> 'z sched_scheme \<Rightarrow> tptr option \<Rightarrow> tptr list \<Rightarrow> bool" where
  "chain b s p qs \<longleftrightarrow>
     tpath (timers s) p (qs @ [SentinelT]) \<and> distinct (qs @ [SentinelT]) \<and>
     (\<forall>x \<in> set qs. in_window b (waketime_of s x)) \<and>
     sorted_wrt (\<lambda>x y. key b s x \<le> key b s y) qs"

definition sentinel_ok :: "'z sched_scheme \<Rightarrow> bool" where
  "sentinel_ok s \<longleftrightarrow> waketime_of s SentinelT = waketime_of s PeriodicT + 0x80000000"

definition sched_inv :: "u32 \<Rightarrow> 'z sched_scheme \<Rightarrow> tptr list \<Rightarrow> bool" where
  "sched_inv b s qs \<longleftrightarrow>
     chain b s (Some (timer_list s)) qs \<and> PeriodicT \<in> set qs \<and> DeletedT \<notin> set (tl qs) \<and>
     last_insert s \<in> set qs - {DeletedT} \<and> sentinel_ok s"

text \<open>
  The state while the callback of the head timer \<open>t\<close> runs: its own wake time is in flux, the rest
  of the list is in order.
\<close>

definition running_inv :: "u32 \<Rightarrow> tptr \<Rightarrow> 'z sched_scheme \<Rightarrow> tptr list \<Rightarrow> bool" where
  "running_inv b t s qs \<longleftrightarrow>
     timer_list s = t \<and> t \<noteq> SentinelT \<and> t \<notin> set qs \<and>
     chain b s (nxt (timers s t)) qs \<and> PeriodicT \<in> set (t # qs) \<and> DeletedT \<notin> set qs \<and>
     last_insert s \<in> set (t # qs) - {DeletedT} \<and> sentinel_ok s"

definition live :: "tptr list \<Rightarrow> tptr list" where
  "live qs = filter (\<lambda>t. t \<noteq> DeletedT) qs"

section \<open>Linked lists\<close>

lemma tpath_upd_other [simp]:
  "x \<notin> set xs \<Longrightarrow> tpath (upd tm x f) p xs = tpath tm p xs"
  by (induction xs arbitrary: p) clarsimp+

lemma tpath_upd_func [simp]:
  "(\<And>t. nxt (f t) = nxt t) \<Longrightarrow> tpath (upd tm x f) p xs = tpath tm p xs"
  by (induction xs arbitrary: p) (clarsimp simp: upd_def)+

lemma tpath_suffix: "tpath tm p (xs @ y # ys) \<Longrightarrow> tpath tm (Some y) (y # ys)"
  by (induction xs arbitrary: p) clarsimp+

lemma tpath_next: "tpath tm p (xs @ y # z # zs) \<Longrightarrow> nxt (tm y) = Some z"
  by (induction xs arbitrary: p) clarsimp+

text \<open>Linking \<open>t\<close> in between two neighbours, and unlinking it.\<close>

lemma tpath_link:
  assumes "tpath tm p (xs @ y # z # zs)" and "distinct (xs @ y # z # zs)"
    and "t \<notin> set (xs @ y # z # zs)"
  shows "tpath (upd (upd tm t (\<lambda>x. x\<lparr>nxt := Some z\<rparr>)) y (\<lambda>x. x\<lparr>nxt := Some t\<rparr>)) p
           (xs @ y # t # z # zs)"
  using assms
proof (induction xs arbitrary: p)
  case Nil
  then show ?case by clarsimp
next
  case (Cons a xs)
  then show ?case by clarsimp
qed

lemma tpath_unlink:
  assumes "tpath tm p (xs @ y # t # zs)" and "distinct (xs @ y # t # zs)"
  shows "tpath (upd tm y (\<lambda>x. x\<lparr>nxt := nxt (tm t)\<rparr>)) p (xs @ y # zs)"
  using assms by (induction xs arbitrary: p) clarsimp+

lemma insert_walk_spec:
  assumes "tpath tm (Some pos) (pos # as @ c # cs)"
    and "\<And>x. x \<in> set as \<Longrightarrow> \<not> timer_is_before w (waketime (tm x))"
    and "timer_is_before w (waketime (tm c))"
  shows "insert_walk tm pos w = Some (last (pos # as), c)"
  using assms
proof (induction as arbitrary: pos)
  case Nil
  then show ?case by (subst insert_walk.simps) simp
next
  case (Cons a as)
  from Cons.prems(1) have nx: "nxt (tm pos) = Some a" and p: "tpath tm (Some a) (a # as @ c # cs)"
    by auto
  have "insert_walk tm pos w = insert_walk tm a w"
    using nx Cons.prems(2) [of a] by (subst insert_walk.simps) simp
  with Cons.IH [OF p] Cons.prems show ?case by simp
qed

lemma del_walk_found:
  assumes "tpath tm (Some pos) (pos # as @ del # cs)" and "del \<notin> set as"
  shows "del_walk tm del pos = Some (Some (last (pos # as)))"
  using assms
proof (induction as arbitrary: pos)
  case Nil
  then show ?case by (subst del_walk.simps) simp
next
  case (Cons a as)
  from Cons.prems(1) have nx: "nxt (tm pos) = Some a" and p: "tpath tm (Some a) (a # as @ del # cs)"
    by auto
  have "del_walk tm del pos = del_walk tm del a"
    using nx Cons.prems(2) by (subst del_walk.simps) auto
  with Cons.IH [OF p] Cons.prems show ?case by simp
qed

lemma del_walk_absent:
  assumes "tpath tm (Some pos) (pos # as)" and "del \<notin> set as"
  shows "del_walk tm del pos = Some None"
  using assms
proof (induction as arbitrary: pos)
  case Nil
  then show ?case by (subst del_walk.simps) simp
next
  case (Cons a as)
  from Cons.prems(1) have nx: "nxt (tm pos) = Some a" and p: "tpath tm (Some a) (a # as)"
    by auto
  have "del_walk tm del pos = del_walk tm del a"
    using nx Cons.prems(2) by (subst del_walk.simps) auto
  with Cons.IH [OF p] Cons.prems show ?case by simp
qed

section \<open>Sorted lists of timers\<close>

lemma insort_timer_append:
  assumes "\<And>x. x \<in> set as \<Longrightarrow> k x \<le> k t"
  shows "insort_timer k t (as @ cs) = as @ insort_timer k t cs"
  using assms by (induction as) (simp_all add: leD)

lemma insort_timer_split:
  assumes "sorted_wrt (\<lambda>x y. k x \<le> k y) qs"
  obtains as cs where "qs = as @ cs" and "insort_timer k t qs = as @ t # cs"
    and "\<And>x. x \<in> set as \<Longrightarrow> k x \<le> k t" and "\<And>x. x \<in> set cs \<Longrightarrow> k t < k x"
  using assms
proof (induction qs arbitrary: thesis)
  case Nil
  then show ?case by fastforce
next
  case (Cons q qs)
  show ?case
  proof (cases "k t < k q")
    case True
    show ?thesis
      by (rule Cons.prems(1) [of "[]" "q # qs"]) (use True Cons.prems(2) in auto)
  next
    case False
    obtain as cs where "qs = as @ cs" "insort_timer k t qs = as @ t # cs"
      "\<And>x. x \<in> set as \<Longrightarrow> k x \<le> k t" "\<And>x. x \<in> set cs \<Longrightarrow> k t < k x"
      using Cons.IH Cons.prems(2) by auto
    with False show ?thesis
      by (intro Cons.prems(1) [of "q # as" cs]) auto
  qed
qed

lemma insort_timer_cong:
  "k t = k' t \<Longrightarrow> (\<And>x. x \<in> set qs \<Longrightarrow> k x = k' x) \<Longrightarrow> insort_timer k t qs = insort_timer k' t qs"
  by (induction qs) auto

lemma set_insort_timer [simp]: "set (insort_timer k t qs) = insert t (set qs)"
  by (induction qs) auto

lemma sorted_insort_timer:
  "sorted_wrt (\<lambda>x y. k x \<le> k y) qs \<Longrightarrow> sorted_wrt (\<lambda>x y. k x \<le> k y) (insort_timer k t qs)"
  by (induction qs) auto

lemma live_append [simp]: "live (xs @ ys) = live xs @ live ys"
  by (simp add: live_def)

lemma live_Cons [simp]: "live (x # xs) = (if x = DeletedT then live xs else x # live xs)"
  by (simp add: live_def)

lemma live_Nil [simp]: "live [] = []"
  by (simp add: live_def)

lemma live_id: "DeletedT \<notin> set qs \<Longrightarrow> live qs = qs"
  unfolding live_def by (rule filter_True) auto

lemma live_insort_timer:
  assumes "t \<noteq> DeletedT" and "sorted_wrt (\<lambda>x y. k x \<le> k y) qs"
  shows "live (insort_timer k t qs) = insort_timer k t (live qs)"
proof -
  obtain as cs where s: "qs = as @ cs" "insort_timer k t qs = as @ t # cs"
    and le: "\<And>x. x \<in> set as \<Longrightarrow> k x \<le> k t" and lt: "\<And>x. x \<in> set cs \<Longrightarrow> k t < k x"
    using insort_timer_split [OF assms(2), of t] by metis
  have "\<And>x. x \<in> set (live cs) \<Longrightarrow> k t < k x"
    using lt by (simp add: live_def)
  then have cs: "insort_timer k t (live cs) = t # live cs"
    by (cases "live cs") simp_all
  have "insort_timer k t (live qs) = live as @ insort_timer k t (live cs)"
    unfolding s live_append by (rule insort_timer_append) (use le in \<open>auto simp: live_def\<close>)
  with cs assms(1) show ?thesis
    by (simp only: s(2) live_append live_Cons if_False)
qed

section \<open>Insertion\<close>

lemma sentinel_is_last:
  assumes "sentinel_ok s" and "in_window b (waketime_of s PeriodicT)" and "in_window b w"
    and "ahead b (waketime_of s PeriodicT) \<le> ahead b w"
  shows "timer_is_before w (waketime_of s SentinelT)"
proof -
  let ?p = "waketime_of s PeriodicT"
  have "unat (w - ?p) < 2147483648"
    using ahead_shift [of w ?p b] assms by (simp add: in_window_def)
  then have "2147483648 \<le> unat ((w - ?p) - 0x80000000)"
    using unat_word_diff [of "w - ?p" "0x80000000"] by simp
  moreover have "(w - ?p) - 0x80000000 = w - waketime_of s SentinelT"
    using assms(1) by (simp add: sentinel_ok_def diff_diff_eq)
  ultimately have "2147483648 \<le> unat (w - waketime_of s SentinelT)"
    by simp
  then show ?thesis by (simp add: timer_is_before_iff)
qed

lemma not_before_key:
  assumes "in_window b (waketime_of s x)" and "in_window b (waketime_of s t)"
  shows "timer_is_before (waketime_of s t) (waketime_of s x) \<longleftrightarrow> key b s t < key b s x"
  using assms by (simp add: timer_is_before_window key_def)

lemma key_cong:
  "waketime_of s' x = waketime_of s x \<Longrightarrow> key b s' x = key b s x"
  by (simp add: key_def)

lemma chain_cong:
  assumes "chain b s p qs" and "tpath (timers s') p (qs @ [SentinelT])"
    and "\<And>x. x \<in> set qs \<Longrightarrow> waketime_of s' x = waketime_of s x"
  shows "chain b s' p qs"
proof -
  have "sorted_wrt (\<lambda>x y. key b s' x \<le> key b s' y) qs"
    by (rule sorted_wrt_mono_rel [of _ "\<lambda>x y. key b s x \<le> key b s y"])
      (use assms in \<open>simp_all add: key_def chain_def\<close>)
  with assms show ?thesis by (simp add: chain_def)
qed

lemma insert_timer_chain:
  assumes ch: "chain b s p qs" and pos: "pos \<in> set qs" "key b s pos \<le> key b s t"
    and t: "t \<notin> set qs" "t \<noteq> SentinelT" "in_window b (waketime_of s t)"
    and per: "PeriodicT \<in> set qs \<or> timer_is_before (waketime_of s t) (waketime_of s SentinelT)"
    and sent: "sentinel_ok s"
  obtains tm where "insert_timer pos t (waketime_of s t) s = Ret () (s\<lparr>timers := tm\<rparr>)"
    and "chain b (s\<lparr>timers := tm\<rparr>) p (insort_timer (key b s) t qs)"
    and "\<And>x. waketime (tm x) = waketime_of s x" and "\<And>x. func (tm x) = func (timers s x)"
    and "\<And>x. x \<notin> set qs \<Longrightarrow> x \<noteq> t \<Longrightarrow> tm x = timers s x"
proof -
  let ?w = "waketime_of s t"
  have sorted: "sorted_wrt (\<lambda>x y. key b s x \<le> key b s y) qs"
    and path: "tpath (timers s) p (qs @ [SentinelT])" and dist: "distinct (qs @ [SentinelT])"
    and win: "\<And>x. x \<in> set qs \<Longrightarrow> in_window b (waketime_of s x)"
    using ch by (simp_all add: chain_def)
  obtain as cs where qs: "qs = as @ cs" and ins: "insort_timer (key b s) t qs = as @ t # cs"
    and le: "\<And>x. x \<in> set as \<Longrightarrow> key b s x \<le> key b s t"
    and lt: "\<And>x. x \<in> set cs \<Longrightarrow> key b s t < key b s x"
    using insort_timer_split [OF sorted, of t] by metis
  have "pos \<in> set as"
    using pos lt [of pos] by (auto simp: qs)
  then obtain xs ys where as: "as = xs @ pos # ys"
    by (meson split_list)
  obtain c rest where c: "cs @ [SentinelT] = c # rest"
    by (cases "cs @ [SentinelT]") auto
  have before: "timer_is_before ?w (waketime_of s c)"
  proof (cases cs)
    case Nil
    with c have "c = SentinelT" by simp
    with Nil per le [of PeriodicT] t(3) win sentinel_is_last [OF sent] show ?thesis
      by (auto simp: qs key_def)
  next
    case (Cons a list)
    with c lt [of c] win [of c] t(3) not_before_key [of b s c t] show ?thesis
      by (simp add: qs)
  qed
  have "tpath (timers s) (Some pos) (pos # ys @ c # rest)"
    using path tpath_suffix [of "timers s" p xs pos "ys @ c # rest"] by (simp add: qs as c)
  moreover have "\<not> timer_is_before ?w (waketime_of s x)" if "x \<in> set ys" for x
    using that le [of x] win [of x] t(3) not_before_key [of b s x t] by (simp add: as qs)
  ultimately have walk: "insert_walk (timers s) pos ?w = Some (last (pos # ys), c)"
    using before by (intro insert_walk_spec)
  define us where "us = butlast (pos # ys)"
  define prev where "prev = last (pos # ys)"
  have py: "pos # ys = us @ [prev]"
    by (simp add: us_def prev_def)
  define tm where "tm = upd (upd (timers s) t (\<lambda>x. x\<lparr>nxt := Some c\<rparr>)) prev (\<lambda>x. x\<lparr>nxt := Some t\<rparr>)"
  have full: "qs @ [SentinelT] = (xs @ us) @ prev # c # rest"
    using py c by (simp add: qs as)
  have path': "tpath tm p ((xs @ us) @ prev # t # c # rest)"
    unfolding tm_def
    by (rule tpath_link; unfold full [symmetric]) (use path dist t in simp_all)
  have full': "insort_timer (key b s) t qs @ [SentinelT] = (xs @ us) @ prev # t # c # rest"
    unfolding ins as using py c by (simp add: append_eq_Cons_conv)
  have wake: "\<And>x. waketime (tm x) = waketime_of s x" and fn: "\<And>x. func (tm x) = func (timers s x)"
    by (simp_all add: tm_def upd_def)
  have "prev \<in> set qs"
    using py by (auto simp: qs as)
  have "distinct (insort_timer (key b s) t qs @ [SentinelT])"
    unfolding ins using dist t by (auto simp: qs)
  moreover have "sorted_wrt (\<lambda>x y. key b s x \<le> key b s y) (insort_timer (key b s) t qs)"
    using sorted by (rule sorted_insort_timer)
  ultimately have ch': "chain b (s\<lparr>timers := tm\<rparr>) p (insort_timer (key b s) t qs)"
    using path' full' wake win t(3) by (simp add: chain_def key_def)
  have "insert_timer pos t ?w s = Ret () (s\<lparr>timers := tm\<rparr>)"
    by (simp add: insert_timer_def walk prev_def tm_def)
  moreover have "\<And>x. x \<notin> set qs \<Longrightarrow> x \<noteq> t \<Longrightarrow> tm x = timers s x"
    using \<open>prev \<in> set qs\<close> by (auto simp: tm_def upd_def)
  ultimately show ?thesis
    using that ch' wake fn by blast
qed

section \<open>Operations on the timer list\<close>

lemma sorted_key_cong:
  assumes "sorted_wrt (\<lambda>x y. key b s x \<le> key b s y) qs"
    and "\<And>x. x \<in> set qs \<Longrightarrow> waketime_of s' x = waketime_of s x"
  shows "sorted_wrt (\<lambda>x y. key b s' x \<le> key b s' y) qs"
  by (rule sorted_wrt_mono_rel [of _ "\<lambda>x y. key b s x \<le> key b s y"]) (use assms in \<open>simp_all add: key_def\<close>)

lemma sched_inv_head:
  assumes "sched_inv b s qs"
  obtains qs' where "qs = timer_list s # qs'" and "DeletedT \<notin> set qs'"
    and "chain b s (nxt (timers s (timer_list s))) qs'"
  using assms by (cases qs) (auto simp: sched_inv_def chain_def)

lemma key_head_le:
  assumes "sched_inv b s qs" and "x \<in> set qs"
  shows "key b s (timer_list s) \<le> key b s x"
  using assms by (cases qs) (auto simp: sched_inv_def chain_def)

lemma insert_timer_inv:
  assumes inv: "sched_inv b s qs" and t: "user_timer t" "t \<notin> set qs" "in_window b (waketime_of s t)"
    and nb: "\<not> timer_is_before (waketime_of s t) (waketime_of s (timer_list s))"
  obtains tm where
    "insert_timer (timer_list s) t (waketime_of s t) s = Ret () (s\<lparr>timers := tm\<rparr>)"
    "sched_inv b (s\<lparr>timers := tm\<rparr>) (insort_timer (key b s) t qs)"
    "\<And>x. waketime (tm x) = waketime_of s x" and "\<And>x. func (tm x) = func (timers s x)"
proof -
  obtain qs' where qs: "qs = timer_list s # qs'" "DeletedT \<notin> set qs'"
    using inv by (rule sched_inv_head)
  from inv have ch: "chain b s (Some (timer_list s)) qs" and sent: "sentinel_ok s"
    and per: "PeriodicT \<in> set qs" and li: "last_insert s \<in> set qs - {DeletedT}"
    by (simp_all add: sched_inv_def)
  have "in_window b (waketime_of s (timer_list s))"
    using ch qs by (simp add: chain_def)
  then have le: "key b s (timer_list s) \<le> key b s t"
    using nb not_before_key [of b s "timer_list s" t] t(3) by simp
  obtain tm where tm: "insert_timer (timer_list s) t (waketime_of s t) s = Ret () (s\<lparr>timers := tm\<rparr>)"
    "chain b (s\<lparr>timers := tm\<rparr>) (Some (timer_list s)) (insort_timer (key b s) t qs)"
    "\<And>x. waketime (tm x) = waketime_of s x" "\<And>x. func (tm x) = func (timers s x)"
    by (rule insert_timer_chain [OF ch _ le t(2) _ t(3) _ sent])
      (use qs t per in \<open>auto simp: user_timer_def\<close>)
  have "insort_timer (key b s) t qs = timer_list s # insort_timer (key b s) t qs'"
    using le by (simp add: qs)
  then have "DeletedT \<notin> set (tl (insort_timer (key b s) t qs))"
    using qs t by (auto simp: user_timer_def)
  with tm per li sent have "sched_inv b (s\<lparr>timers := tm\<rparr>) (insort_timer (key b s) t qs)"
    by (simp add: sched_inv_def sentinel_ok_def)
  with tm that show thesis by blast
qed

text \<open>The new head of the list when a timer is added in front of all others.\<close>

lemma add_front_inv:
  assumes inv: "sched_inv b s qs" and t: "user_timer t" "t \<notin> set qs" "in_window b (waketime_of s t)"
    and bf: "key b s t < key b s (timer_list s)"
    and tm: "tm = upd (upd (upd (timers s) t (\<lambda>x. x\<lparr>nxt := if timer_list s = DeletedT
               then nxt (timers s DeletedT) else Some (timer_list s)\<rparr>))
             DeletedT (\<lambda>x. x\<lparr>waketime := waketime_of s t\<rparr>)) DeletedT (\<lambda>x. x\<lparr>nxt := Some t\<rparr>)"
    and s': "timers s' = tm" "timer_list s' = DeletedT" "last_insert s' = last_insert s"
  shows "sched_inv b s' (DeletedT # t # live qs)"
proof -
  obtain qs' where qs: "qs = timer_list s # qs'" "DeletedT \<notin> set qs'"
    using inv by (rule sched_inv_head)
  from inv have ch: "chain b s (Some (timer_list s)) qs" and sent: "sentinel_ok s"
    and per: "PeriodicT \<in> set qs" and li: "last_insert s \<in> set qs - {DeletedT}"
    by (simp_all add: sched_inv_def)
  have live: "live qs = (if timer_list s = DeletedT then qs' else qs)"
    using qs live_id by (auto simp: live_def)
  have wk: "waketime (tm x) = (if x = DeletedT then waketime_of s t else waketime_of s x)" for x
    by (simp add: tm upd_def)
  have nd: "DeletedT \<notin> set (live qs)" "t \<notin> set (live qs)"
    using t(2) by (auto simp: live_def)
  have tn: "t \<noteq> DeletedT" "t \<noteq> SentinelT"
    using t(1) by (simp_all add: user_timer_def)
  have "tpath (timers s) (if timer_list s = DeletedT then nxt (timers s DeletedT) else Some (timer_list s))
      (live qs @ [SentinelT])"
    using ch qs(2) unfolding live by (auto simp: chain_def qs(1))
  then have path: "tpath tm (Some DeletedT) ((DeletedT # t # live qs) @ [SentinelT])"
    using nd tn by (auto simp: tm)
  have "distinct ((DeletedT # t # live qs) @ [SentinelT])"
    using ch tn t(2) nd by (auto simp: chain_def live_def)
  moreover have "key b s t \<le> key b s x" if "x \<in> set (live qs)" for x
    using that bf key_head_le [OF inv, of x] by (simp add: live_def)
  then have "sorted_wrt (\<lambda>x y. key b s x \<le> key b s y) (t # live qs)"
    using ch by (simp add: chain_def live_def sorted_wrt_filter)
  then have "sorted_wrt (\<lambda>x y. key b s' x \<le> key b s' y) (t # live qs)"
    by (rule sorted_key_cong) (use nd tn in \<open>auto simp: s' wk\<close>)
  then have "sorted_wrt (\<lambda>x y. key b s' x \<le> key b s' y) (DeletedT # t # live qs)"
    using tn by (simp add: key_def s' wk)
  ultimately have "chain b s' (Some DeletedT) (DeletedT # t # live qs)"
    using path t(3) ch by (auto simp: chain_def s' wk live_def)
  moreover have "PeriodicT \<in> set (live qs)" "last_insert s \<in> set (live qs)"
    using per li by (auto simp: live_def)
  ultimately show ?thesis
    using sent nd li tn by (simp add: sched_inv_def sentinel_ok_def s' wk)
qed

lemma live_live [simp]: "live (live qs) = live qs"
  by (simp add: live_def)

text \<open>What an operation leaves alone: every callback, and every wake time but the placeholder's.\<close>

definition timer_frame :: "'z sched_scheme \<Rightarrow> 'z sched_scheme \<Rightarrow> bool" where
  "timer_frame s s' \<longleftrightarrow>
     (\<forall>x. func (timers s' x) = func (timers s x) \<and> (x \<noteq> DeletedT \<longrightarrow> waketime_of s' x = waketime_of s x))"

lemma sched_add_timer_inv:
  assumes inv: "sched_inv b s qs" and t: "user_timer t" "t \<notin> set qs" "in_window b (waketime_of s t)"
  shows "outcome (sched_add_timer t tag s)
    (\<lambda>_ s'. timer_frame s s' \<and>
       (\<exists>qs'. sched_inv b s' qs' \<and> live qs' = insort_timer (key b s) t (live qs)))
    (\<lambda>r s'. r = ''Timer too close'' \<and> shutdown_status s = 0 \<and> ff_timer_close s' = tag \<and>
       timer_is_before (waketime_of s t) (waketime_of s (timer_list s)) \<and>
       timer_is_before (waketime_of s t) (cyccnt (sample s)))"
proof (cases "timer_is_before (waketime_of s t) (waketime_of s (timer_list s))")
  case False
  obtain tm where tm: "insert_timer (timer_list s) t (waketime_of s t) s = Ret () (s\<lparr>timers := tm\<rparr>)"
    "sched_inv b (s\<lparr>timers := tm\<rparr>) (insort_timer (key b s) t qs)"
    "\<And>x. waketime (tm x) = waketime_of s x" "\<And>x. func (tm x) = func (timers s x)"
    using insert_timer_inv [OF inv t False] by metis
  moreover have "live (insort_timer (key b s) t qs) = insort_timer (key b s) t (live qs)"
    using inv t(1) by (intro live_insort_timer) (auto simp: user_timer_def sched_inv_def chain_def)
  ultimately show ?thesis
    using False by (auto simp: sched_add_timer_def timer_frame_def)
next
  case True
  have "in_window b (waketime_of s (timer_list s))"
    using inv sched_inv_head [OF inv] by (metis chain_def list.set_intros(1) sched_inv_def)
  with True t(3) have bf: "key b s t < key b s (timer_list s)"
    using timer_is_before_window [of b "waketime_of s t" "waketime_of s (timer_list s)"] by (simp add: key_def)
  have "\<And>x. x \<in> set (live qs) \<Longrightarrow> key b s t < key b s x"
    using bf key_head_le [OF inv] by (fastforce simp: live_def)
  then have ins: "insort_timer (key b s) t (live qs) = t # live qs"
    by (cases "live qs") simp_all
  have tn: "t \<noteq> DeletedT"
    using t(1) by (simp add: user_timer_def)
  show ?thesis
    using True tn by (auto simp: sched_add_timer_def timer_read_time_def sched_try_shutdown_def Let_def
        sched_shutdown_def shutdown_def timer_kick_def tick_def timer_frame_def upd_def ins
        intro!: exI [of _ "DeletedT # t # live qs"] add_front_inv [OF inv t bf])
qed

lemma chain_remove:
  assumes ch: "chain b s (nxt (timers s h)) qs" "h \<notin> set qs" "h \<noteq> SentinelT" and t: "t \<in> set qs"
  obtains pos where "del_walk (timers s) t h = Some (Some pos)" "pos \<in> set (h # qs)" "pos \<noteq> t"
    "tpath (upd (timers s) pos (\<lambda>x. x\<lparr>nxt := nxt (timers s t)\<rparr>)) (Some h) (h # removeAll t qs @ [SentinelT])"
proof -
  obtain as cs where qs: "qs = as @ t # cs" and nin: "t \<notin> set as"
    using split_list_first [OF t] by blast
  define us where "us = butlast (h # as)"
  define pos where "pos = last (h # as)"
  have ha: "h # as = us @ [pos]"
    by (simp add: us_def pos_def)
  have path: "tpath (timers s) (Some h) (h # as @ t # cs @ [SentinelT])"
    and dist: "distinct (h # as @ t # cs @ [SentinelT])"
    using ch by (simp_all add: chain_def qs)
  have full: "h # as @ t # cs @ [SentinelT] = us @ pos # t # cs @ [SentinelT]"
    using ha by (metis append.assoc append_Cons append_Nil)
  have full': "h # as @ cs @ [SentinelT] = us @ pos # cs @ [SentinelT]"
    using ha by (metis append.assoc append_Cons append_Nil)
  have "removeAll t qs = as @ cs"
    using dist nin by (simp add: qs removeAll_id)
  moreover have "tpath (upd (timers s) pos (\<lambda>x. x\<lparr>nxt := nxt (timers s t)\<rparr>)) (Some h)
      (us @ pos # cs @ [SentinelT])"
    using path dist unfolding full by (rule tpath_unlink)
  moreover have "pos \<in> set (h # as)"
    unfolding ha by simp
  moreover have "pos \<noteq> t"
    using calculation(3) dist by auto
  ultimately show thesis
    using that [of pos] del_walk_found [OF path nin]
    by (simp add: full' [symmetric] pos_def [symmetric] qs del: last.simps) blast
qed

lemma chain_relink:
  assumes "chain b s p qs" and "tpath (timers s') p' (filter P qs @ [SentinelT])"
    and "\<And>x. x \<in> set qs \<Longrightarrow> P x \<Longrightarrow> waketime_of s' x = waketime_of s x"
  shows "chain b s' p' (filter P qs)"
proof -
  have "sorted_wrt (\<lambda>x y. key b s x \<le> key b s y) (filter P qs)"
    using assms(1) by (simp add: chain_def sorted_wrt_filter)
  then have "sorted_wrt (\<lambda>x y. key b s' x \<le> key b s' y) (filter P qs)"
    by (rule sorted_key_cong) (use assms(3) in auto)
  with assms show ?thesis
    by (auto simp: chain_def)
qed

lemma removeAll_filter: "removeAll t qs = filter (\<lambda>x. x \<noteq> t) qs"
  by (induction qs) auto

lemma live_removeAll: "live (removeAll t qs) = removeAll t (live qs)"
  by (simp add: live_def removeAll_filter conj_commute)

text \<open>Deletion behind the head \<open>h\<close>, whose own wake time does not matter.\<close>

lemma del_inner:
  assumes ch: "chain b s (nxt (timers s h)) qs" and h: "timer_list s = h" "h \<notin> set qs" "h \<noteq> SentinelT"
    and t: "t \<noteq> h" "t \<noteq> SentinelT"
  obtains tm where "sched_del_timer t s = Ret () (s\<lparr>timers := tm,
      last_insert := if last_insert s = t then PeriodicT else last_insert s\<rparr>)"
    "chain b (s\<lparr>timers := tm\<rparr>) (nxt (tm h)) (removeAll t qs)"
    "\<And>x. waketime (tm x) = waketime_of s x" "\<And>x. func (tm x) = func (timers s x)"
proof (cases "t \<in> set qs")
  case True
  obtain pos where pos: "del_walk (timers s) t h = Some (Some pos)" "pos \<in> set (h # qs)" "pos \<noteq> t"
    "tpath (upd (timers s) pos (\<lambda>x. x\<lparr>nxt := nxt (timers s t)\<rparr>)) (Some h) (h # removeAll t qs @ [SentinelT])"
    using chain_remove [OF ch h(2,3) True] by metis
  define tm where "tm = upd (timers s) pos (\<lambda>x. x\<lparr>nxt := nxt (timers s t)\<rparr>)"
  have wk: "\<And>x. waketime (tm x) = waketime_of s x" "\<And>x. func (tm x) = func (timers s x)"
    by (simp_all add: tm_def upd_def)
  have "chain b (s\<lparr>timers := tm\<rparr>) (nxt (tm h)) (removeAll t qs)"
    unfolding removeAll_filter
    by (rule chain_relink [OF ch]) (use pos(4) wk in \<open>simp_all add: tm_def removeAll_filter\<close>)
  moreover have "sched_del_timer t s = Ret () (s\<lparr>timers := tm,
      last_insert := if last_insert s = t then PeriodicT else last_insert s\<rparr>)"
    using pos t h by (auto simp: sched_del_timer_def tm_def)
  ultimately show thesis
    using that wk by blast
next
  case False
  have "del_walk (timers s) t h = Some None"
    using ch False t by (intro del_walk_absent [of _ _ "qs @ [SentinelT]"]) (auto simp: chain_def)
  then have "sched_del_timer t s = Ret () (s\<lparr>timers := timers s,
      last_insert := if last_insert s = t then PeriodicT else last_insert s\<rparr>)"
    using t h by (auto simp: sched_del_timer_def)
  with that [of "timers s"] ch False show thesis
    by simp
qed

lemma del_head_inv:
  assumes inv: "sched_inv b s (t # qs)" and t: "user_timer t"
  shows "\<exists>tm. sched_del_timer t s = Ret () (s\<lparr>timers := tm, timer_list := DeletedT,
      last_insert := if last_insert s = t then PeriodicT else last_insert s\<rparr>) \<and>
    sched_inv b (s\<lparr>timers := tm, timer_list := DeletedT,
      last_insert := if last_insert s = t then PeriodicT else last_insert s\<rparr>) (DeletedT # qs) \<and>
    (\<forall>x. func (tm x) = func (timers s x) \<and> (x \<noteq> DeletedT \<longrightarrow> waketime (tm x) = waketime_of s x))"
proof -
  define tm where "tm = upd (upd (timers s) DeletedT (\<lambda>x. x\<lparr>waketime := waketime_of s t\<rparr>))
      DeletedT (\<lambda>x. x\<lparr>nxt := nxt (timers s t)\<rparr>)"
  have tn: "t \<noteq> DeletedT" "t \<noteq> PeriodicT" "t \<noteq> SentinelT"
    using t by (simp_all add: user_timer_def)
  have hd: "timer_list s = t" and nin: "DeletedT \<notin> set qs"
    and ch: "chain b s (Some t) (t # qs)"
    using inv by (simp_all add: sched_inv_def chain_def)
  have wk: "waketime (tm x) = (if x = DeletedT then waketime_of s t else waketime_of s x)" for x
    by (simp add: tm_def upd_def)
  have del: "sched_del_timer t s = Ret () (s\<lparr>timers := tm, timer_list := DeletedT,
      last_insert := if last_insert s = t then PeriodicT else last_insert s\<rparr>)"
    using hd tn by (auto simp: sched_del_timer_def tm_def Let_def)
  have "sorted_wrt (\<lambda>x y. key b (s\<lparr>timers := tm\<rparr>) x \<le> key b (s\<lparr>timers := tm\<rparr>) y) qs"
    by (rule sorted_key_cong [of _ s]) (use ch wk nin in \<open>auto simp: chain_def\<close>)
  then have "sched_inv b (s\<lparr>timers := tm, timer_list := DeletedT,
      last_insert := if last_insert s = t then PeriodicT else last_insert s\<rparr>) (DeletedT # qs)"
    using inv nin tn by (auto simp: sched_inv_def chain_def key_def wk sentinel_ok_def tm_def [symmetric])
      (auto simp: tm_def)
  with del show ?thesis
    by (intro exI [of _ tm]) (simp add: tm_def upd_def)
qed

lemma sched_del_timer_inv:
  assumes inv: "sched_inv b s qs" and t: "user_timer t"
  shows "outcome (sched_del_timer t s)
    (\<lambda>_ s'. timer_frame s s' \<and>
       (\<exists>qs'. sched_inv b s' qs' \<and> live qs' = removeAll t (live qs)))
    (\<lambda>_ _. False)"
proof -
  obtain qs' where qs: "qs = timer_list s # qs'" "DeletedT \<notin> set qs'"
    and ch': "chain b s (nxt (timers s (timer_list s))) qs'"
    using inv by (rule sched_inv_head)
  have tn: "t \<noteq> DeletedT" "t \<noteq> PeriodicT" "t \<noteq> SentinelT"
    using t by (simp_all add: user_timer_def)
  have dist: "timer_list s \<notin> set qs'" "timer_list s \<noteq> SentinelT"
    using inv by (simp_all add: sched_inv_def chain_def qs)
  show ?thesis
  proof (cases "timer_list s = t")
    case True
    then have inv': "sched_inv b s (t # qs')" and "live qs = t # qs'" and "t \<notin> set qs'"
      using inv qs dist tn by (simp_all add: live_id)
    with del_head_inv [OF inv' t] qs show ?thesis
      by (auto simp: timer_frame_def live_id intro!: exI [of _ "DeletedT # qs'"])
  next
    case False
    obtain tm where tm: "sched_del_timer t s = Ret () (s\<lparr>timers := tm,
        last_insert := if last_insert s = t then PeriodicT else last_insert s\<rparr>)"
      "chain b (s\<lparr>timers := tm\<rparr>) (nxt (tm (timer_list s))) (removeAll t qs')"
      "\<And>x. waketime (tm x) = waketime_of s x" "\<And>x. func (tm x) = func (timers s x)"
      using del_inner [OF ch' refl dist _ tn(3)] False by metis
    define s' where "s' = s\<lparr>timers := tm,
        last_insert := if last_insert s = t then PeriodicT else last_insert s\<rparr>"
    have "key b s' x = key b s x" for x
      by (simp add: key_def s'_def tm(3))
    then have "chain b s' (Some (timer_list s)) (removeAll t qs)"
      using tm(2,3) inv False dist by (auto simp: chain_def sched_inv_def qs s'_def key_def)
    moreover have "DeletedT \<notin> set (tl (removeAll t qs))"
      using qs False by simp
    ultimately have "sched_inv b s' (removeAll t qs)"
      using inv tn by (auto simp: sched_inv_def s'_def sentinel_ok_def tm(3))
    with tm(1,3,4) show ?thesis
      by (auto simp: s'_def timer_frame_def intro!: exI [of _ "removeAll t qs"] live_removeAll)
  qed
qed

lemma sched_del_timer_running:
  assumes inv: "running_inv b t s qs" and u: "user_timer u" "u \<noteq> t"
  shows "outcome (sched_del_timer u s)
    (\<lambda>_ s'. timer_frame s s' \<and> running_inv b t s' (removeAll u qs)) (\<lambda>_ _. False)"
proof -
  have un: "u \<noteq> DeletedT" "u \<noteq> PeriodicT" "u \<noteq> SentinelT"
    using u by (simp_all add: user_timer_def)
  have h: "chain b s (nxt (timers s t)) qs" "timer_list s = t" "t \<notin> set qs" "t \<noteq> SentinelT"
    using inv by (simp_all add: running_inv_def)
  obtain tm where tm: "sched_del_timer u s = Ret () (s\<lparr>timers := tm,
      last_insert := if last_insert s = u then PeriodicT else last_insert s\<rparr>)"
    "chain b (s\<lparr>timers := tm\<rparr>) (nxt (tm t)) (removeAll u qs)"
    "\<And>x. waketime (tm x) = waketime_of s x" "\<And>x. func (tm x) = func (timers s x)"
    using del_inner [OF h u(2) un(3)] by metis
  have "chain b (s\<lparr>timers := tm, last_insert := l\<rparr>) (nxt (tm t)) (removeAll u qs)" for l
    using tm(2) by (simp add: chain_def key_def)
  with tm inv un u show ?thesis
    by (auto simp: running_inv_def timer_frame_def sentinel_ok_def)
qed

text \<open>
  The base of the window can move: the order is the same for every base that has all the timers
  in its window, in particular for the wake time of the first one.
\<close>

lemma sched_inv_rebase:
  assumes inv: "sched_inv b s qs" and win: "\<And>x. x \<in> set qs \<Longrightarrow> in_window b' (waketime_of s x)"
  shows "sched_inv b' s qs"
proof -
  have "key b' s x \<le> key b' s y" if "x \<in> set qs" "y \<in> set qs" "key b s x \<le> key b s y" for x y
    using that inv win not_before_key [of b s x y] not_before_key [of b' s x y]
    by (simp add: sched_inv_def chain_def)
  then have "sorted_wrt (\<lambda>x y. key b' s x \<le> key b' s y) qs"
    using inv sorted_wrt_mono_rel [of qs "\<lambda>x y. key b s x \<le> key b s y"]
    by (simp add: sched_inv_def chain_def)
  with inv win show ?thesis
    by (simp add: sched_inv_def chain_def)
qed

lemma sched_inv_rebase_head:
  assumes inv: "sched_inv b s qs"
  shows "sched_inv (waketime_of s (timer_list s)) s qs"
proof (rule sched_inv_rebase [OF inv])
  fix x assume x: "x \<in> set qs"
  then have "in_window b (waketime_of s x)"
    using inv by (simp add: sched_inv_def chain_def)
  with key_head_le [OF inv x] show "in_window (waketime_of s (timer_list s)) (waketime_of s x)"
    using ahead_shift [of "waketime_of s x" "waketime_of s (timer_list s)" b]
    by (simp add: in_window_def ahead_def [of "waketime_of s (timer_list s)"] key_def)
qed

text \<open>After a reset only the periodic timer is pending, whatever the list was before.\<close>

lemma sched_timer_reset_inv:
  assumes "sentinel_ok s" and "nxt (timers s SentinelT) = None"
  shows "sched_inv (waketime_of s PeriodicT) (sched_timer_reset s) [DeletedT, PeriodicT]"
  using assms by (simp add: sched_inv_def chain_def sched_timer_reset_def timer_kick_def sentinel_ok_def
      upd_def in_window_def ahead_def key_def)

section \<open>Dispatch\<close>

lemma running_next:
  assumes "running_inv b t s qs"
  obtains n where "nxt (timers s t) = Some n" and "n = hd (qs @ [SentinelT])"
  using assms by (cases qs) (auto simp: running_inv_def chain_def)

lemma before_sentinel: "sentinel_ok s \<Longrightarrow> timer_is_before (waketime_of s PeriodicT) (waketime_of s SentinelT)"
  by (simp add: sentinel_ok_def timer_is_before_iff)

text \<open>A timer that asks to run again and is not the next one is moved to its place.\<close>

lemma requeue_inv:
  assumes inv: "running_inv b t s (n # qs)" and t: "t \<noteq> DeletedT" "in_window b (waketime_of s t)"
    and nb: "\<not> timer_is_before (waketime_of s t) (waketime_of s n)"
    and pos: "pos = (if timer_is_before (waketime_of s t) (waketime_of s (last_insert s)) then n else last_insert s)"
  obtains tm where "insert_timer pos t (waketime_of s t) (s\<lparr>timer_list := n\<rparr>) = Ret () (s\<lparr>timer_list := n, timers := tm\<rparr>)"
    and "sched_inv b (s\<lparr>timer_list := n, timers := tm, last_insert := t\<rparr>) (insort_timer (key b s) t (n # qs))"
    and "\<And>x. waketime (tm x) = waketime_of s x" and "\<And>x. func (tm x) = func (timers s x)"
proof -
  let ?s = "s\<lparr>timer_list := n\<rparr>" and ?w = "waketime_of s t"
  have ch: "chain b s (Some n) (n # qs)" and nx: "nxt (timers s t) = Some n"
    and tn: "t \<noteq> SentinelT" "t \<notin> set (n # qs)" and sent: "sentinel_ok s"
    and li: "last_insert s = t \<or> last_insert s \<in> set (n # qs)"
    and nd: "DeletedT \<notin> set (n # qs)" and per: "PeriodicT \<in> set (t # n # qs)"
    using inv by (auto simp: running_inv_def chain_def)
  have win: "in_window b (waketime_of s x)" if "x \<in> set (n # qs)" for x
    using ch that by (auto simp: chain_def)
  have le: "key b s n \<le> key b s t"
    using nb not_before_key [of b s n t] win t(2) by simp
  define pos' where "pos' = (if pos = t then n else pos)"
  have "insert_walk (timers s) t ?w = insert_walk (timers s) n ?w"
    using nx nb by (subst insert_walk.simps) simp
  then have eq: "insert_timer pos t ?w ?s = insert_timer pos' t ?w ?s"
    by (simp add: insert_timer_def pos'_def)
  have pos': "pos' \<in> set (n # qs)" "key b s pos' \<le> key b s t"
    using li le pos not_before_key [of b s "last_insert s" t] win [of "last_insert s"] t(2) tn
    by (auto simp: pos'_def split: if_splits)
  have ch': "chain b ?s (Some n) (n # qs)"
    using ch by (simp add: chain_def key_def)
  obtain tm where tm: "insert_timer pos' t (waketime_of ?s t) ?s = Ret () (?s\<lparr>timers := tm\<rparr>)"
    "chain b (?s\<lparr>timers := tm\<rparr>) (Some n) (insort_timer (key b ?s) t (n # qs))"
    "\<And>x. waketime (tm x) = waketime_of ?s x" "\<And>x. func (tm x) = func (timers ?s x)"
    by (rule insert_timer_chain [OF ch', of pos' t])
      (use pos' tn t per sent before_sentinel [OF sent] in \<open>auto simp: key_def sentinel_ok_def\<close>)
  have k: "key b ?s = key b s"
    by (rule ext) (simp add: key_def)
  have "sched_inv b (?s\<lparr>timers := tm, last_insert := t\<rparr>) (insort_timer (key b s) t (n # qs))"
    using tm(2) per nd t(1) le sent
    by (auto simp: sched_inv_def k sentinel_ok_def tm(3) chain_def key_def)
  with tm eq that show thesis
    by simp
qed

lemma dispatch_step:
  assumes inv: "sched_inv b s (t # rest)" 
    and run: "run (func (timers s t)) t s = Ret r s1" and inv1: "running_inv b t s1 qs"
    and fin: "r = SF_DONE \<Longrightarrow> t \<noteq> PeriodicT"
    and again: "r = SF_RESCHEDULE \<Longrightarrow> t \<noteq> DeletedT \<and> in_window b (waketime_of s1 t)"
    and qs': "qs' = (if r = SF_DONE then qs else insort_timer (key b s1) t qs)"
  obtains s' where "sched_timer_dispatch run s = Ret (waketime_of s' (timer_list s')) s'"
    and "sched_inv b s' qs'" and "timer_frame s1 s'" 
    and "s' = s1\<lparr>timers := timers s', timer_list := timer_list s', last_insert := last_insert s'\<rparr>"
proof -
  have tl: "timer_list s = t"
    using inv by (simp add: sched_inv_def chain_def)
  obtain n where nx: "nxt (timers s1 t) = Some n" and n: "n = hd (qs @ [SentinelT])"
    using inv1 by (rule running_next)
  have tl1: "timer_list s1 = t"
    using inv1 by (simp add: running_inv_def)
  show thesis
  proof (cases "r = SF_DONE")
    case True
    let ?s = "s1\<lparr>timer_list := n, last_insert := if last_insert s1 = t then n else last_insert s1\<rparr>"
    obtain ns where qs: "qs = n # ns"
      using fin [OF True] inv1 n by (cases qs) (auto simp: running_inv_def)
    have "sched_inv b ?s qs"
      using inv1 fin [OF True] nx by (auto simp: running_inv_def sched_inv_def chain_def key_def qs sentinel_ok_def)
    then show thesis
      using that [of ?s] True by (auto simp: sched_timer_dispatch_def tl run nx timer_frame_def qs')
  next
    case False
    then have r: "r = SF_RESCHEDULE" by (cases r) auto
    note ag = again [OF r]
    show thesis
    proof (cases "timer_is_before (waketime_of s1 t) (waketime_of s1 n)")
      case True
      have lt: "key b s1 t < key b s1 x" if x: "x \<in> set qs" for x
        using x inv1 ag True n timer_is_before_window [of b "waketime_of s1 t" "waketime_of s1 n"]
        by (cases qs) (auto simp: running_inv_def chain_def key_def)
      have "insort_timer (key b s1) t qs = t # qs"
        using lt by (cases qs) auto
      moreover have "sched_inv b s1 (t # qs)"
        using inv1 ag lt less_imp_le by (auto simp: running_inv_def sched_inv_def chain_def)
      ultimately show thesis
        using that [of s1] True r by (simp add: sched_timer_dispatch_def tl run nx timer_frame_def qs' tl1)
    next
      case nb: False
      obtain ns where qs: "qs = n # ns"
        using inv1 n nb before_sentinel [of s1] by (cases qs) (auto simp: running_inv_def)
      define pos where "pos = (if timer_is_before (waketime_of s1 t) (waketime_of s1 (last_insert s1)) then n else last_insert s1)"
      obtain tm where tm: "insert_timer pos t (waketime_of s1 t) (s1\<lparr>timer_list := n\<rparr>) = Ret () (s1\<lparr>timer_list := n, timers := tm\<rparr>)"
        "sched_inv b (s1\<lparr>timer_list := n, timers := tm, last_insert := t\<rparr>) (insort_timer (key b s1) t (n # ns))"
        "\<And>x. waketime (tm x) = waketime_of s1 x" "\<And>x. func (tm x) = func (timers s1 x)"
        using requeue_inv [OF inv1 [unfolded qs] _ _ nb pos_def] ag by metis
      show thesis
        by (rule that [of "s1\<lparr>timer_list := n, timers := tm, last_insert := t\<rparr>"])
          (use nb r tm in \<open>auto simp: sched_timer_dispatch_def tl run nx timer_frame_def qs' qs Let_def pos_def split: if_splits\<close>)
    qed
  qed
qed

section \<open>What deleting a timer touches\<close>

definition sched_only :: "'z sched_scheme \<Rightarrow> 'z sched_scheme \<Rightarrow> bool" where
  "sched_only s s' \<longleftrightarrow> s' = s\<lparr>timers := timers s', timer_list := timer_list s', last_insert := last_insert s'\<rparr>"

lemma sched_only_frame:
  assumes "sched_only s s'" "\<And>t l i. P (s\<lparr>timers := t, timer_list := l, last_insert := i\<rparr>) = P s"
  shows "P s' = P s"
  using assms(1) [unfolded sched_only_def] assms(2) by (rule ssubst)

lemma sched_del_timer_only:
  assumes "sched_del_timer u s = Ret () s'"
  shows "sched_only s s'"
proof -
  define m where "m =
      (if timer_list s = u
       then let s = set_waketime DeletedT (waketime_of s u) s;
                s = set_next DeletedT (nxt (timers s u)) s
            in Ret () (s\<lparr>timer_list := DeletedT\<rparr>)
       else case del_walk (timers s) u (timer_list s) of
              None \<Rightarrow> Fault
            | Some None \<Rightarrow> Ret () s
            | Some (Some pos) \<Rightarrow> Ret () (set_next pos (nxt (timers s u)) s))"
  have inner: "s1 = s\<lparr>timers := timers s1, timer_list := timer_list s1\<rparr>" if "m = Ret () s1" for s1
    using that by (auto simp: m_def Let_def split: if_splits option.splits)
  obtain s1 where m: "m = Ret () s1" and s': "s' = (if last_insert s1 = u then s1\<lparr>last_insert := PeriodicT\<rparr> else s1)"
    using assms unfolding sched_del_timer_def m_def [symmetric] by (auto simp: bind_Ret_iff)
  have "last_insert s1 = last_insert s"
    using inner [OF m] by (rule ssubst) simp
  then show ?thesis
    using inner [OF m] arg_cong [OF inner [OF m], of "\<lambda>z. z\<lparr>last_insert := PeriodicT\<rparr>"]
    by (simp add: sched_only_def s')
qed

text \<open>The list depends on the links and on the wake times of its own timers.\<close>

lemma tpath_same: "(\<And>x. nxt (tm' x) = nxt (tm x)) \<Longrightarrow> tpath tm' p xs = tpath tm p xs"
  by (induction xs arbitrary: p) simp_all

lemma sched_inv_same:
  assumes "sched_inv b s qs" "timer_list s' = timer_list s" "last_insert s' = last_insert s"
    and "\<And>x. nxt (timers s' x) = nxt (timers s x)"
    and "\<And>x. x \<in> set qs \<union> {PeriodicT, SentinelT} \<Longrightarrow> waketime_of s' x = waketime_of s x"
  shows "sched_inv b s' qs"
proof -
  have "chain b s' (Some (timer_list s)) qs"
    by (rule chain_cong [of b s]) (use assms tpath_same [OF assms(4)] in \<open>auto simp: sched_inv_def chain_def\<close>)
  then show ?thesis
    using assms by (simp add: sched_inv_def sentinel_ok_def)
qed

lemma running_inv_same:
  assumes "running_inv b t s qs" "timer_list s' = timer_list s" "last_insert s' = last_insert s"
    and "\<And>x. nxt (timers s' x) = nxt (timers s x)"
    and "\<And>x. x \<in> set qs \<union> {PeriodicT, SentinelT} \<Longrightarrow> waketime_of s' x = waketime_of s x"
  shows "running_inv b t s' qs"
proof -
  have "chain b s' (nxt (timers s t)) qs"
    by (rule chain_cong [of b s]) (use assms tpath_same [OF assms(4)] in \<open>auto simp: running_inv_def chain_def\<close>)
  then show ?thesis
    using assms by (simp add: running_inv_def sentinel_ok_def)
qed

lemma park_waketime: "x \<noteq> u \<Longrightarrow> waketime (upd tm u (\<lambda>y. y\<lparr>waketime := w\<rparr>) x) = waketime (tm x)"
  "nxt (upd tm u (\<lambda>y. y\<lparr>waketime := w\<rparr>) x) = nxt (tm x)"
  by (simp_all add: upd_def)

section \<open>The contract of timer callbacks\<close>

text \<open>
  A state in which the timer list can be reset: the sentinel is half a clock period after the
  periodic timer and ends the list.
\<close>

definition sched_base :: "'z sched_scheme \<Rightarrow> bool" where
  "sched_base s \<longleftrightarrow> sentinel_ok s \<and> nxt (timers s SentinelT) = None"

lemma tpath_end: "tpath tm p (xs @ [x]) \<Longrightarrow> nxt (tm x) = None"
  by (induction xs arbitrary: p) auto

lemma sched_inv_base: "sched_inv b s qs \<Longrightarrow> sched_base s"
  by (auto simp: sched_inv_def sched_base_def chain_def intro: tpath_end)

lemma running_inv_base: "running_inv b t s qs \<Longrightarrow> sched_base s"
  by (auto simp: running_inv_def sched_base_def chain_def intro: tpath_end)

text \<open>\<open>relinked s s'\<close>: the states differ in the links of the timer list only.\<close>

definition relinked :: "'z sched_scheme \<Rightarrow> 'z sched_scheme \<Rightarrow> bool" where
  "relinked s s' \<longleftrightarrow> timer_frame s s' \<and>
     s' = s\<lparr>timers := timers s', timer_list := timer_list s', last_insert := last_insert s'\<rparr>"

text \<open>The result a callback of the head timer \<open>t\<close> may leave, with \<open>qs\<close> the rest of the list then.\<close>

definition callback_result :: "u32 \<Rightarrow> tptr \<Rightarrow> tptr list \<Rightarrow> sf \<Rightarrow> 'z sched_scheme \<Rightarrow> bool" where
  "callback_result b t qs r s \<longleftrightarrow> running_inv b t s qs \<and>
     (case r of SF_DONE \<Rightarrow> t \<noteq> PeriodicT
      | SF_RESCHEDULE \<Rightarrow> t \<noteq> DeletedT \<and> in_window b (waketime_of s t))"

text \<open>The timers that are pending after the call.\<close>

fun pending_after :: "tptr \<Rightarrow> sf \<Rightarrow> tptr list \<Rightarrow> tptr set" where
  "pending_after t SF_DONE qs = set qs"
| "pending_after t SF_RESCHEDULE qs = set (t # qs)"

text \<open>Any number of dispatches.\<close>

primrec dispatch_n ::
  "(timer_func \<Rightarrow> tptr \<Rightarrow> 'z sched_scheme \<Rightarrow> (sf, 'z sched_scheme) res) \<Rightarrow> nat \<Rightarrow> 'z sched_scheme \<Rightarrow> (unit, 'z sched_scheme) res" where
  "dispatch_n run 0 s = Ret () s"
| "dispatch_n run (Suc n) s = bind (sched_timer_dispatch run s) (\<lambda>_ s. dispatch_n run n s)"

text \<open>
  \<open>run\<close> is the call through the \<open>func\<close> field; \<open>ok T s\<close> is what the callbacks of the pending timers
  \<open>T\<close> need of the rest of the state, and \<open>bad\<close> describes the states they shut down from. A callback
  may delete other timers and move its own wake time by less than half the clock period; the
  periodic timer always runs again.
\<close>

locale timer_callbacks =
  fixes run :: "timer_func \<Rightarrow> tptr \<Rightarrow> 'z sched_scheme \<Rightarrow> (sf, 'z sched_scheme) res"
    and ok :: "tptr set \<Rightarrow> 'z sched_scheme \<Rightarrow> bool"
    and bad :: "reason \<Rightarrow> 'z sched_scheme \<Rightarrow> bool"
  assumes callback: "sched_inv (waketime_of s t) s (t # qs) \<Longrightarrow> ok (set (t # qs)) s \<Longrightarrow>
      outcome (run (func (timers s t)) t s)
        (\<lambda>r s'. \<exists>qs'. ok (pending_after t r qs') s' \<and> callback_result (waketime_of s t) t qs' r s') bad"
    and ok_relinked: "ok T s \<Longrightarrow> relinked s s' \<Longrightarrow> ok T s'"
begin

lemma dispatch_ok:
  assumes "\<exists>b qs. sched_inv b s qs \<and> ok (set qs) s"
  shows "outcome (sched_timer_dispatch run s)
    (\<lambda>w s'. (\<exists>b qs. sched_inv b s' qs \<and> ok (set qs) s') \<and> w = waketime_of s' (timer_list s')) bad"
proof -
  define t where "t = timer_list s"
  define b where "b = waketime_of s t"
  obtain b0 qs0 where inv0: "sched_inv b0 s qs0" and ok0: "ok (set qs0) s"
    using assms by blast
  obtain qs where qs0: "qs0 = t # qs"
    using sched_inv_head [OF inv0] unfolding t_def by blast
  have inv: "sched_inv b s (t # qs)" and ok: "ok (set (t # qs)) s"
    using sched_inv_rebase_head [OF inv0] ok0 by (simp_all add: qs0 t_def b_def)
  have out: "outcome (run (func (timers s t)) t s)
      (\<lambda>r s'. \<exists>qs'. ok (pending_after t r qs') s' \<and> callback_result b t qs' r s') bad"
    using callback [OF _ ok] inv by (simp add: b_def)
  show ?thesis
  proof (cases "run (func (timers s t)) t s")
    case (Ret r s1)
    then obtain qs1 where ok1: "ok (pending_after t r qs1) s1" and res: "callback_result b t qs1 r s1"
      using out by auto
    have inv1: "running_inv b t s1 qs1"
      using res by (simp add: callback_result_def)
    obtain s' qs' where s': "sched_timer_dispatch run s = Ret (waketime_of s' (timer_list s')) s'"
      "sched_inv b s' qs'" "relinked s1 s'" "qs' = (if r = SF_DONE then qs1 else insort_timer (key b s1) t qs1)"
      by (rule dispatch_step [where run = run, OF inv Ret inv1 _ _ refl])
        (use res in \<open>auto simp: callback_result_def relinked_def\<close>)
    have "set qs' = pending_after t r qs1"
      using s'(4) by (cases r) simp_all
    then have "ok (set qs') s'"
      using ok_relinked [OF ok1 s'(3)] by simp
    with s'(1,2) show ?thesis by auto
  next
    case (Shut r s1)
    with out show ?thesis
      by (simp add: sched_timer_dispatch_def t_def)
  next
    case Fault
    with out show ?thesis by simp
  qed
qed

lemma dispatch_n_ok:
  "\<exists>b qs. sched_inv b s qs \<and> ok (set qs) s \<Longrightarrow> outcome (dispatch_n run n s) (\<lambda>_ s'. \<exists>b qs. sched_inv b s' qs \<and> ok (set qs) s') bad"
proof (induction n arbitrary: s)
  case (Suc n)
  show ?case
    unfolding dispatch_n.simps outcome_bind
    by (rule outcome_mono [OF dispatch_ok [OF Suc.prems]]) (use Suc.IH in auto)
qed simp

end

section \<open>Properties\<close>

text \<open>An environment in which the clock stands at \<open>now\<close> and all pins read low.\<close>

definition quiet_env :: "u32 \<Rightarrow> nat \<Rightarrow> env" where
  "quiet_env now n = \<lparr>cyccnt = now, pid = (\<lambda>_. 0), adc_delay = 0, adc_value = 0\<rparr>"

lemma sched_static_inv: "sched_inv 0 (sched_static ev m) [PeriodicT]"
  by (simp add: sched_inv_def chain_def sched_static_def board_static_def timers_static_def sentinel_ok_def
      in_window_def ahead_def)



text \<open>
  C2. Deleting a timer removes exactly that timer from the pending timers, wherever it is in the
  list and also when it is not pending at all; it never shuts down, never follows a null pointer,
  and changes no wake time or callback.
\<close>

theorem sched_del_timer_refines:
  assumes "sched_inv b s qs" and "user_timer t"
  shows "outcome (sched_del_timer t s)
    (\<lambda>_ s'. timer_frame s s' \<and>
       (\<exists>qs'. sched_inv b s' qs' \<and> live qs' = removeAll t (live qs)))
    (\<lambda>_ _. False)"
  using assms by (rule sched_del_timer_inv)

theorem sched_del_timer_refines_witness:
  "outcome (sched_del_timer (MemT 64) (sched_static (quiet_env 10) ()))
     (\<lambda>_ s'. \<exists>qs'. sched_inv 0 s' qs' \<and> live qs' = [PeriodicT]) (\<lambda>_ _. False)"
  using sched_del_timer_refines [OF sched_static_inv, of "MemT 64" "quiet_env 10" "()"]
  by (auto elim!: outcome_mono simp: user_timer_def)

text \<open>
  C3. Dispatch runs the callback of the first pending timer, and then drops that timer (when the
  callback is done) or moves it to its place in the order of its new wake time; the result is the
  wake time of the new first timer, the invariant holds again, and no other part of the state that
  the callback left is touched. The callback may delete other timers and move its own wake time
  inside the window.
\<close>

theorem sched_timer_dispatch_refines:
  assumes "sched_inv b s (t # rest)" and "run (func (timers s t)) t s = Ret r s1"
    and "running_inv b t s1 qs"
    and "r = SF_DONE \<Longrightarrow> t \<noteq> PeriodicT"
    and "r = SF_RESCHEDULE \<Longrightarrow> t \<noteq> DeletedT \<and> in_window b (waketime_of s1 t)"
  shows "\<exists>s'. sched_timer_dispatch run s = Ret (waketime_of s' (timer_list s')) s' \<and>
    sched_inv b s' (if r = SF_DONE then qs else insort_timer (key b s1) t qs) \<and> relinked s1 s'"
  by (rule dispatch_step [where run = run, OF assms refl]) (auto simp: relinked_def)

text \<open>The periodic timer of the start state asks to run again.\<close>

theorem sched_timer_dispatch_refines_witness:
  "\<exists>s'. sched_timer_dispatch (\<lambda>f t. periodic_event) (sched_static (quiet_env 10) ()) =
      Ret (waketime_of s' (timer_list s')) s' \<and> sched_inv 0 s' [PeriodicT]"
proof -
  let ?s = "sched_static (quiet_env 10) ()"
  obtain s1 where s1: "periodic_event ?s = Ret SF_RESCHEDULE s1" "running_inv 0 PeriodicT s1 []"
    "in_window 0 (waketime_of s1 PeriodicT)"
    by (simp add: periodic_event_def running_inv_def chain_def sched_static_def board_static_def timers_static_def
        sentinel_ok_def in_window_def ahead_def sched_wake_tasks_def timer_from_us_def CONFIG_CLOCK_FREQ_def)
  from sched_timer_dispatch_refines [where run = "\<lambda>f t. periodic_event", OF sched_static_inv s1(1,2)] s1(3)
  show ?thesis by auto
qed

text \<open>
  C35. Whatever state the timer list was in when a shutdown was raised (callback half done, list
  half linked), the reset that \<open>run_shutdown\<close> performs leaves a sound list in which only the
  periodic timer is pending: every other timer is off the list, the polling timer of the eddy
  sensor included.
\<close>

theorem sched_timer_reset_sound:
  assumes "sched_base s"
  shows "\<exists>qs. sched_inv (waketime_of s PeriodicT) (sched_timer_reset s) qs \<and> live qs = [PeriodicT]"
  using assms sched_timer_reset_inv [of s] by (auto simp: sched_base_def)

theorem sched_timer_reset_sound_witness:
  "\<exists>qs. sched_inv 0 (sched_timer_reset (set_next PeriodicT None (sched_static (quiet_env 10) ()))) qs \<and>
     live qs = [PeriodicT]"
  using sched_timer_reset_sound [of "set_next PeriodicT None (sched_static (quiet_env 10) ())"]
  by (simp add: sched_base_def sentinel_ok_def sched_static_def board_static_def timers_static_def)

end
