(* ===== verification/Basecmd_Spec.thy ===== *)
theory Basecmd_Spec
  imports Basecmd Sched_Spec "HOL-Library.Multiset"
begin

text \<open>
  Correctness of \<open>Basecmd\<close>: allocated areas are disjoint, move queues are first-in first-out
  lists and every move node is in exactly one place (\<open>move_inv\<close>), the object table returns what
  was registered, and the statistics are exact up to saturation. The locale \<open>fifo\<close> is the
  interface that the users of the move queues rely on.
\<close>

section \<open>Allocation\<close>

lemma ALIGN_ge: "x \<le> ALIGN x"
  by (simp add: ALIGN_def)

lemma alloc_chunk_outcome:
  "outcome (alloc_chunk sz s)
     (\<lambda>d s'. d = alloc_end s \<and> d + sz \<le> dynmem_end s \<and> s' = s\<lparr>alloc_end := d + ALIGN sz\<rparr>)
     (\<lambda>r s'. r = ''alloc_chunk failed'' \<and> alloc_end s' = alloc_end s \<and> ff_shutdown_code s' = FF_EC_ALLOC_CHUNK \<and>
        dynmem_end s < alloc_end s + sz)"
  by (simp add: alloc_chunk_def shutdown_ec_def shutdown_def)

text \<open>A sequence of allocations, and the areas it returns.\<close>

primrec alloc_all :: "nat list \<Rightarrow> 'z base_scheme \<Rightarrow> ((nat \<times> nat) list, 'z base_scheme) res" where
  "alloc_all [] s = Ret [] s"
| "alloc_all (sz # szs) s =
     bind (alloc_chunk sz s) (\<lambda>d s. bind (alloc_all szs s) (\<lambda>ds s. Ret ((d, sz) # ds) s))"

definition area :: "nat \<times> nat \<Rightarrow> nat set" where
  "area a = {fst a..<fst a + snd a}"

lemma alloc_all_areas:
  "alloc_all szs s = Ret as s' \<Longrightarrow>
     map snd as = szs \<and> (\<forall>a \<in> set as. alloc_end s \<le> fst a \<and> fst a + snd a \<le> dynmem_end s) \<and>
     sorted_wrt (\<lambda>a c. fst a + snd a \<le> fst c) as"
proof (induction szs arbitrary: s as)
  case (Cons sz szs)
  from Cons.prems obtain d s1 ds where 1: "alloc_chunk sz s = Ret d s1" "alloc_all szs s1 = Ret ds s'"
    and as: "as = (d, sz) # ds"
    by (auto simp: bind_Ret_iff)
  have s1: "d = alloc_end s" "d + sz \<le> dynmem_end s" "s1 = s\<lparr>alloc_end := d + ALIGN sz\<rparr>"
    using alloc_chunk_outcome [of sz s] by (simp_all add: 1)
  note IH = Cons.IH [OF 1(2)]
  have "d + sz \<le> fst a" if "a \<in> set ds" for a
    using IH that ALIGN_ge [of sz] by (fastforce simp: s1)
  moreover have "alloc_end s \<le> fst a \<and> fst a + snd a \<le> dynmem_end s" if "a \<in> set ds" for a
    using IH that by (fastforce simp: s1)
  ultimately show ?case
    using IH s1(1,2) by (simp add: as)
qed simp

section \<open>Move nodes\<close>

primrec npath :: "(nat \<Rightarrow> nat option) \<Rightarrow> nat option \<Rightarrow> nat list \<Rightarrow> bool" where
  "npath nx p [] \<longleftrightarrow> p = None"
| "npath nx p (x # xs) \<longleftrightarrow> p = Some x \<and> npath nx (nx x) xs"

definition queue_rep :: "(nat \<Rightarrow> nat option) \<Rightarrow> move_queue_head \<Rightarrow> nat list \<Rightarrow> bool" where
  "queue_rep nx mh xs \<longleftrightarrow> npath nx (first mh) xs \<and> distinct xs \<and> (xs \<noteq> [] \<longrightarrow> mlast mh = Some (last xs))"

lemma npath_upd [simp]: "x \<notin> set xs \<Longrightarrow> npath (nx(x := v)) p xs = npath nx p xs"
  by (induction xs arbitrary: p) auto

lemma npath_snoc:
  "npath nx p (xs @ [l]) \<Longrightarrow> distinct (xs @ [l]) \<Longrightarrow> m \<notin> set (xs @ [l]) \<Longrightarrow>
     npath (nx(m := None, l := Some m)) p (xs @ [l, m])"
  by (induction xs arbitrary: p) auto

lemma npath_empty_iff: "npath nx p xs \<Longrightarrow> p = None \<longleftrightarrow> xs = []"
  by (cases xs) auto

lemma queue_rep_upd [simp]: "x \<notin> set xs \<Longrightarrow> queue_rep (nx(x := v)) mh xs = queue_rep nx mh xs"
  by (simp add: queue_rep_def)

lemma queue_rep_empty: "queue_rep nx mh xs \<Longrightarrow> first mh = None \<longleftrightarrow> xs = []"
  by (auto simp: queue_rep_def dest: npath_empty_iff)

lemma move_queue_push_rep:
  assumes rep: "queue_rep (mnext s) mh xs" and m: "m \<notin> set xs"
  obtains mh' nx where "move_queue_push m mh s = (xs = [], mh', s\<lparr>mnext := nx\<rparr>)"
    and "queue_rep nx mh' (xs @ [m])" and "\<And>x. x \<notin> set xs \<Longrightarrow> x \<noteq> m \<Longrightarrow> nx x = mnext s x"
proof (cases xs rule: rev_cases)
  case Nil
  with rep have "first mh = None"
    by (simp add: queue_rep_def)
  then show ?thesis
    using that [of "mh\<lparr>first := Some m, mlast := Some m\<rparr>" "(mnext s)(m := None)"] Nil
    by (simp add: move_queue_push_def queue_rep_def)
next
  case (snoc ys l)
  with rep have f: "first mh \<noteq> None" and l: "mlast mh = Some l"
    using queue_rep_empty [OF rep] by (auto simp: queue_rep_def)
  have "npath ((mnext s)(m := None, l := Some m)) (first mh) (ys @ [l, m])"
    using rep m snoc by (intro npath_snoc) (auto simp: queue_rep_def)
  then show ?thesis
    using that [of "mh\<lparr>mlast := Some m\<rparr>" "(mnext s)(m := None, l := Some m)"] rep m snoc f l
    by (auto simp: move_queue_push_def queue_rep_def)
qed

lemma move_queue_pop_rep:
  assumes "queue_rep (mnext s) mh (x # xs)"
  obtains mh' where "move_queue_pop mh s = Ret (x, mh') s" and "queue_rep (mnext s) mh' xs"
    and "mh' = mh\<lparr>first := mnext s x\<rparr>"
  using assms by (auto simp: move_queue_pop_def queue_rep_def split: if_splits)

text \<open>
  The interface of the move queues: a first-in first-out list whose representation depends on the
  links of its own nodes only.
\<close>

locale fifo =
  fixes rep :: "'n \<Rightarrow> 'q \<Rightarrow> 'm list \<Rightarrow> bool"
    and links :: "'s \<Rightarrow> 'n"
    and push :: "'m \<Rightarrow> 'q \<Rightarrow> 's \<Rightarrow> bool \<times> 'q \<times> 's"
    and pop :: "'q \<Rightarrow> 's \<Rightarrow> ('m \<times> 'q, 's) res"
    and empty :: "'q \<Rightarrow> bool"
  assumes push_rep: "rep (links s) q xs \<Longrightarrow> m \<notin> set xs \<Longrightarrow>
      \<exists>q' s'. push m q s = (xs = [], q', s') \<and> rep (links s') q' (xs @ [m])"
    and pop_rep: "rep (links s) q (x # xs) \<Longrightarrow> \<exists>q'. pop q s = Ret (x, q') s \<and> rep (links s) q' xs"
    and empty_rep: "rep (links s) q xs \<Longrightarrow> empty q \<longleftrightarrow> xs = []"
begin

primrec push_all :: "'m list \<Rightarrow> 'q \<Rightarrow> 's \<Rightarrow> 'q \<times> 's" where
  "push_all [] q s = (q, s)"
| "push_all (m # ms) q s = (let (_, q, s) = push m q s in push_all ms q s)"

primrec pop_n :: "nat \<Rightarrow> 'q \<Rightarrow> 's \<Rightarrow> ('m list \<times> 'q, 's) res" where
  "pop_n 0 q s = Ret ([], q) s"
| "pop_n (Suc n) q s = bind (pop q s) (\<lambda>(m, q) s. bind (pop_n n q s) (\<lambda>(ms, q) s. Ret (m # ms, q) s))"

lemma push_all_rep:
  "rep (links s) q xs \<Longrightarrow> distinct (xs @ ms) \<Longrightarrow>
     \<exists>q' s'. push_all ms q s = (q', s') \<and> rep (links s') q' (xs @ ms)"
proof (induction ms arbitrary: q s xs)
  case (Cons m ms)
  obtain q1 s1 where "push m q s = (xs = [], q1, s1)" "rep (links s1) q1 (xs @ [m])"
    using push_rep [OF Cons.prems(1), of m] Cons.prems(2) by auto
  with Cons.IH [of s1 q1 "xs @ [m]"] Cons.prems(2) show ?case
    by auto
qed simp

lemma pop_n_rep:
  "rep (links s) q (ms @ xs) \<Longrightarrow> \<exists>q'. pop_n (length ms) q s = Ret (ms, q') s \<and> rep (links s) q' xs"
proof (induction ms arbitrary: q)
  case (Cons m ms)
  obtain q1 where "pop q s = Ret (m, q1) s" "rep (links s) q1 (ms @ xs)"
    using pop_rep [of s q m "ms @ xs"] Cons.prems by auto
  with Cons.IH [of q1] show ?case
    by auto
qed simp

text \<open>Whatever is pushed on an empty queue comes out in the same order, and the queue is empty again.\<close>

lemma fifo_order:
  assumes "rep (links s) q []" and "distinct ms"
  shows "\<exists>q1 s1 q2. push_all ms q s = (q1, s1) \<and> pop_n (length ms) q1 s1 = Ret (ms, q2) s1 \<and> empty q2"
proof -
  obtain q1 s1 where 1: "push_all ms q s = (q1, s1)" "rep (links s1) q1 ms"
    using push_all_rep [of s q "[]" ms] assms by auto
  then obtain q2 where "pop_n (length ms) q1 s1 = Ret (ms, q2) s1" "rep (links s1) q2 []"
    using pop_n_rep [of s1 q1 ms "[]"] by auto
  with 1 show ?thesis
    using empty_rep by blast
qed

end

interpretation mq: fifo queue_rep mnext move_queue_push move_queue_pop move_queue_empty
proof unfold_locales
  fix s :: "'z base_scheme" and q xs m
  assume "queue_rep (mnext s) q xs" "m \<notin> set xs"
  then obtain mh' nx where "move_queue_push m q s = (xs = [], mh', s\<lparr>mnext := nx\<rparr>)" "queue_rep nx mh' (xs @ [m])"
    by (rule move_queue_push_rep)
  then show "\<exists>q' s'. move_queue_push m q s = (xs = [], q', s') \<and> queue_rep (mnext s') q' (xs @ [m])"
    by auto
next
  fix s :: "'z base_scheme" and q x xs
  assume "queue_rep (mnext s) q (x # xs)"
  then show "\<exists>q'. move_queue_pop q s = Ret (x, q') s \<and> queue_rep (mnext s) q' xs"
    using move_queue_pop_rep by metis
next
  fix s :: "'z base_scheme" and q xs
  assume "queue_rep (mnext s) q xs"
  then show "move_queue_empty q \<longleftrightarrow> xs = []"
    by (simp add: move_queue_empty_def queue_rep_empty)
qed

section \<open>The pool of move nodes\<close>

definition move_pool :: "'z base_scheme \<Rightarrow> nat list" where
  "move_pool s = map (\<lambda>i. move_slot i s) [0..<unat (move_count s)]"

text \<open>
  \<open>move_inv s free Q\<close>: every node of the pool is either on the free list or in exactly one of the
  queues \<open>Q\<close> (heads with the nodes they hold), and nothing else is.
\<close>

definition move_inv :: "'z base_scheme \<Rightarrow> nat list \<Rightarrow> (move_queue_head \<times> nat list) list \<Rightarrow> bool" where
  "move_inv s free Q \<longleftrightarrow>
     npath (mnext s) (move_free_list s) free \<and> (\<forall>(mh, xs) \<in> set Q. queue_rep (mnext s) mh xs) \<and>
     distinct (free @ concat (map snd Q)) \<and> set (free @ concat (map snd Q)) = set (move_pool s)"

lemma npath_cong: "(\<And>x. x \<in> set xs \<Longrightarrow> nx x = nx' x) \<Longrightarrow> npath nx p xs = npath nx' p xs"
  by (induction xs arbitrary: p) auto

lemma queue_rep_cong: "(\<And>x. x \<in> set xs \<Longrightarrow> nx x = nx' x) \<Longrightarrow> queue_rep nx mh xs = queue_rep nx' mh xs"
  using npath_cong [of xs nx nx'] by (simp add: queue_rep_def)

text \<open>The states in which the pool is the same list of addresses.\<close>

definition same_pool :: "'z base_scheme \<Rightarrow> 'z base_scheme \<Rightarrow> bool" where
  "same_pool s s' \<longleftrightarrow> s' = s\<lparr>mnext := mnext s', move_free_list := move_free_list s'\<rparr>"

lemma move_pool_same: "same_pool s s' \<Longrightarrow> move_pool s' = move_pool s"
  unfolding same_pool_def by (erule ssubst) (simp add: move_pool_def)

lemma move_enqueue:
  assumes "move_inv s (m # free) ((mh, xs) # Q)"
  obtains mh' s' where "bind (move_alloc s) (\<lambda>m s. let (e, mh, s) = move_queue_push m mh s in Ret (m, e, mh) s)
      = Ret (m, xs = [], mh') s'" and "move_inv s' free ((mh', xs @ [m]) # Q)" and "same_pool s s'"
proof -
  define s1 where "s1 = s\<lparr>move_free_list := mnext s m\<rparr>"
  have al: "move_alloc s = Ret m s1" and free: "npath (mnext s) (move_free_list s1) free"
    and rep: "queue_rep (mnext s1) mh xs" and m: "m \<notin> set xs" "m \<notin> set free" "m \<notin> set (concat (map snd Q))"
    using assms by (auto simp: move_inv_def move_alloc_def s1_def)
  obtain mh' nx where p: "move_queue_push m mh s1 = (xs = [], mh', s1\<lparr>mnext := nx\<rparr>)"
    "queue_rep nx mh' (xs @ [m])" "\<And>x. x \<notin> set xs \<Longrightarrow> x \<noteq> m \<Longrightarrow> nx x = mnext s1 x"
    using move_queue_push_rep [OF rep m(1)] by metis
  have nx: "nx x = mnext s x" if "x \<in> set free \<or> x \<in> set (concat (map snd Q))" for x
  proof -
    have "x \<notin> set xs" "x \<noteq> m"
      using that m assms by (auto simp: move_inv_def)
    then show ?thesis
      using p(3) [of x] by (simp add: s1_def)
  qed
  have "npath nx (move_free_list s1) free"
    using free npath_cong [of free nx "mnext s"] nx by blast
  moreover have "queue_rep nx h ys" if "(h, ys) \<in> set Q" for h ys
    using assms that queue_rep_cong [of ys nx "mnext s"] nx by (fastforce simp: move_inv_def)
  moreover have same: "same_pool s (s1\<lparr>mnext := nx\<rparr>)"
    by (simp add: same_pool_def s1_def)
  ultimately have "move_inv (s1\<lparr>mnext := nx\<rparr>) free ((mh', xs @ [m]) # Q)"
    using assms p(2) m move_pool_same [OF same] unfolding move_inv_def by auto
  with al p(1) same that show thesis
    by (auto simp: s1_def)
qed

lemma move_dequeue:
  assumes "move_inv s free ((mh, x # xs) # Q)"
  obtains mh' where "move_queue_pop mh s = Ret (x, mh') s"
    and "move_inv (move_free x s) (x # free) ((mh', xs) # Q)" and "same_pool s (move_free x s)"
proof -
  obtain mh' where p: "move_queue_pop mh s = Ret (x, mh') s" "queue_rep (mnext s) mh' xs"
    using move_queue_pop_rep [of s mh x xs] assms by (auto simp: move_inv_def)
  have same: "same_pool s (move_free x s)"
    by (simp add: same_pool_def move_free_def)
  have nin: "x \<notin> set ys" if "(h, ys) \<in> set Q" for h ys
    using assms that by (fastforce simp: move_inv_def)
  have "move_inv (move_free x s) (x # free) ((mh', xs) # Q)"
    using assms p(2) nin move_pool_same [OF same] unfolding move_inv_def
    by (auto simp: move_free_def)
  with p(1) same that show thesis by blast
qed

lemma move_alloc_overflow:
  assumes "move_inv s [] Q"
  shows "move_alloc s = Shut ''Move queue overflow'' (s\<lparr>ff_shutdown_code := FF_EC_MOVE_QUEUE_OVERFLOW\<rparr>)"
  using assms by (simp add: move_inv_def move_alloc_def shutdown_ec_def shutdown_def)

text \<open>Resetting puts the whole pool back on the free list.\<close>

lemma move_reset_links:
  assumes "0 < unat (move_item_size s)"
  shows "fold (\<lambda>i s. s\<lparr>mnext := (mnext s)(move_slot i s := Some (move_slot (i + 1) s))\<rparr>) [0..<n] s =
    s\<lparr>mnext := \<lambda>a. if \<exists>i<n. a = move_slot i s then Some (a + unat (move_item_size s)) else mnext s a\<rparr>"
proof (induction n)
  case (Suc n)
  show ?case
    by (simp only: upt_Suc_append le0 fold_append comp_apply fold_simps Suc.IH)
      (simp, rule arg_cong [where f = "\<lambda>n. s\<lparr>mnext := n\<rparr>"], auto simp: fun_eq_iff less_Suc_eq)
qed simp

lemma npath_slots:
  assumes "\<And>i. i < n \<Longrightarrow> nx (a + i * d) = (if Suc i = n then None else Some (a + Suc i * d))"
    and "k < n"
  shows "npath nx (Some (a + k * d)) (map (\<lambda>i. a + i * d) [k..<n])"
  using assms(2)
proof (induction "n - Suc k" arbitrary: k)
  case 0
  then have "[k..<n] = [k]" "Suc k = n"
    by (simp_all add: upt_conv_Cons)
  then show ?case
    using assms(1) [of k] by simp
next
  case (Suc m)
  then have "npath nx (Some (a + Suc k * d)) (map (\<lambda>i. a + i * d) [Suc k..<n])"
    by (intro Suc.hyps(1)) auto
  then show ?case
    using assms(1) [of k] Suc.hyps(2) Suc.prems by (simp add: upt_conv_Cons)
qed

lemma move_reset_inv:
  assumes sz: "0 < unat (move_item_size s)" and n: "move_count s \<noteq> 0"
  shows "move_inv (move_reset s) (move_pool s) [] \<and> same_pool s (move_reset s)"
proof -
  let ?n = "unat (move_count s)" and ?d = "unat (move_item_size s)"
  have pos: "0 < ?n"
    using n by (simp add: unat_gt_0)
  define nx where "nx = (\<lambda>a. if \<exists>i<?n - 1. a = move_slot i s then Some (a + ?d) else mnext s a)
      (move_slot (?n - 1) s := None)"
  have eq: "move_reset s = s\<lparr>mnext := nx, move_free_list := Some (move_list s)\<rparr>"
    using n unfolding move_reset_def Let_def move_reset_links [OF sz] nx_def by simp
  have "nx (move_list s + i * ?d) = (if Suc i = ?n then None else Some (move_list s + Suc i * ?d))"
    if "i < ?n" for i
    using that pos sz by (auto simp: nx_def)
  then have "npath nx (Some (move_list s)) (move_pool s)"
    using npath_slots [of ?n nx "move_list s" ?d 0] pos by (simp add: move_pool_def)
  moreover have "distinct (move_pool s)"
    using sz by (auto simp: move_pool_def distinct_map inj_on_def)
  moreover have "same_pool s (move_reset s)"
    by (simp add: eq same_pool_def)
  ultimately show ?thesis
    using move_pool_same [of s "move_reset s"] by (simp add: move_inv_def eq)
qed

lemma same_pool_fields:
  assumes "same_pool s s'"
  shows "move_count s' = move_count s" "move_item_size s' = move_item_size s" "move_list s' = move_list s"
  using arg_cong [OF assms [unfolded same_pool_def], of move_count]
    arg_cong [OF assms [unfolded same_pool_def], of move_item_size]
    arg_cong [OF assms [unfolded same_pool_def], of move_list] by simp_all

lemma chunk_count_le: "chunk_count sz e p n \<le> n"
  by (induction n arbitrary: p) simp_all

lemma chunk_count_fits: "0 < chunk_count sz e p n \<Longrightarrow> p + chunk_count sz e p n * sz \<le> e"
proof (induction n arbitrary: p)
  case (Suc n)
  then show ?case
    using Suc.IH [of "p + sz"] by (cases "chunk_count sz e (p + sz) n") (simp_all split: if_splits)
qed simp

text \<open>Finalising the configuration builds the pool, inside the memory that is left.\<close>

lemma move_finalize_inv:
  assumes "\<not> is_finalized s"
  shows "outcome (move_finalize s)
    (\<lambda>_ s'. is_finalized s' \<and> move_inv s' (move_pool s') [] \<and> unat (move_count s') \<le> 1024 \<and>
       4 \<le> unat (move_item_size s') \<and> alloc_end s \<le> move_list s' \<and> move_slot (unat (move_count s')) s' \<le> dynmem_end s)
    (\<lambda>r _. r = ''alloc_chunks failed'')"
proof -
  define z where "z = (if unat (move_item_size s) < 4 then 4 else move_item_size s)"
  define s1 where "s1 = s\<lparr>move_item_size := z\<rparr>"
  define k where "k = chunk_count (unat z) (dynmem_end s) (alloc_end s) 1024"
  have z: "4 \<le> unat z"
    by (simp add: z_def)
  have set: "bind (move_queue_setup 4 s) f = f \<lparr>first = None, mlast = None\<rparr> s1" for f :: "_ \<Rightarrow> _ \<Rightarrow> (unit, _) res"
    using assms by (auto simp: move_queue_setup_def is_finalized_def s1_def z_def Let_def)
  show ?thesis
  proof (cases "k = 0")
    case True
    then show ?thesis
      using assms by (simp add: move_finalize_def set alloc_chunks_def s1_def k_def Let_def shutdown_ec_def shutdown_def)
  next
    case False
    have fits: "alloc_end s + k * unat z \<le> dynmem_end s"
      using chunk_count_fits False unfolding k_def by simp
    have k: "k \<le> 1024"
      unfolding k_def by (rule chunk_count_le)
    then have uk: "unat (of_nat k :: u16) = k"
      by (simp add: unat_of_nat take_bit_nat_eq_self)
    define s2 where "s2 = s1\<lparr>alloc_end := alloc_end s + ALIGN (k * unat z), move_count := of_nat k, move_list := alloc_end s\<rparr>"
    have nz: "move_count s2 \<noteq> 0"
      using False uk by (auto simp: s2_def)
    have eq: "move_finalize s = Ret () (move_reset s2)"
      using assms False fits by (simp add: move_finalize_def set alloc_chunks_def s1_def k_def [symmetric] Let_def
          alloc_chunk_def s2_def)
    have r: "move_inv (move_reset s2) (move_pool s2) []" and same: "same_pool s2 (move_reset s2)"
      using move_reset_inv [of s2] nz z by (simp_all add: s2_def s1_def)
    from same have "move_count (move_reset s2) = of_nat k" "move_item_size (move_reset s2) = z"
      "move_list (move_reset s2) = alloc_end s"
      using same_pool_fields [OF same] by (simp_all add: s2_def s1_def)
    with eq r fits k uk z nz move_pool_same [OF same] show ?thesis
      by (simp add: is_finalized_def s2_def)
  qed
qed

section \<open>Object ids\<close>

lemma oid_alloc_lookup:
  assumes "oid_alloc oid ty sz s = Ret d s'"
  shows "oid_lookup oid ty s' = Ret d s'" and "\<And>ty'. ty' \<noteq> ty \<Longrightarrow> \<exists>s''. oid_lookup oid ty' s' = Shut ''Invalid oid type'' s''"
    and "\<And>o'. o' \<noteq> oid \<Longrightarrow> oids s' (unat o') = oids s (unat o')" and "oid_count s' = oid_count s"
  using assms by (auto simp: oid_alloc_def oid_lookup_def shutdown_ec_def shutdown_def alloc_chunk_def Let_def
      bind_Ret_iff not_le word_le_nat_alt upd_def dest: word_unat_eq_iff [THEN iffD2] split: if_splits)

lemma oid_search_filter:
  "oid_search i ty s = (case filter (\<lambda>j. otype (oids s j) = Some ty) [i..<unat (oid_count s)] of
     [] \<Rightarrow> None | j # _ \<Rightarrow> Some (j, odata (oids s j)))"
proof (induction i ty s rule: oid_search.induct)
  case (1 i ty s)
  then show ?case
    by (subst oid_search.simps) (auto simp: upt_conv_Cons)
qed

text \<open>The loop visits the objects of the given type in the order of their ids.\<close>

lemma oid_list_filter:
  "oid_list i ty s = map (\<lambda>j. (of_nat j, odata (oids s j)))
     (takeWhile (\<lambda>j. odata (oids s j) \<noteq> 0)
        (filter (\<lambda>j. otype (oids s j) = Some ty) [unat (i + 1)..<unat (oid_count s)]))"
proof (induction i ty s rule: oid_list.induct)
  case (1 i ty s)
  let ?P = "\<lambda>j. otype (oids s j) = Some ty" and ?n = "unat (oid_count s)"
  show ?case
  proof (cases "filter ?P [unat (i + 1)..<?n]")
    case Nil
    then show ?thesis
      by (subst oid_list.simps) (simp add: oid_next_def oid_search_filter)
  next
    case (Cons j js)
    note j = filter_upt_Cons [OF Cons]
    have nx: "oid_next i ty s = Some (of_nat j, odata (oids s j))"
      by (simp add: oid_next_def oid_search_filter Cons)
    have "j < 255"
      using j(2) unat_u8 [of "oid_count s"] by simp
    then have "unat (of_nat (Suc j) :: u8) = Suc j"
      by (simp add: unat_of_nat take_bit_nat_eq_self del: of_nat_Suc)
    then have "unat (of_nat j + 1 :: u8) = Suc j"
      by (simp only: of_nat_Suc add.commute)
    moreover note j(4)
    ultimately show ?thesis
      using "1.IH" [OF nx refl] by (subst oid_list.simps) (simp add: nx Cons)
  qed
qed

section \<open>Statistics\<close>

text \<open>The increment of \<open>sumsq\<close>: the square over 256 rounded up, exact for short runs.\<close>

definition sumsq_inc :: "nat \<Rightarrow> nat" where
  "sumsq_inc d = (if d \<le> 65535 then (d * d + 255) div 256
     else if d \<le> 1048575 then (d + 255) div 256 * d else 4294967295)"

lemma sumsq_inc_bounds:
  "d \<le> 1048575 \<Longrightarrow> d * d \<le> 256 * sumsq_inc d" "d \<le> 1048575 \<Longrightarrow> 256 * sumsq_inc d \<le> d * d + 255 * (d + 1)"
proof -
  assume d: "d \<le> 1048575"
  have up: "n \<le> 256 * ((n + 255) div 256)" "256 * ((n + 255) div 256) \<le> n + 255" for n :: nat
    using div_mult_mod_eq [of "n + 255" 256] mod_less_divisor [of 256 "n + 255"] by linarith+
  have "d * d \<le> 256 * ((d + 255) div 256) * d" "256 * ((d + 255) div 256) * d \<le> (d + 255) * d"
    using up [of d] by (intro mult_right_mono; simp)+
  moreover have "(d + 255) * d = d * d + 255 * d"
    by (simp add: distrib_right)
  moreover have "256 * sumsq_inc d = 256 * ((d * d + 255) div 256) \<or>
      256 * sumsq_inc d = 256 * ((d + 255) div 256) * d"
    using d by (simp add: sumsq_inc_def)
  ultimately have "d * d \<le> 256 * sumsq_inc d" "256 * sumsq_inc d \<le> d * d + 255 * d + 255"
    using up [of "d * d"] by (elim disjE; linarith)+
  then show "d * d \<le> 256 * sumsq_inc d" "256 * sumsq_inc d \<le> d * d + 255 * (d + 1)"
    by simp_all
qed

lemma sumsq_word:
  fixes d :: u32
  shows "d \<le> 0xffff \<Longrightarrow> unat (DIV_ROUND_UP (d * d) SUMSQ_BASE) = sumsq_inc (unat d)"
    and "\<not> d \<le> 0xffff \<Longrightarrow> d \<le> 0xfffff \<Longrightarrow> unat (DIV_ROUND_UP d SUMSQ_BASE * d) = sumsq_inc (unat d)"
proof -
  assume "d \<le> 0xffff"
  then have d: "unat d \<le> 65535"
    by (simp add: word_le_nat_alt)
  then have "unat d * unat d \<le> 65535 * 65535"
    by (intro mult_mono) simp_all
  then have "unat (d * d) = unat d * unat d" "unat d * unat d + 255 < 4294967296"
    using unat_mult_u32 [of d d] by simp_all
  then have "unat (255 + d * d) = unat d * unat d + 255"
    using unat_add_u32 [of 255 "d * d"] by simp
  with d show "unat (DIV_ROUND_UP (d * d) SUMSQ_BASE) = sumsq_inc (unat d)"
    by (simp add: DIV_ROUND_UP_def SUMSQ_BASE_def unat_div sumsq_inc_def)
next
  assume "\<not> d \<le> 0xffff" "d \<le> 0xfffff"
  then have d: "65535 < unat d" "unat d \<le> 1048575"
    by (simp_all add: word_le_nat_alt)
  then have a: "unat (DIV_ROUND_UP d SUMSQ_BASE) = (unat d + 255) div 256"
    using unat_add_u32 [of 255 d] by (simp add: DIV_ROUND_UP_def SUMSQ_BASE_def unat_div)
  have "(unat d + 255) div 256 * unat d \<le> 4096 * 1048575"
    using d by (intro mult_mono) simp_all
  with a d show "unat (DIV_ROUND_UP d SUMSQ_BASE * d) = sumsq_inc (unat d)"
    using unat_mult_u32 [of "DIV_ROUND_UP d SUMSQ_BASE" d] by (simp add: sumsq_inc_def)
qed

text \<open>\<open>stats_update\<close> without a report keeps saturating sums; with one it resets them.\<close>

lemma stats_update_sumsq:
  assumes "timer_is_before cur (stats_send_time s + timer_from_us 5000000)"
  shows "unat (stats_sumsq (stats_update start cur s)) =
      min 4294967295 (unat (stats_sumsq s) + sumsq_inc (unat (cur - start)))"
proof -
  define d where "d = cur - start"
  let ?x = "stats_sumsq s"
  have "unat (stats_sumsq (stats_update start cur s)) =
      unat (let n = (if d \<le> 0xffff then ?x + DIV_ROUND_UP (d * d) SUMSQ_BASE
             else if d \<le> 0xfffff then ?x + DIV_ROUND_UP d SUMSQ_BASE * d else 0xffffffff)
            in if n < ?x then 0xffffffff else n)"
    using assms by (simp add: stats_update_def Let_def d_def)
  moreover consider "d \<le> 0xffff" | "\<not> d \<le> 0xffff" "d \<le> 0xfffff" | "\<not> d \<le> 0xffff" "\<not> d \<le> 0xfffff"
    by blast
  then have "unat (let n = (if d \<le> 0xffff then ?x + DIV_ROUND_UP (d * d) SUMSQ_BASE
             else if d \<le> 0xfffff then ?x + DIV_ROUND_UP d SUMSQ_BASE * d else 0xffffffff)
            in if n < ?x then 0xffffffff else n) = min 4294967295 (unat ?x + sumsq_inc (unat d))"
  proof cases
    case 1
    then show ?thesis
      using saturating_add_u32 [of ?x "DIV_ROUND_UP (d * d) SUMSQ_BASE"] sumsq_word(1) [OF 1] by (simp add: Let_def)
  next
    case 2
    then show ?thesis
      using saturating_add_u32 [of ?x "DIV_ROUND_UP d SUMSQ_BASE * d"] sumsq_word(2) [OF 2] by (simp add: Let_def)
  next
    case 3
    then have "1048575 < unat d"
      by (simp add: word_le_nat_alt)
    with 3 show ?thesis
      by (simp add: Let_def sumsq_inc_def)
  qed
  ultimately show ?thesis
    by (simp add: d_def)
qed

text \<open>
  \<open>clock64 s\<close> is the 64-bit time of the last statistics report. A later time \<open>T\<close> less than one
  wrap of the counter after it is recovered from the 32-bit counter value.
\<close>

definition clock64 :: "'z base_scheme \<Rightarrow> nat" where
  "clock64 s = unat (stats_send_time_high s) * 4294967296 + unat (stats_send_time s)"

lemma clock64_split:
  assumes "clock64 s \<le> T" "T < clock64 s + 4294967296" "T < 18446744073709551616"
  shows "stats_send_time_high s + c_bool (of_nat T < stats_send_time s) = of_nat (T div 4294967296)"
proof -
  define h l where "h = unat (stats_send_time_high s)" and "l = unat (stats_send_time s)"
  have l: "l < 4294967296" and T: "h * 4294967296 + l \<le> T" "T < h * 4294967296 + l + 4294967296"
    using assms unat_u32 by (simp_all add: clock64_def h_def l_def)
  have m: "unat (of_nat T :: u32) = T mod 4294967296"
    by (simp add: unat_of_nat take_bit_eq_mod)
  define r where "r = T - h * 4294967296"
  have r: "T = h * 4294967296 + r" "l \<le> r" "r < l + 4294967296"
    using T by (simp_all add: r_def)
  have "T div 4294967296 = (if T mod 4294967296 < l then Suc h else h)"
  proof (cases "r < 4294967296")
    case True
    then show ?thesis using r by simp
  next
    case False
    then have "r div 4294967296 = 1" "r mod 4294967296 = r - 4294967296"
      using r(3) l by (simp_all add: le_div_geq le_mod_geq)
    then show ?thesis using False r by simp
  qed
  then have "of_nat (T div 4294967296) = of_nat h + (c_bool (of_nat T < stats_send_time s) :: u32)"
    by (simp add: c_bool_def word_less_nat_alt m l_def)
  then show ?thesis
    by (simp add: h_def)
qed

lemma stats_update_clock64:
  assumes "clock64 s \<le> T" "T < clock64 s + 4294967296" "T < 18446744073709551616"
    and "\<not> timer_is_before (of_nat T) (stats_send_time s + timer_from_us 5000000)"
  shows "clock64 (stats_update start (of_nat T) s) = T"
proof -
  have "unat (of_nat (T div 4294967296) :: u32) = T div 4294967296"
    using assms(3) by (simp add: unat_of_nat take_bit_nat_eq_self less_mult_imp_div_less)
  moreover have "stats_send_time_high (stats_update start (of_nat T) s) = of_nat (T div 4294967296)"
    using assms(4) clock64_split [OF assms(1-3)]
    by (auto simp: stats_update_def Let_def command_sendf_def console_sendf_log_def c_bool_def)
  moreover have "stats_send_time (stats_update start (of_nat T) s) = of_nat T"
    using assms(4) by (simp add: stats_update_def Let_def)
  ultimately show ?thesis
    by (simp add: clock64_def unat_of_nat take_bit_eq_mod)
qed

section \<open>Runs of the queue operations\<close>

text \<open>The order in which the queues are listed does not matter.\<close>

lemma mset_concat_snd: "mset Q = mset Q' \<Longrightarrow> mset (concat (map snd Q)) = mset (concat (map snd Q'))"
  by (simp add: mset_concat) (metis (no_types, lifting) map_map mset_map sum_mset_sum_list)

lemma move_inv_perm:
  assumes "mset Q = mset Q'"
  shows "move_inv s free Q \<longleftrightarrow> move_inv s free Q'"
proof -
  have m: "mset (free @ concat (map snd Q)) = mset (free @ concat (map snd Q'))"
    using mset_concat_snd [OF assms] by simp
  have "set Q = set Q'"
    using assms by (rule mset_eq_setD)
  with mset_eq_imp_distinct_iff [OF m] mset_eq_setD [OF m] show ?thesis
    unfolding move_inv_def by metis
qed

lemma mset_front: "i < length Q \<Longrightarrow> mset (Q[i := y]) = mset (y # take i Q @ drop (Suc i) Q)"
  by (simp add: upd_conv_take_nth_drop)

lemma move_inv_front:
  assumes "i < length Q"
  shows "move_inv s free (Q[i := y]) \<longleftrightarrow> move_inv s free (y # take i Q @ drop (Suc i) Q)"
  by (rule move_inv_perm) (rule mset_front [OF assms])

text \<open>
  The queue operations as the users of the queues issue them: add a fresh node to one of the
  queues, take the first node of one of them and free it, or clear everything at a shutdown.
\<close>

inductive move_step ::
  "'z base_scheme \<times> move_queue_head list \<Rightarrow> 'z base_scheme \<times> move_queue_head list \<Rightarrow> bool" where
  enqueue: "\<lbrakk>i < length hs;
     bind (move_alloc s) (\<lambda>m s. let (e, mh, s) = move_queue_push m (hs ! i) s in Ret (m, e, mh) s) = Ret (m, e, mh) s'\<rbrakk>
     \<Longrightarrow> move_step (s, hs) (s', hs[i := mh])"
| dequeue: "\<lbrakk>i < length hs; \<not> move_queue_empty (hs ! i); move_queue_pop (hs ! i) s = Ret (m, mh) s'\<rbrakk>
     \<Longrightarrow> move_step (s, hs) (move_free m s', hs[i := mh])"
| reset: "move_step (s, hs) (move_reset s, map move_queue_clear hs)"

definition pool_ok :: "'z base_scheme \<times> move_queue_head list \<Rightarrow> bool" where
  "pool_ok c \<longleftrightarrow> 0 < unat (move_item_size (fst c)) \<and> move_count (fst c) \<noteq> 0 \<and>
     (\<exists>free xss. length xss = length (snd c) \<and> move_inv (fst c) free (zip (snd c) xss))"

lemma pool_ok_enqueue:
  assumes ok: "pool_ok (s, hs)" and i: "i < length hs"
    and run: "bind (move_alloc s) (\<lambda>m s. let (e, mh, s) = move_queue_push m (hs ! i) s in Ret (m, e, mh) s) = Ret (m, e, mh) s'"
  shows "pool_ok (s', hs[i := mh])"
proof -
  obtain free xss where len: "length xss = length hs" and inv: "move_inv s free (zip hs xss)"
    using ok by (auto simp: pool_ok_def)
  let ?Q = "zip hs xss"
  define R where "R = take i ?Q @ drop (Suc i) ?Q"
  have iQ: "i < length ?Q" and self: "?Q[i := (hs ! i, xss ! i)] = ?Q"
    using i len list_update_id [of ?Q i] by simp_all
  have inv': "move_inv s free ((hs ! i, xss ! i) # R)"
    using inv unfolding R_def move_inv_front [OF iQ, symmetric] self .
  obtain f fs where free: "free = f # fs"
    using run move_alloc_overflow [of s] inv by (cases free) auto
  obtain mh' s1 where r: "bind (move_alloc s) (\<lambda>m s. let (e, mh, s) = move_queue_push m (hs ! i) s in Ret (m, e, mh) s)
      = Ret (f, xss ! i = [], mh') s1"
    and inv1: "move_inv s1 fs ((mh', xss ! i @ [f]) # R)" and same: "same_pool s s1"
    by (rule move_enqueue [OF inv' [unfolded free]])
  from run [unfolded r] have eq: "mh' = mh" "s1 = s'" by simp_all
  have "move_inv s' fs (?Q[i := (mh, xss ! i @ [f])])"
    using inv1 unfolding move_inv_front [OF iQ] R_def eq .
  moreover have "?Q[i := (mh, xss ! i @ [f])] = zip (hs[i := mh]) (xss[i := xss ! i @ [f]])"
    by (simp add: update_zip)
  ultimately show ?thesis
    using ok len same_pool_fields [OF same] unfolding pool_ok_def eq
    by (auto intro!: exI [of _ fs] exI [of _ "xss[i := xss ! i @ [f]]"])
qed

lemma pool_ok_dequeue:
  assumes ok: "pool_ok (s, hs)" and i: "i < length hs" and ne: "\<not> move_queue_empty (hs ! i)"
    and run: "move_queue_pop (hs ! i) s = Ret (m, mh) s'"
  shows "pool_ok (move_free m s', hs[i := mh])"
proof -
  obtain free xss where len: "length xss = length hs" and inv: "move_inv s free (zip hs xss)"
    using ok by (auto simp: pool_ok_def)
  let ?Q = "zip hs xss"
  define R where "R = take i ?Q @ drop (Suc i) ?Q"
  have iQ: "i < length ?Q" and self: "?Q[i := (hs ! i, xss ! i)] = ?Q"
    using i len list_update_id [of ?Q i] by simp_all
  have inv': "move_inv s free ((hs ! i, xss ! i) # R)"
    using inv unfolding R_def move_inv_front [OF iQ, symmetric] self .
  then obtain x xs where xs: "xss ! i = x # xs"
    using ne queue_rep_empty [of "mnext s" "hs ! i" "xss ! i"]
    by (cases "xss ! i") (auto simp: move_inv_def move_queue_empty_def)
  obtain mh' where r: "move_queue_pop (hs ! i) s = Ret (x, mh') s"
    and inv1: "move_inv (move_free x s) (x # free) ((mh', xs) # R)" and same: "same_pool s (move_free x s)"
    by (rule move_dequeue [OF inv' [unfolded xs]])
  from run [unfolded r] have eq: "mh' = mh" "x = m" "s' = s" by simp_all
  have "move_inv (move_free m s) (m # free) (?Q[i := (mh, xs)])"
    using inv1 unfolding move_inv_front [OF iQ] R_def eq .
  moreover have "?Q[i := (mh, xs)] = zip (hs[i := mh]) (xss[i := xs])"
    by (simp add: update_zip)
  ultimately show ?thesis
    using ok len same_pool_fields [OF same] unfolding pool_ok_def eq
    by (auto intro!: exI [of _ "m # free"] exI [of _ "xss[i := xs]"])
qed

lemma pool_ok_reset:
  assumes "pool_ok (s, hs)"
  shows "pool_ok (move_reset s, map move_queue_clear hs)"
proof -
  have r: "move_inv (move_reset s) (move_pool s) []" and same: "same_pool s (move_reset s)"
    using assms move_reset_inv [of s] by (simp_all add: pool_ok_def)
  have z: "concat (map snd (zip (map move_queue_clear hs) (replicate (length hs) []))) = []"
    by (auto simp: set_zip)
  have "move_inv (move_reset s) (move_pool s) (zip (map move_queue_clear hs) (replicate (length hs) []))"
    using r unfolding move_inv_def z by (auto simp: set_zip queue_rep_def move_queue_clear_def)
  then show ?thesis
    using assms same_pool_fields [OF same] unfolding pool_ok_def
    by (auto intro!: exI [of _ "move_pool s"] exI [of _ "replicate (length hs) []"])
qed

lemma pool_ok_step: "move_step c c' \<Longrightarrow> pool_ok c \<Longrightarrow> pool_ok c'"
  by (induction rule: move_step.induct) (blast intro: pool_ok_enqueue pool_ok_dequeue pool_ok_reset)+

lemma pool_ok_steps: "move_step\<^sup>*\<^sup>* c c' \<Longrightarrow> pool_ok c \<Longrightarrow> pool_ok c'"
  by (induction rule: rtranclp_induct) (blast intro: pool_ok_step)+

lemma chunk_count_numeral [simp]:
  "chunk_count sz e p (numeral k) =
     (if p + sz \<le> e then Suc (chunk_count sz e (p + sz) (pred_numeral k)) else 0)"
  by (simp add: numeral_eq_Suc)

lemma move_inv_count:
  assumes "move_inv s free Q" and "0 < unat (move_item_size s)"
  shows "length free + length (concat (map snd Q)) = unat (move_count s)"
proof -
  have "distinct (move_pool s)"
    using assms(2) by (auto simp: move_pool_def distinct_map inj_on_def)
  then have "length (free @ concat (map snd Q)) = length (move_pool s)"
    using assms(1) by (metis distinct_card move_inv_def)
  then show ?thesis
    by (simp add: move_pool_def)
qed

lemma pool_ok_finalized:
  assumes "\<not> is_finalized s0" and "move_finalize s0 = Ret () s"
  shows "pool_ok (s, replicate n \<lparr>first = None, mlast = None\<rparr>)"
proof -
  have inv: "move_inv s (move_pool s) []" and f: "is_finalized s" "4 \<le> unat (move_item_size s)"
    using move_finalize_inv [OF assms(1)] assms(2) by simp_all
  have z: "concat (map snd (zip (replicate n \<lparr>first = None, mlast = None\<rparr>) (replicate n ([] :: nat list)))) = []"
    by (auto simp: set_zip)
  have "move_inv s (move_pool s) (zip (replicate n \<lparr>first = None, mlast = None\<rparr>) (replicate n []))"
    using inv unfolding move_inv_def z by (auto simp: set_zip queue_rep_def)
  with f show ?thesis
    unfolding pool_ok_def is_finalized_def
    by (auto intro!: exI [of _ "move_pool s"] exI [of _ "replicate n []"])
qed

section \<open>Properties\<close>



text \<open>
  C15. Once the configuration is finalised, no move node is ever lost, duplicated or shared: after
  any sequence of queue operations on any number of queues, with resets in between, every node of
  the pool is on the free list or in exactly one queue, the queues hold the nodes they link in
  order, and the numbers add up to \<open>move_count\<close>.
\<close>

theorem move_nodes_conserved:
  assumes "\<not> is_finalized s0" and "move_finalize s0 = Ret () s"
    and "move_step\<^sup>*\<^sup>* (s, replicate n \<lparr>first = None, mlast = None\<rparr>) (s', hs)"
  shows "\<exists>free xss. length xss = length hs \<and> move_inv s' free (zip hs xss) \<and>
    length free + length (concat (map snd (zip hs xss))) = unat (move_count s')"
  using pool_ok_steps [OF assms(3) pool_ok_finalized [OF assms(1,2)]]
  by (auto simp only: pool_ok_def fst_conv snd_conv intro: move_inv_count)

theorem move_nodes_conserved_witness:
  "\<exists>s s' hs free xss. move_finalize (base_static (quiet_env 0) 1000 1010 () \<lparr>alloc_end := 1000\<rparr>) = Ret () s \<and>
     move_step\<^sup>*\<^sup>* (s, [\<lparr>first = None, mlast = None\<rparr>]) (s', hs) \<and> first (hs ! 0) = Some 1000 \<and>
     move_inv s' free (zip hs xss) \<and> unat (move_count s') = 2"
proof -
  let ?s0 = "base_static (quiet_env 0) 1000 1010 () \<lparr>alloc_end := 1000\<rparr>"
  let ?h = "\<lparr>first = None, mlast = None\<rparr>"
  note ev = base_static_def sched_static_def board_static_def
  have nf: "\<not> is_finalized ?s0"
    by (simp add: is_finalized_def ev)
  obtain s where s: "move_finalize ?s0 = Ret () s" and f: "move_free_list s = Some 1000" "move_count s = 2"
    by (simp add: move_finalize_def is_finalized_def move_queue_setup_def alloc_chunks_def alloc_chunk_def
        move_reset_def ev Let_def)
  have step: "move_step (s, [?h]) (s\<lparr>move_free_list := mnext s 1000, mnext := (mnext s)(1000 := None)\<rparr>,
      [?h][0 := \<lparr>first = Some 1000, mlast = Some 1000\<rparr>])"
    by (rule move_step.enqueue [where m = 1000 and e = True]) (simp_all add: move_alloc_def f move_queue_push_def)
  show ?thesis
    using move_nodes_conserved [OF nf s, of 1] r_into_rtranclp [of move_step, OF step] s f by fastforce
qed

lemma each_map: "each f (map g xs) s = each (\<lambda>x. f (g x)) xs s"
  by (induction xs arbitrary: s) simp_all

text \<open>
  C34. Object ids: an object that was registered under an id is what a lookup of that id with the
  same type returns; a lookup with any other type is refused with \<open>Invalid oid type\<close>, and no
  other id changes.
\<close>

theorem oid_table_roundtrip:
  assumes "oid_alloc oid ty sz s = Ret d s'"
  shows "oid_lookup oid ty s' = Ret d s' \<and>
    (\<forall>ty'. ty' \<noteq> ty \<longrightarrow> (\<exists>s''. oid_lookup oid ty' s' = Shut ''Invalid oid type'' s'')) \<and>
    (\<forall>oid'. oid' \<noteq> oid \<longrightarrow> oids s' (unat oid') = oids s (unat oid'))"
  using oid_alloc_lookup [OF assms] by blast

theorem oid_table_roundtrip_witness:
  "\<exists>s'. oid_alloc 1 T_config_stepper 40 (base_static (quiet_env 0) 1000 2000 () \<lparr>alloc_end := 1000, oid_count := 2\<rparr>) =
      Ret 1000 s' \<and> oid_lookup 1 T_config_stepper s' = Ret 1000 s'"
proof -
  obtain s' where r: "oid_alloc 1 T_config_stepper 40
      (base_static (quiet_env 0) 1000 2000 () \<lparr>alloc_end := 1000, oid_count := 2\<rparr>) = Ret 1000 s'"
    by (simp add: word_le_nat_alt oid_alloc_def alloc_chunk_def is_finalized_def base_static_def sched_static_def board_static_def Let_def)
  with oid_table_roundtrip [OF r] show ?thesis by blast
qed

text \<open>
  C40. A \<open>foreach_oid\<close> loop runs its body once for every object of the given type, in the order
  of the ids, up to the first object whose data pointer is null.
\<close>

theorem foreach_oid_order:
  "foreach_oid ty f s =
     each (\<lambda>j. f (of_nat j) (odata (oids s j)))
       (takeWhile (\<lambda>j. odata (oids s j) \<noteq> 0)
          (filter (\<lambda>j. otype (oids s j) = Some ty) [0..<unat (oid_count s)])) s"
  by (simp add: foreach_oid_def oid_list_filter each_map)

text \<open>
  A failed allocation leaves an id with its type set and a null data pointer. The shutdown
  handlers that follow are \<open>foreach_oid\<close> loops and stop there: no object of that type with a
  larger id is visited.
\<close>

lemma takeWhile_sorted_less:
  "sorted_wrt (<) xs \<Longrightarrow> (k::nat) \<in> set xs \<Longrightarrow> \<not> P k \<Longrightarrow> j \<in> set (takeWhile P xs) \<Longrightarrow> j < k"
  by (induction xs) (auto split: if_splits)

lemma foreach_oid_cut_short:
  assumes fail: "oid_alloc oid ty sz s = Shut ''alloc_chunk failed'' s'" and null: "odata (oids s (unat oid)) = 0"
    and visited: "(j, d) \<in> set (oid_list (- 1) ty s')"
  shows "j < oid"
proof -
  have s': "unat oid < unat (oid_count s')" "otype (oids s' (unat oid)) = Some ty" "odata (oids s' (unat oid)) = 0"
    using fail null by (auto simp: oid_alloc_def shutdown_ec_def shutdown_def Let_def alloc_chunk_def
        not_le word_less_nat_alt split: if_splits)
  obtain i where i: "j = of_nat i" "i \<in> set (takeWhile (\<lambda>j. odata (oids s' j) \<noteq> 0)
      (filter (\<lambda>j. otype (oids s' j) = Some ty) [0..<unat (oid_count s')]))"
    using visited by (auto simp: oid_list_filter)
  have "i < unat oid"
    by (rule takeWhile_sorted_less [OF _ _ _ i(2)]) (use s' in \<open>simp_all add: sorted_wrt_filter\<close>)
  moreover have "unat (of_nat i :: u8) = i"
    using \<open>i < unat oid\<close> unat_u8 [of oid] by (simp add: unat_of_nat take_bit_nat_eq_self)
  ultimately show ?thesis
    by (simp add: i(1) word_less_nat_alt)
qed

text \<open>
  C39. Load statistics: between two reports the sum of squares accumulates the squares of the task
  durations over 256, saturating at the largest 32-bit value instead of wrapping. The amount added
  is the square over 256 rounded up for durations below 65536 ticks, and never less than it.
\<close>

theorem stats_sumsq_saturates:
  assumes "timer_is_before cur (stats_send_time s + timer_from_us 5000000)" and "d = unat (cur - start)"
  shows "unat (stats_sumsq (stats_update start cur s)) = min 4294967295 (unat (stats_sumsq s) + sumsq_inc d) \<and>
    min (4294967295 * 256) (d * d) \<le> 256 * sumsq_inc d \<and>
    (d \<le> 65535 \<longrightarrow> sumsq_inc d = (d * d + 255) div 256) \<and>
    (d \<le> 1048575 \<longrightarrow> 256 * sumsq_inc d \<le> d * d + 255 * (d + 1))"
proof -
  have "min (4294967295 * 256) (d * d) \<le> 256 * sumsq_inc d"
  proof (cases "d \<le> 1048575")
    case True
    then show ?thesis
      using sumsq_inc_bounds(1) [of d] by (simp add: min.coboundedI2)
  next
    case False
    then show ?thesis
      by (simp add: sumsq_inc_def)
  qed
  moreover have "d \<le> 65535 \<longrightarrow> sumsq_inc d = (d * d + 255) div 256"
    by (simp add: sumsq_inc_def)
  ultimately show ?thesis
    using stats_update_sumsq [OF assms(1), of start] sumsq_inc_bounds(2) [of d] unfolding assms(2) by blast
qed

theorem stats_sumsq_saturates_witness:
  "unat (stats_sumsq (stats_update 100 700 (base_static (quiet_env 0) 0 0 () \<lparr>stats_sumsq := 5\<rparr>))) = 5 + 1407"
  using stats_sumsq_saturates [of 700 "base_static (quiet_env 0) 0 0 () \<lparr>stats_sumsq := 5\<rparr>" 600 100]
  by (simp add: base_static_def sched_static_def board_static_def timer_is_before_iff timer_from_us_def
      CONFIG_CLOCK_FREQ_def sumsq_inc_def)

text \<open>
  The uptime that is reported is the full 64-bit time: for a clock that counts \<open>T\<close> ticks, if
  the last statistics report was less than one counter wrap ago, \<open>get_uptime\<close> reports the high
  and low words of \<open>T\<close>, and a statistics report at \<open>T\<close> renews that reference.
\<close>

theorem uptime_is_64_bit:
  assumes "clock64 s \<le> T" and "T < clock64 s + 4294967296" and "T < 18446744073709551616"
    and "cyccnt (sample s) = of_nat T"
  shows "command_get_uptime args s =
      sendf ''uptime high=%u clock=%u'' [U (of_nat (T div 4294967296)), U (of_nat T)] (tick s) \<and>
    (\<not> timer_is_before (of_nat T) (stats_send_time s + timer_from_us 5000000) \<longrightarrow>
      clock64 (stats_update start (of_nat T) s) = T)"
  using clock64_split [OF assms(1-3)] stats_update_clock64 [OF assms(1-3)] assms(4)
  by (auto simp: command_get_uptime_def timer_read_time_def tick_def)

theorem uptime_is_64_bit_witness:
  "command_get_uptime [] (base_static (quiet_env 2) 0 0 () \<lparr>stats_send_time := 0xfffffff0\<rparr>) =
     sendf ''uptime high=%u clock=%u'' [U 1, U 2] (tick (base_static (quiet_env 2) 0 0 () \<lparr>stats_send_time := 0xfffffff0\<rparr>))"
proof -
  have two: "(4294967298 :: u32) = 2"
    by simp
  show ?thesis
    using uptime_is_64_bit [of "base_static (quiet_env 2) 0 0 () \<lparr>stats_send_time := 0xfffffff0\<rparr>" 4294967298 "[]"]
    by (simp add: two base_static_def sched_static_def board_static_def clock64_def sample_def quiet_env_def)
qed

end
