(* ===== verification/Command_Spec.thy ===== *)
theory Command_Spec
  imports Command Basecmd_Spec
begin

text \<open>
  Correctness of \<open>Command\<close>: round trips of integers, messages and frames, progress of the block
  finder, memory safety of dispatch, shutdown gating and the size of messages. The locale
  \<open>command_handlers\<close> is the contract between the dispatcher and the table of commands.
\<close>

section \<open>Bits\<close>

text \<open>The simplifier reduces the bits of word numerals to those of integer numerals.\<close>

lemma bit_7f [simp]: "bit (0x7f :: int) n \<longleftrightarrow> n < 7"
proof -
  have eq: "(0x7f :: int) = mask 7"
    by (simp add: mask_eq_exp_minus_1)
  show ?thesis
    unfolding eq bit_mask_iff by simp
qed

lemma bit_80 [simp]: "bit (0x80 :: int) n \<longleftrightarrow> n = 7"
proof -
  have eq: "(0x80 :: int) = 2 ^ 7" by simp
  show ?thesis
    unfolding eq bit_exp_iff by auto
qed

lemma bit_60 [simp]: "bit (0x60 :: int) n \<longleftrightarrow> n = 5 \<or> n = 6"
proof -
  have eq: "(0x60 :: int) = push_bit 5 (mask 2)"
    by (simp add: mask_eq_exp_minus_1 push_bit_eq_mult)
  show ?thesis
    unfolding eq bit_push_bit_iff bit_mask_iff by auto
qed

lemma bit_m20 [simp]: "bit (- 0x20 :: int) n \<longleftrightarrow> 5 \<le> n"
proof -
  have eq: "(- 0x20 :: int) = NOT (mask 5)"
    by (simp add: mask_eq_exp_minus_1 not_eq_complement)
  show ?thesis
    unfolding eq bit_not_iff bit_mask_iff by auto
qed

lemma word_bits_iff: "x = y \<longleftrightarrow> (\<forall>n < LENGTH('a). bit x n = bit (y :: 'a::len word) n)"
  by (auto intro: bit_word_eqI)

lemma and_60: "6 < LENGTH('a) \<Longrightarrow> x AND 0x60 = (0x60 :: 'a::len word) \<longleftrightarrow> bit x 5 \<and> bit x 6"
  by (auto simp: word_bits_iff bit_and_iff dest: spec [where x = 5])

lemma has_80: "7 < LENGTH('a) \<Longrightarrow> has x (0x80 :: 'a::len word) \<longleftrightarrow> bit x 7"
  by (auto simp: has_def word_bits_iff bit_and_iff)

lemma bit_sint_u32: "i < 32 \<Longrightarrow> bit (v :: u32) i \<longleftrightarrow> odd (sint v div 2 ^ i)"
  by (simp add: bit_iff_odd [of "sint v", symmetric] bit_sint_iff)

lemma sign_bits_set:
  assumes "- (2 ^ m) \<le> sint (v :: u32)" "sint v < 0" "m \<le> i" "i < 32"
  shows "bit v i"
proof -
  have "(2::int) ^ m \<le> 2 ^ i"
    using assms(3) by (rule power_increasing) simp
  then have "sint v div 2 ^ i = - 1"
    using assms(1,2) by (intro int_div_pos_eq [where r = "sint v + 2 ^ i"]; linarith)
  with assms(4) show ?thesis
    by (simp add: bit_sint_u32)
qed

lemma high_bits_clear:
  assumes "0 \<le> sint (v :: u32)" "sint v < 2 ^ m" "m \<le> i" "i < 32"
  shows "\<not> bit v i"
proof -
  have "(2::int) ^ m \<le> 2 ^ i"
    using assms(3) by (rule power_increasing) simp
  then have "sint v div 2 ^ i = 0"
    using assms(1,2) by (intro div_pos_pos_trivial; linarith)
  with assms(4) show ?thesis
    by (simp add: bit_sint_u32)
qed

lemma not_both_bits:
  assumes "0 \<le> sint (v :: u32)" "sint v < 3 * 2 ^ m" "n = Suc m" "n < 32"
  shows "\<not> (bit v m \<and> bit v n)"
proof -
  define q where "q = sint v div 2 ^ m"
  have "0 \<le> q" "q * 2 ^ m \<le> sint v"
    using assms(1) by (simp_all add: q_def pos_imp_zdiv_nonneg_iff minus_mod_eq_div_mult [symmetric])
  then have "q * 2 ^ m < 3 * 2 ^ m"
    using assms(2) by linarith
  then have "q < 3"
    by (rule mult_right_less_imp_less) simp
  with \<open>0 \<le> q\<close> have "q = 0 \<or> q = 1 \<or> q = 2" by linarith
  moreover have "sint v div 2 ^ n = q div 2"
    using zdiv_zmult2_eq [of 2 "sint v" "2 ^ m"] by (simp add: q_def mult.commute assms(3))
  ultimately show ?thesis
    using assms(3,4) by (auto simp: bit_sint_u32 q_def [symmetric])
qed

section \<open>Variable length integers\<close>

text \<open>The value that \<open>parse_int\<close> starts with for a leading group \<open>g\<close> of seven bits.\<close>

definition lead :: "u32 \<Rightarrow> u32" where
  "lead g = (if bit g 5 \<and> bit g 6 then g OR - 0x20 else g)"

lemma lead_group:
  assumes "- (2 ^ (d + 5)) \<le> sint v" "sint v < 3 * 2 ^ (d + 5)" "d + 6 < 32"
  shows "push_bit d (lead (drop_bit d v AND 0x7f)) = push_bit d (drop_bit d (v :: u32))"
proof (cases "sint v < 0")
  case True
  have "bit v i" if "d + 5 \<le> i" "i < 32" for i
    using sign_bits_set [OF assms(1) True] that by blast
  then show ?thesis
    using assms(3) by (auto simp: word_bits_iff lead_def bit_push_bit_iff bit_or_iff bit_and_iff bit_drop_bit_eq)
next
  case False
  have "(2::int) ^ (d + 5) = 32 * 2 ^ d" "(2::int) ^ (d + 7) = 128 * 2 ^ d" "(0::int) < 2 ^ d"
    by (simp_all add: power_add)
  then have "sint v < 2 ^ (d + 7)"
    using assms(2) by linarith
  then have "i - d < 7" if "bit v i" "i < 32" "d \<le> i" for i
    using high_bits_clear [of v "d + 7" i] False that by (cases "d + 7 \<le> i") auto
  moreover have "\<not> (bit v (d + 5) \<and> bit v (d + 6))"
    using not_both_bits [of v "d + 5" "d + 6"] assms(2,3) False by simp
  ultimately show ?thesis
    using assms(3) by (auto simp: word_bits_iff lead_def bit_push_bit_iff bit_or_iff bit_and_iff bit_drop_bit_eq)
qed

text \<open>One round of the loop: from the bits above \<open>d + 7\<close> to those above \<open>d\<close>.\<close>

lemma group_step:
  assumes "push_bit (d + 7) x = push_bit (d + 7) (drop_bit (d + 7) (v :: u32))"
  shows "push_bit d (push_bit 7 x OR (drop_bit d v AND 0x7f)) = push_bit d (drop_bit d v)"
proof -
  have "push_bit d (push_bit 7 x OR (drop_bit d v AND 0x7f)) =
      push_bit (d + 7) (drop_bit (d + 7) v) OR push_bit d (drop_bit d v AND 0x7f)"
    using assms by (simp add: push_bit_or push_bit_push_bit)
  also have "\<dots> = push_bit d (drop_bit d v)"
  proof (rule bit_word_eqI)
    fix n
    show "bit (push_bit (d + 7) (drop_bit (d + 7) v) OR push_bit d (drop_bit d v AND 0x7f)) n =
        bit (push_bit d (drop_bit d v)) n"
      by (cases "d + 7 \<le> n") (auto simp: bit_push_bit_iff bit_or_iff bit_and_iff bit_drop_bit_eq)
  qed
  finally show ?thesis .
qed

text \<open>The bytes of a group and what the parser reads from them.\<close>

lemma more_byte:
  "has (ucast (g AND 0x7f :: u32) OR 0x80 :: u8) 0x80"
  "ucast (ucast (g AND 0x7f :: u32) OR 0x80 :: u8) AND 0x7f = (g AND 0x7f :: u32)"
  by (auto simp: has_80 word_bits_iff bit_or_iff bit_and_iff bit_ucast_iff)

lemma last_byte:
  "\<not> has (ucast (g AND 0x7f :: u32) :: u8) 0x80"
  "ucast (ucast (g AND 0x7f :: u32) :: u8) AND 0x7f = (g AND 0x7f :: u32)"
  by (auto simp: has_80 word_bits_iff bit_or_iff bit_and_iff bit_ucast_iff)

lemma sign_byte:
  "(ucast (g AND 0x7f :: u32) OR 0x80 :: u8) AND 0x60 = 0x60 \<longleftrightarrow> bit (g AND 0x7f) 5 \<and> bit (g AND 0x7f) 6"
  "(ucast (g AND 0x7f :: u32) :: u8) AND 0x60 = 0x60 \<longleftrightarrow> bit (g AND 0x7f) 5 \<and> bit (g AND 0x7f) 6"
  by (simp_all add: and_60 bit_or_iff bit_and_iff bit_ucast_iff)

text \<open>What the parser does with one more byte, and with the last one.\<close>

lemma parse_more:
  assumes "p < length buf" "buf ! p = ucast (g AND 0x7f) OR 0x80" "has c 0x80"
  shows "parse_int_loop buf p c v = parse_int_loop buf (p + 1) (buf ! p) (push_bit 7 v OR (g AND 0x7f))"
  using assms more_byte [of g] by (subst parse_int_loop.simps) (simp add: Let_def)

lemma parse_last:
  assumes "p < length buf" "buf ! p = ucast (g AND 0x7f)" "has c 0x80"
  shows "parse_int_loop buf p c v = Some (push_bit 7 v OR (g AND 0x7f), p + 1)"
  using assms last_byte [of g]
  by (subst parse_int_loop.simps, simp add: Let_def, subst parse_int_loop.simps, simp)

lemma parse_first_more:
  assumes "p < length buf" "buf ! p = ucast (g AND 0x7f) OR 0x80"
  shows "parse_int buf p = parse_int_loop buf (p + 1) (buf ! p) (lead (g AND 0x7f))"
  using assms more_byte(2) [of g] sign_byte(1) [of g] by (simp add: parse_int_def Let_def lead_def)

lemma parse_first_last:
  assumes "p < length buf" "buf ! p = ucast (g AND 0x7f)"
  shows "parse_int buf p = Some (lead (g AND 0x7f), p + 1)"
  using assms last_byte [of g] sign_byte(2) [of g]
  by (simp add: parse_int_def Let_def lead_def parse_int_loop.simps)

text \<open>The last \<open>k\<close> bytes of an encoding.\<close>

primrec vlq_tail :: "nat \<Rightarrow> u32 \<Rightarrow> u8 list" where
  "vlq_tail 0 v = []"
| "vlq_tail (Suc k) v =
     (if k = 0 then ucast (v AND 0x7f) else ucast (drop_bit (7 * k) v AND 0x7f) OR 0x80) # vlq_tail k v"

lemma vlq_tail_numeral [simp]:
  "vlq_tail (numeral n) v =
     (if pred_numeral n = 0 then ucast (v AND 0x7f) else ucast (drop_bit (7 * pred_numeral n) v AND 0x7f) OR 0x80)
       # vlq_tail (pred_numeral n) v"
  by (simp add: numeral_eq_Suc)

lemma length_vlq_tail [simp]: "length (vlq_tail k v) = k"
  by (induction k) simp_all

lemma parse_vlq_tail:
  assumes "buf = pre @ vlq_tail k v @ post" "push_bit (7 * k) x = push_bit (7 * k) (drop_bit (7 * k) v)"
    and "has c 0x80 \<longleftrightarrow> k \<noteq> 0"
  shows "parse_int_loop buf (length pre) c x = Some (v, length pre + k)"
  using assms
proof (induction k arbitrary: pre c x)
  case 0
  then show ?case
    by (subst parse_int_loop.simps) simp
next
  case (Suc k)
  let ?g = "drop_bit (7 * k) v" and ?x = "push_bit 7 x OR (drop_bit (7 * k) v AND 0x7f)"
  define b where "b = (if k = 0 then ucast (v AND 0x7f) else ucast (?g AND 0x7f) OR 0x80 :: u8)"
  have buf: "buf = (pre @ [b]) @ vlq_tail k v @ post"
    using Suc.prems(1) by (simp add: b_def)
  have "push_bit (7 * k) ?x = push_bit (7 * k) ?g"
    using Suc.prems(2) by (intro group_step) (simp add: add.commute)
  moreover have hb: "has b 0x80 \<longleftrightarrow> k \<noteq> 0"
    using more_byte(1) [of ?g] last_byte(1) [of v] by (simp add: b_def)
  ultimately have "parse_int_loop buf (length (pre @ [b])) b ?x = Some (v, length (pre @ [b]) + k)"
    by (intro Suc.IH [OF buf])
  moreover have "ucast b AND 0x7f = ?g AND 0x7f"
    using more_byte(2) [of ?g] last_byte(2) [of v] by (simp add: b_def)
  moreover have "length pre < length buf" "buf ! length pre = b"
    by (simp_all add: buf)
  ultimately show ?case
    using Suc.prems(3) by (subst parse_int_loop.simps) (simp add: Let_def)
qed

text \<open>An encoding is a leading byte and a tail.\<close>

lemma encode_int_cases:
  obtains (short) k where "k < 4" "- (2 ^ (7 * k + 5)) \<le> sint v" "sint v < 3 * 2 ^ (7 * k + 5)"
      "encode_int v = vlq_tail (Suc k) v"
  | (long) "encode_int v = (ucast (drop_bit 28 v) OR 0x80) # vlq_tail 4 v"
proof -
  let ?P = "\<lambda>k. sint v < 3 * 2 ^ (7 * k + 5) \<and> - (2 ^ (7 * k + 5)) \<le> sint v"
  have e: "encode_int v =
      (if ?P 0 then vlq_tail (Suc 0) v else if ?P 1 then vlq_tail (Suc 1) v else if ?P 2 then vlq_tail (Suc 2) v
       else if ?P 3 then vlq_tail (Suc 3) v else (ucast (drop_bit 28 v) OR 0x80) # vlq_tail 4 v)"
    by (simp add: encode_int_def Let_def)
  consider "?P 0" | "\<not> ?P 0" "?P 1" | "\<not> ?P 0" "\<not> ?P 1" "?P 2" | "\<not> ?P 0" "\<not> ?P 1" "\<not> ?P 2" "?P 3"
    | "\<not> ?P 0" "\<not> ?P 1" "\<not> ?P 2" "\<not> ?P 3"
    by blast
  then show thesis
  proof cases
    case 1
    show thesis by (rule short [of 0]) (use e 1 in simp_all)
  next
    case 2
    show thesis by (rule short [of 1]) (use e [unfolded if_not_P [OF 2(1)] if_P [OF 2(2)]] 2(2) in simp_all)
  next
    case 3
    show thesis
      by (rule short [of 2]) (use e [unfolded if_not_P [OF 3(1)] if_not_P [OF 3(2)] if_P [OF 3(3)]] 3(3) in simp_all)
  next
    case 4
    show thesis
      by (rule short [of 3]) (use e [unfolded if_not_P [OF 4(1)] if_not_P [OF 4(2)] if_not_P [OF 4(3)] if_P [OF 4(4)]] 4(4) in simp_all)
  next
    case 5
    show thesis
      by (rule long) (use e [unfolded if_not_P [OF 5(1)] if_not_P [OF 5(2)] if_not_P [OF 5(3)] if_not_P [OF 5(4)]] in simp)
  qed
qed

lemma encode_int_length: "1 \<le> length (encode_int v) \<and> length (encode_int v) \<le> 5"
  by (rule encode_int_cases [of v]) simp_all

lemma top_byte:
  "has (ucast (drop_bit 28 (v :: u32)) OR 0x80 :: u8) 0x80"
  "ucast (ucast (drop_bit 28 (v :: u32)) OR 0x80 :: u8) AND 0x7f = drop_bit 28 v"
  by (auto simp: has_80 word_bits_iff bit_and_iff bit_or_iff bit_ucast_iff bit_drop_bit_eq dest: bit_imp_le_length)

lemma top_byte_sign: "(ucast (drop_bit 28 (v :: u32)) OR 0x80 :: u8) AND 0x60 \<noteq> 0x60"
  by (auto simp: and_60 bit_or_iff bit_ucast_iff bit_drop_bit_eq dest: bit_imp_le_length)

lemma encode_int_roundtrip:
  assumes "buf = pre @ encode_int v @ post"
  shows "parse_int buf (length pre) = Some (v, length pre + length (encode_int v))"
proof (rule encode_int_cases [of v])
  fix k assume k: "k < 4" "- (2 ^ (7 * k + 5)) \<le> sint v" "sint v < 3 * 2 ^ (7 * k + 5)"
    and e: "encode_int v = vlq_tail (Suc k) v"
  let ?g = "drop_bit (7 * k) v"
  define b where "b = (if k = 0 then ucast (v AND 0x7f) else ucast (?g AND 0x7f) OR 0x80 :: u8)"
  have buf: "buf = (pre @ [b]) @ vlq_tail k v @ post"
    using assms by (simp add: e b_def)
  have hb: "has b 0x80 \<longleftrightarrow> k \<noteq> 0" "ucast b AND 0x7f = ?g AND 0x7f"
    "b AND 0x60 = 0x60 \<longleftrightarrow> bit (?g AND 0x7f) 5 \<and> bit (?g AND 0x7f) 6"
    using more_byte [of ?g] last_byte [of v] sign_byte(1) [of ?g] sign_byte(2) [of v] by (auto simp: b_def)
  have "parse_int buf (length pre) = parse_int_loop buf (length (pre @ [b])) b (lead (?g AND 0x7f))"
    by (simp add: parse_int_def buf Let_def hb lead_def)
  also have "\<dots> = Some (v, length (pre @ [b]) + k)"
    by (rule parse_vlq_tail [OF buf]) (use lead_group [OF k(2,3)] k(1) hb(1) in simp_all)
  finally show ?thesis
    by (simp add: e)
next
  assume e: "encode_int v = (ucast (drop_bit 28 v) OR 0x80) # vlq_tail 4 v"
  let ?b = "ucast (drop_bit 28 v) OR 0x80 :: u8"
  have buf: "buf = (pre @ [?b]) @ vlq_tail 4 v @ post"
    using assms by (simp only: e append_Cons append_Nil append_assoc)
  have "parse_int buf (length pre) = parse_int_loop buf (length (pre @ [?b])) ?b (drop_bit 28 v)"
    by (simp add: parse_int_def buf Let_def top_byte top_byte_sign)
  also have "\<dots> = Some (v, length (pre @ [?b]) + 4)"
    by (rule parse_vlq_tail [OF buf]) (simp_all add: top_byte)
  finally show ?thesis
    by (simp add: e)
qed

lemma bit_bounded:
  fixes w :: "'a::len word"
  assumes "unat w < 2 ^ k" "bit w i"
  shows "i < k"
proof (rule ccontr)
  assume "\<not> i < k"
  then have "(2::nat) ^ k \<le> 2 ^ i"
    by (intro power_increasing) simp_all
  with assms(1) have "unat w < 2 ^ i"
    by (rule less_le_trans)
  then have "unat w div 2 ^ i = 0"
    by simp
  moreover have "bit (unat w) i"
    using assms(2) by (simp add: bit_unsigned_iff bit_imp_le_length)
  ultimately show False
    by (simp add: bit_iff_odd)
qed

lemma encode_msgid_roundtrip:
  assumes "buf = pre @ encode_msgid m @ post" "m < 0x4000"
  shows "command_parse_msgid buf (length pre) = Some (ucast m, length pre + length (encode_msgid m))"
proof (cases "m \<ge> 0x80")
  case True
  have b: "i < 14" if "bit m i" for i
    using assms(2) that bit_bounded [of m 14 i] by (simp add: word_less_nat_alt)
  let ?c = "ucast (drop_bit 7 m) OR 0x80 :: u8" and ?d = "ucast (m AND 0x7f) :: u8"
  have buf: "buf = pre @ [?c, ?d] @ post" and len: "length (encode_msgid m) = 2"
    using assms(1) True by (simp_all add: encode_msgid_def)
  have "has (ucast ?c :: u32) 0x80"
    by (simp add: has_80 bit_ucast_iff bit_or_iff)
  moreover have c: "ucast ?c AND 0x7f = (ucast (drop_bit 7 m) :: u32)"
    by (auto simp: word_bits_iff bit_or_iff bit_and_iff bit_ucast_iff bit_drop_bit_eq dest: b)
  have "push_bit 7 (ucast ?c AND 0x7f) OR ucast ?d = (ucast m :: u32)"
    unfolding c
  proof (rule bit_word_eqI)
    fix n
    show "bit (push_bit 7 (ucast (drop_bit 7 m)) OR ucast ?d :: u32) n = bit (ucast m :: u32) n"
      by (cases "7 \<le> n") (auto simp: bit_or_iff bit_and_iff bit_push_bit_iff bit_ucast_iff bit_drop_bit_eq dest: b)
  qed
  ultimately show ?thesis
    by (simp add: command_parse_msgid_def buf nth_append len Let_def)
next
  case False
  have b: "i < 7" if "bit m i" for i
    using False that bit_bounded [of m 7 i] by (simp add: word_le_nat_alt)
  let ?d = "ucast (m AND 0x7f) :: u8"
  have buf: "buf = pre @ [?d] @ post" and len: "length (encode_msgid m) = 1"
    using assms(1) False by (simp_all add: encode_msgid_def)
  have "\<not> has (ucast ?d :: u32) 0x80"
    by (simp add: has_80 bit_ucast_iff bit_and_iff)
  moreover have "ucast ?d = (ucast m :: u32)"
    by (auto simp: word_bits_iff bit_and_iff bit_ucast_iff dest: b)
  ultimately show ?thesis
    by (simp add: command_parse_msgid_def buf nth_append len Let_def)
qed

section \<open>Message blocks\<close>

lemma crc_bytes:
  "push_bit 8 (ucast (ucast (drop_bit 8 c) :: u8)) OR ucast (ucast c :: u8) = (c :: u16)"
proof (rule bit_word_eqI)
  fix n assume "n < LENGTH(16)"
  then show "bit (push_bit 8 (ucast (ucast (drop_bit 8 c) :: u8)) OR ucast (ucast c :: u8) :: u16) n = bit c n"
    by (cases "8 \<le> n") (auto simp: bit_or_iff bit_push_bit_iff bit_ucast_iff bit_drop_bit_eq)
qed

lemma bit_2 [simp]: "bit (2 :: int) n \<longleftrightarrow> n = 1"
  by (cases n) (simp_all add: bit_Suc bit_1_iff)

lemma need_valid:
  "has (x OR CF_NEED_VALID) CF_NEED_VALID" "has (x AND NOT CF_NEED_SYNC) CF_NEED_VALID = has x CF_NEED_VALID"
  "has (x OR CF_NEED_SYNC) CF_NEED_VALID = has x CF_NEED_VALID"
  by (auto simp: has_def CF_NEED_VALID_def CF_NEED_SYNC_def word_bits_iff bit_and_iff bit_or_iff bit_not_iff bit_1_iff)

lemma find_sync_props:
  assumes "find_sync buf s = (ret, pop, s')" "buf \<noteq> []"
  shows "ret = - 1 \<and> 0 < pop \<and> pop \<le> length buf \<and> has (sync_state s') CF_NEED_VALID \<and>
    next_sequence s' = next_sequence s \<and> (has (sync_state s) CF_NEED_VALID \<longrightarrow> sent s' = sent s)"
proof -
  have tw: "length (takeWhile (\<lambda>c. c \<noteq> MESSAGE_SYNC) buf) < length buf" if "MESSAGE_SYNC \<in> set buf"
    using that length_takeWhile_le [of "\<lambda>c. c \<noteq> MESSAGE_SYNC" buf] takeWhile_eq_all_conv [of _ buf]
    by (metis (mono_tags, lifting) le_neq_implies_less length_takeWhile_le takeWhile_eq_take take_all_iff order_refl)
  show ?thesis
    using assms tw by (auto simp: find_sync_def Let_def command_sendf_def console_sendf_log_def need_valid Suc_le_eq split: if_splits)
qed

text \<open>A complete and valid block at the start of the buffer.\<close>

definition valid_block :: "u8 list \<Rightarrow> nat \<Rightarrow> bool" where
  "valid_block buf n \<longleftrightarrow> MESSAGE_MIN \<le> n \<and> n \<le> MESSAGE_MAX \<and> n \<le> length buf \<and> unat (buf ! 0) = n \<and>
     buf ! 1 AND NOT MESSAGE_SEQ_MASK = MESSAGE_DEST \<and> buf ! (n - 1) = MESSAGE_SYNC \<and>
     crc16_ccitt (take (n - MESSAGE_TRAILER_SIZE) buf) = push_bit 8 (ucast (buf ! (n - 3))) OR ucast (buf ! (n - 2))"

definition next_seq :: "u8 \<Rightarrow> u8" where
  "next_seq q = ((q + 1) AND MESSAGE_SEQ_MASK) OR MESSAGE_DEST"

lemma find_block_valid:
  assumes "valid_block buf n" and "\<not> has (sync_state s) CF_NEED_SYNC"
  shows "command_find_block buf s =
    (let s = s\<lparr>sync_state := sync_state s AND NOT CF_NEED_VALID\<rparr>
     in if buf ! 1 = next_sequence s then (1, n, s\<lparr>next_sequence := next_seq (next_sequence s)\<rparr>)
        else (- 1, n, command_sendf encode_acknak s))"
  using assms by (auto simp: valid_block_def command_find_block_def Let_def next_seq_def message_defs)

lemma find_error_props:
  assumes "find_error buf s = (ret, pop, s')" "buf \<noteq> []"
  shows "ret = - 1 \<and> 0 < pop \<and> pop \<le> length buf \<and> next_sequence s' = next_sequence s \<and>
    (has (sync_state s) CF_NEED_VALID \<longrightarrow> has (sync_state s') CF_NEED_VALID \<and> sent s' = sent s)"
proof (cases "buf ! 0 = MESSAGE_SYNC")
  case True
  with assms show ?thesis by (auto simp: find_error_def Suc_le_eq)
next
  case False
  with assms show ?thesis
    using find_sync_props [of buf "s\<lparr>sync_state := sync_state s OR CF_NEED_SYNC\<rparr>" ret pop s']
    by (auto simp: find_error_def need_valid)
qed

text \<open>The branches of \<open>command_find_block\<close>.\<close>

lemma find_block_cases:
  obtains (empty) "command_find_block buf s = (0, 0, s)"
  | (resync) "buf \<noteq> []" "command_find_block buf s = find_sync buf s"
  | (error) "buf \<noteq> []" "command_find_block buf s = find_error buf s"
  | (valid) n where "valid_block buf n" "\<not> has (sync_state s) CF_NEED_SYNC"
proof -
  consider "buf \<noteq> [] \<and> has (sync_state s) CF_NEED_SYNC"
    | "\<not> (buf \<noteq> [] \<and> has (sync_state s) CF_NEED_SYNC)" "length buf < MESSAGE_MIN"
    | "\<not> (buf \<noteq> [] \<and> has (sync_state s) CF_NEED_SYNC)" "\<not> length buf < MESSAGE_MIN"
    by blast
  then show thesis
  proof cases
    case 1
    then show thesis by (intro resync) (simp_all add: command_find_block_def)
  next
    case 2
    then show thesis by (intro empty) (simp only: command_find_block_def if_False if_True)
  next
    case 3
    let ?n = "unat (buf ! 0)"
    have ne: "buf \<noteq> []" and ns: "\<not> has (sync_state s) CF_NEED_SYNC"
      using 3 by (auto simp: message_defs)
    show thesis
    proof (cases "valid_block buf ?n")
      case True
      then show thesis using ns by (rule valid)
    next
      case False
      then have "command_find_block buf s = find_error buf s \<or> command_find_block buf s = (0, 0, s)"
        using 3 ns unfolding command_find_block_def valid_block_def by (auto simp: Let_def message_defs)
      then show thesis using error [OF ne] empty by blast
    qed
  qed
qed

lemma find_block_props:
  assumes "command_find_block buf s = (ret, pop, s')"
  shows "pop \<le> length buf \<and> (ret = 0 \<longrightarrow> pop = 0 \<and> s' = s) \<and> (ret \<noteq> 0 \<longrightarrow> 0 < pop) \<and>
    (ret > 0 \<longrightarrow> valid_block buf pop \<and> buf ! 1 = next_sequence s \<and> next_sequence s' = next_seq (next_sequence s) \<and>
       sent s' = sent s) \<and>
    (\<not> ret > 0 \<longrightarrow> next_sequence s' = next_sequence s)"
proof (rule find_block_cases [of buf s])
  assume "command_find_block buf s = (0, 0, s)"
  with assms show ?thesis by simp
next
  assume "buf \<noteq> []" "command_find_block buf s = find_sync buf s"
  with assms find_sync_props [of buf s ret pop s'] show ?thesis by auto
next
  assume "buf \<noteq> []" "command_find_block buf s = find_error buf s"
  with assms find_error_props [of buf s ret pop s'] show ?thesis by auto
next
  fix n assume "valid_block buf n" "\<not> has (sync_state s) CF_NEED_SYNC"
  with assms find_block_valid [of buf n s] show ?thesis
    by (auto simp: Let_def valid_block_def message_defs command_sendf_def console_sendf_log_def split: if_splits)
qed

text \<open>A framed message is a valid block.\<close>

lemma frame_valid:
  assumes "length payload \<le> 59" "next_sequence r AND NOT MESSAGE_SEQ_MASK = MESSAGE_DEST"
    and buf: "buf = command_add_frame payload (length payload + 5) r @ rest"
  shows "valid_block buf (length payload + 5)" "buf ! 1 = next_sequence r"
proof -
  let ?n = "length payload + 5"
  define body where "body = of_nat ?n # next_sequence r # payload"
  have len: "length body = ?n - 3"
    by (simp add: body_def)
  have b: "buf = body @ [ucast (drop_bit 8 (crc16_ccitt body)), ucast (crc16_ccitt body), MESSAGE_SYNC] @ rest"
    using buf by (simp add: command_add_frame_def body_def Let_def)
  have n: "unat (of_nat ?n :: u8) = ?n"
    using assms(1) by (simp only: unat_of_nat take_bit_nat_eq_self) (simp add: take_bit_nat_eq_self)
  have "buf ! 0 = of_nat ?n" "buf ! 1 = next_sequence r"
    by (simp_all add: b body_def)
  moreover have "buf ! (?n - 1) = MESSAGE_SYNC" "buf ! (?n - 2) = ucast (crc16_ccitt body)"
    "buf ! (?n - 3) = ucast (drop_bit 8 (crc16_ccitt body))" "take (?n - 3) buf = body"
    using len by (simp_all add: b nth_append)
  ultimately show "valid_block buf ?n" "buf ! 1 = next_sequence r"
    using assms(1,2) n by (simp_all add: valid_block_def message_defs crc_bytes b len)
qed

section \<open>Dispatch\<close>

text \<open>
  The SYNC byte that ends a block has its top bit clear, so it ends every integer: parsing that
  starts inside a block never leaves it. \<open>q\<close> is the position of such a byte.
\<close>

lemma parse_int_loop_inside:
  assumes "q < length buf" "\<not> has (buf ! q) 0x80" "p \<le> q \<or> p = Suc q \<and> \<not> has c 0x80"
  shows "\<exists>w p'. parse_int_loop buf p c v = Some (w, p') \<and> p' \<le> Suc q"
  using assms
proof (induction buf p c v rule: parse_int_loop.induct)
  case (1 buf p c v)
  show ?case
  proof (cases "has c 0x80")
    case True
    with 1 have "p \<le> q" "p < length buf" by auto
    moreover have "Suc p \<le> q \<or> Suc p = Suc q \<and> \<not> has (buf ! p) 0x80"
      using \<open>p \<le> q\<close> 1 by (cases "p = q") auto
    ultimately show ?thesis
      using True 1 by (subst parse_int_loop.simps) (simp add: Let_def)
  next
    case False
    with 1 show ?thesis by (subst parse_int_loop.simps) auto
  qed
qed

lemma parse_int_inside:
  assumes "q < length buf" "\<not> has (buf ! q) 0x80" "p \<le> q"
  shows "\<exists>w p'. parse_int buf p = Some (w, p') \<and> p' \<le> Suc q"
  using assms parse_int_loop_inside [of q buf "p + 1" "buf ! p"]
  by (cases "p = q") (auto simp: parse_int_def Let_def)

text \<open>The number of arguments that a list of parameters fills.\<close>

definition num_args :: "ptype list \<Rightarrow> nat" where
  "num_args ts = (\<Sum>t\<leftarrow>ts. if t = PT_buffer then 2 else 1)"

lemma num_args_simps [simp]:
  "num_args [] = 0" "num_args (t # ts) = (if t = PT_buffer then 2 else 1) + num_args ts"
  by (simp_all add: num_args_def)

lemma command_parsef_inside:
  assumes "q < length buf" "\<not> has (buf ! q) 0x80" "maxend \<le> q" "p \<le> Suc q"
  shows "outcome (command_parsef buf p maxend ts s)
    (\<lambda>(args, p') s'. s' = s \<and> p' \<le> Suc q \<and> length args = num_args ts)
    (\<lambda>r s'. r = ''Command parser error'' \<and> s' = s)"
  using assms(4)
proof (induction ts arbitrary: p)
  case (Cons t ts)
  show ?case
  proof (cases "maxend < p")
    case True
    then show ?thesis by (simp add: shutdown_def)
  next
    case False
    then obtain w p1 where 1: "parse_int buf p = Some (w, p1)" "p1 \<le> Suc q"
      using parse_int_inside [OF assms(1,2), of p] assms(3) by auto
    have p: "p < length buf"
      using False assms by simp
    note ih = Cons.IH [OF 1(2)]
    show ?thesis
    proof (cases "Suc (p + unat (buf ! p)) \<le> maxend")
      case True
      with assms(3) have "Suc (p + unat (buf ! p)) \<le> Suc q" by simp
      from Cons.IH [OF this] ih show ?thesis
        using False 1(1) p True by (cases t) (auto simp: outcome_bind Let_def shutdown_def elim!: outcome_mono)
    next
      case 2: False
      then show ?thesis
        using False 1(1) p ih by (cases t) (auto simp: outcome_bind Let_def shutdown_def elim!: outcome_mono)
    qed
  qed
qed simp

lemma command_parse_msgid_inside:
  assumes "p < msgend" "Suc msgend < length buf"
  shows "\<exists>v p'. command_parse_msgid buf p = Some (v, p') \<and> p' \<le> Suc msgend"
  using assms by (auto simp: command_parse_msgid_def Let_def)

text \<open>
  The contract between the dispatcher and the table of commands: a handler gets as many arguments
  as its parameters declare, and keeps the invariant \<open>ok\<close>; the report that replaces a command
  during a shutdown keeps it as well. \<open>bad\<close> describes the states a handler shuts down from. Entry 0
  of the table is never looked up.
\<close>

locale command_handlers =
  fixes idx :: "'z command_scheme command_parser list"
    and ok :: "'z command_scheme \<Rightarrow> bool"
    and bad :: "reason \<Rightarrow> 'z command_scheme \<Rightarrow> bool"
  assumes handler: "cp \<in> set (tl idx) \<Longrightarrow> ok s \<Longrightarrow> length args = num_args (cp_param_types cp) \<Longrightarrow>
      outcome (cp_func cp buf args s) (\<lambda>_ s'. ok s') bad"
    and report: "ok s \<Longrightarrow> ok (sched_report_shutdown s)"
    and refuse: "ok s \<Longrightarrow> r \<in> {''Invalid command'', ''Command parser error''} \<Longrightarrow> bad r s"
begin

lemma dispatch_loop_ok:
  assumes "ok s" "Suc (Suc msgend) < length buf" "\<not> has (buf ! Suc (Suc msgend)) 0x80"
  shows "outcome (command_dispatch_loop idx buf p msgend s) (\<lambda>_ s'. ok s') bad"
  using assms
proof (induction "msgend - p" arbitrary: p s rule: less_induct)
  case less
  note prems = less.prems
  show ?case
  proof (cases "p < msgend")
    case False
    then show ?thesis
      using prems by (subst command_dispatch_loop.simps) simp
  next
    case True
    obtain cmdid p1 where id: "command_parse_msgid buf p = Some (cmdid, p1)" "p1 \<le> Suc msgend"
      using command_parse_msgid_inside [of p msgend buf] True prems(2) by auto
    have gt: "p < p1"
      using id(1) by (rule command_parse_msgid_progress)
    have bad: "bad ''Invalid command'' s" "bad ''Command parser error'' s"
      using refuse prems(1) by auto
    show ?thesis
    proof (cases "cmdid = 0 \<or> length idx \<le> unat cmdid")
      case True
      then show ?thesis
        using id \<open>p < msgend\<close> bad
        by (subst command_dispatch_loop.simps) (simp add: command_lookup_parser_def shutdown_def)
    next
      case False
      define cp where "cp = idx ! unat cmdid"
      have cp: "cp \<in> set (tl idx)"
        using False by (cases idx; cases "unat cmdid") (auto simp: cp_def unat_eq_zero)
      have body: "outcome (if sched_is_shutdown s \<and> \<not> has (cp_flags cp) HF_IN_SHUTDOWN
          then command_dispatch_loop idx buf p2 msgend (sched_report_shutdown s)
          else bind (cp_func cp buf args s) (\<lambda>_ s. command_dispatch_loop idx buf p2 msgend s)) (\<lambda>_ s'. ok s') bad"
        if "p1 \<le> p2" "length args = num_args (cp_param_types cp)" for args p2
        using less.hyps [of p2] gt that True prems report [OF prems(1)] handler [OF cp prems(1) that(2), of buf]
        by (auto simp: outcome_bind elim!: outcome_mono)
      have "outcome (command_parsef buf p1 msgend (cp_param_types cp) s)
          (\<lambda>(args, p2) s'. s' = s \<and> p1 \<le> p2 \<and> length args = num_args (cp_param_types cp))
          (\<lambda>r s'. r = ''Command parser error'' \<and> s' = s)"
        using command_parsef_inside [OF prems(2,3), of msgend p1 "cp_param_types cp" s] id(2)
          command_parsef_progress [of buf p1 msgend "cp_param_types cp" s]
        by (cases "command_parsef buf p1 msgend (cp_param_types cp) s") auto
      then show ?thesis
        using True id(1) False bad(2) body
        by (subst command_dispatch_loop.simps)
          (auto simp: command_lookup_parser_def cp_def [symmetric] outcome_bind elim!: outcome_mono)
    qed
  qed
qed

lemma dispatch_block_ok:
  assumes "ok s" "valid_block buf n"
  shows "outcome (command_dispatch idx (take n buf) n s) (\<lambda>_ s'. ok s') bad"
proof -
  have "\<not> has MESSAGE_SYNC 0x80"
    by (simp add: has_def MESSAGE_SYNC_def)
  moreover have "5 \<le> n" "n \<le> length buf" "buf ! (n - 1) = MESSAGE_SYNC"
    using assms(2) by (simp_all add: valid_block_def message_defs)
  ultimately show ?thesis
    using assms(1) unfolding command_dispatch_def
    by (intro dispatch_loop_ok) (auto simp: message_defs numeral_eq_Suc Suc_diff_Suc)
qed

end

text \<open>
  While the machine is shut down the handlers of the ordinary commands play no part: two tables that
  agree on everything else give the same result, as long as the permitted commands leave the
  shutdown in place.
\<close>

definition same_permitted :: "'s command_parser \<Rightarrow> 's command_parser \<Rightarrow> bool" where
  "same_permitted cp cp' \<longleftrightarrow> cp_flags cp' = cp_flags cp \<and> cp_param_types cp' = cp_param_types cp \<and>
     (has (cp_flags cp) HF_IN_SHUTDOWN \<longrightarrow> cp_func cp' = cp_func cp)"

lemma command_parsef_state: "command_parsef buf p maxend ts s = Ret r s' \<Longrightarrow> s' = s"
proof (induction ts arbitrary: p r)
  case (Cons t ts)
  then show ?case
    by (auto simp: shutdown_def Let_def bind_Ret_iff split: if_splits option.splits)
qed simp

lemma report_keeps_shutdown: "sched_is_shutdown (sched_report_shutdown s) = sched_is_shutdown s"
  by (simp add: sched_is_shutdown_def sched_report_shutdown_def ff_report_close_def Let_def
      command_sendf_def console_sendf_log_def)

lemma dispatch_loop_gated:
  assumes "list_all2 same_permitted idx idx'" and "sched_is_shutdown s"
    and keep: "\<And>cp args s s'. cp \<in> set idx \<Longrightarrow> has (cp_flags cp) HF_IN_SHUTDOWN \<Longrightarrow> sched_is_shutdown s \<Longrightarrow>
      cp_func cp buf args s = Ret () s' \<Longrightarrow> sched_is_shutdown s'"
  shows "command_dispatch_loop idx' buf p msgend s = command_dispatch_loop idx buf p msgend s"
  using assms(2)
proof (induction "msgend - p" arbitrary: p s rule: less_induct)
  case less
  have len: "length idx' = length idx" and same: "\<And>i. i < length idx \<Longrightarrow> same_permitted (idx ! i) (idx' ! i)"
    using assms(1) by (auto simp: list_all2_conv_all_nth)
  show ?case
  proof (cases "p < msgend")
    case True
    show ?thesis
    proof (cases "command_parse_msgid buf p")
      case None
      then show ?thesis by (subst (1 2) command_dispatch_loop.simps) simp
    next
      case (Some a)
      obtain cmdid p1 where a: "a = (cmdid, p1)" by (cases a)
      have gt: "p < p1"
        using Some a command_parse_msgid_progress by blast
      show ?thesis
      proof (cases "cmdid = 0 \<or> length idx \<le> unat cmdid")
        case True
        then show ?thesis
          by (subst (1 2) command_dispatch_loop.simps) (simp add: Some a command_lookup_parser_def shutdown_def len)
      next
        case False
        let ?cp = "idx ! unat cmdid" and ?cp' = "idx' ! unat cmdid"
        have cp: "same_permitted ?cp ?cp'" "?cp \<in> set idx"
          using False same by simp_all
        have step: "(if sched_is_shutdown s \<and> \<not> has (cp_flags ?cp') HF_IN_SHUTDOWN
            then command_dispatch_loop idx' buf p2 msgend (sched_report_shutdown s)
            else bind (cp_func ?cp' buf args s) (\<lambda>_ s. command_dispatch_loop idx' buf p2 msgend s)) =
           (if sched_is_shutdown s \<and> \<not> has (cp_flags ?cp) HF_IN_SHUTDOWN
            then command_dispatch_loop idx buf p2 msgend (sched_report_shutdown s)
            else bind (cp_func ?cp buf args s) (\<lambda>_ s. command_dispatch_loop idx buf p2 msgend s))"
          if "p1 \<le> p2" for args p2
          using less.hyps [of p2] that gt True less.prems cp keep [OF cp(2)]
          by (cases "cp_func ?cp buf args s") (auto simp: same_permitted_def report_keeps_shutdown)
        have pt: "cp_param_types ?cp' = cp_param_types ?cp"
          using cp(1) by (simp add: same_permitted_def)
        have unfold: "command_dispatch_loop ix buf p msgend s =
            bind (command_parsef buf p1 msgend (cp_param_types (ix ! unat cmdid)) s) (\<lambda>(args, p2) s.
              if sched_is_shutdown s \<and> \<not> has (cp_flags (ix ! unat cmdid)) HF_IN_SHUTDOWN
              then command_dispatch_loop ix buf p2 msgend (sched_report_shutdown s)
              else bind (cp_func (ix ! unat cmdid) buf args s) (\<lambda>_ s. command_dispatch_loop ix buf p2 msgend s))"
          if "length ix = length idx" for ix
          using True False that
          by (subst command_dispatch_loop.simps) (simp add: Some a command_lookup_parser_def)
        show ?thesis
          unfolding unfold [OF len] unfold [OF refl] pt
        proof (rule bind_cong [OF refl])
          fix r s2 assume r: "command_parsef buf p1 msgend (cp_param_types ?cp) s = Ret r s2"
          obtain args p2 where rp: "r = (args, p2)" by (cases r)
          have "p1 \<le> p2" and "s2 = s"
            using command_parsef_progress [OF r [unfolded rp]] command_parsef_state [OF r] by simp_all
          with step [of p2 args] rp show "(case r of (args, p2) \<Rightarrow> \<lambda>s.
              if sched_is_shutdown s \<and> \<not> has (cp_flags ?cp') HF_IN_SHUTDOWN
              then command_dispatch_loop idx' buf p2 msgend (sched_report_shutdown s)
              else bind (cp_func ?cp' buf args s) (\<lambda>_ s. command_dispatch_loop idx' buf p2 msgend s)) s2 =
            (case r of (args, p2) \<Rightarrow> \<lambda>s.
              if sched_is_shutdown s \<and> \<not> has (cp_flags ?cp) HF_IN_SHUTDOWN
              then command_dispatch_loop idx buf p2 msgend (sched_report_shutdown s)
              else bind (cp_func ?cp buf args s) (\<lambda>_ s. command_dispatch_loop idx buf p2 msgend s)) s2"
            by (simp only: prod.case)
        qed
      qed
    qed
  next
    case False
    then show ?thesis by (subst (1 2) command_dispatch_loop.simps) simp
  qed
qed

section \<open>Parameters\<close>

text \<open>The integer types, and the arguments that a parser hands to a command for a parameter.\<close>

definition int_type :: "ptype \<Rightarrow> bool" where
  "int_type t \<longleftrightarrow> t \<in> {PT_uint32, PT_int32, PT_uint16, PT_int16, PT_byte}"

lemma int_type_cases: "int_type t \<longleftrightarrow> t \<noteq> PT_string \<and> t \<noteq> PT_progmem_buffer \<and> t \<noteq> PT_buffer"
  by (cases t) (simp_all add: int_type_def)

lemma encode_params_int:
  "int_type t \<Longrightarrow> encode_params sid room (t # ts) (a # args) =
     (if room < 0 then None
      else map_option (\<lambda>rest. encode_int (marg_value sid a) @ rest)
             (encode_params sid (room - int (length (encode_int (marg_value sid a)))) ts args))"
  by (cases t) (simp_all add: int_type_def param_bytes_def Let_def)

lemma command_parsef_int:
  "int_type t \<Longrightarrow> \<not> maxend < p \<Longrightarrow> parse_int buf p = Some (v, p') \<Longrightarrow>
     command_parsef buf p maxend (t # ts) s =
       bind (command_parsef buf p' maxend ts s) (\<lambda>(args, q) s. Ret (v # args, q) s)"
  by (auto simp: int_type_def)

text \<open>What was encoded for integer parameters is what the parser of the same parameters returns.\<close>

lemma params_roundtrip:
  assumes "list_all int_type ts" "length args = length ts"
    and "encode_params sid room ts args = Some out"
    and "buf = pre @ out @ post" "length pre + length out \<le> maxend"
  shows "command_parsef buf (length pre) maxend ts s = Ret (map (marg_value sid) args, length pre + length out) s"
  using assms
proof (induction ts arbitrary: args room out pre)
  case Nil
  then show ?case by simp
next
  case (Cons t ts)
  obtain a as where args: "args = a # as" "length as = length ts"
    using Cons.prems(2) by (cases args) auto
  have t: "int_type t" "list_all int_type ts"
    using Cons.prems(1) by simp_all
  let ?e = "encode_int (marg_value sid a)"
  obtain rest where rest: "encode_params sid (room - int (length ?e)) ts as = Some rest" and out: "out = ?e @ rest"
    using Cons.prems(3) by (auto simp: args encode_params_int [OF t(1)] simp del: encode_params.simps split: if_splits)
  have buf: "buf = pre @ ?e @ (rest @ post)" "buf = (pre @ ?e) @ rest @ post"
    using Cons.prems(4) by (simp_all add: out)
  have "command_parsef buf (length (pre @ ?e)) maxend ts s =
      Ret (map (marg_value sid) as, length (pre @ ?e) + length rest) s"
    by (rule Cons.IH [OF t(2) args(2) rest buf(2)]) (use Cons.prems(5) in \<open>simp add: out\<close>)
  moreover have "\<not> maxend < length pre"
    using Cons.prems(5) by simp
  ultimately show ?case
    using command_parsef_int [OF t(1) _ encode_int_roundtrip [OF buf(1)], of maxend ts s]
    by (simp add: args out)
qed

section \<open>Size of messages\<close>

text \<open>
  The longest encoding that \<^verbatim>\<open>buildcommands.py\<close> allows for a parameter of each type when it
  computes the \<open>max_size\<close> of an encoder.
\<close>

fun max_length :: "ptype \<Rightarrow> nat" where
  "max_length PT_uint32 = 5"
| "max_length PT_int32 = 5"
| "max_length PT_uint16 = 3"
| "max_length PT_int16 = 3"
| "max_length PT_byte = 2"
| "max_length _ = 64"

lemma param_bytes_length:
  assumes "0 \<le> room"
  shows "int (length (param_bytes sid room t a)) \<le> room + 5"
  using assms encode_int_length [of "marg_value sid a"]
  by (cases t) (simp_all add: param_bytes_def Let_def)

text \<open>Whatever the arguments, the encoder oversteps its limit by at most five bytes.\<close>

lemma encode_params_room:
  "encode_params sid room ts args = Some out \<Longrightarrow> ts = [] \<and> out = [] \<or> int (length out) \<le> room + 5"
proof (induction ts arbitrary: room args out)
  case (Cons t ts)
  obtain a as where args: "args = a # as"
    using Cons.prems by (cases args) auto
  let ?o = "param_bytes sid room t a"
  obtain rest where rest: "out = ?o @ rest" "encode_params sid (room - int (length ?o)) ts as = Some rest" "0 \<le> room"
    using Cons.prems by (auto simp: args Let_def split: if_splits)
  from Cons.IH [OF rest(2)] rest param_bytes_length [OF rest(3), of sid t a] show ?case
    by auto
qed simp

lemma encode_params_fits:
  assumes "list_all int_type ts" "length args = length ts"
    and "list_all2 (\<lambda>t a. length (encode_int (marg_value sid a)) \<le> max_length t) ts args"
    and "encode_params sid room ts args = Some out"
  shows "length out \<le> sum_list (map max_length ts)"
  using assms
proof (induction ts arbitrary: args room out)
  case (Cons t ts)
  obtain a as where args: "args = a # as" "length as = length ts"
    using Cons.prems(2) by (cases args) auto
  obtain rest where rest: "encode_params sid (room - int (length (encode_int (marg_value sid a)))) ts as = Some rest"
    "out = encode_int (marg_value sid a) @ rest"
    using Cons.prems(1,4) by (auto simp: args encode_params_int simp del: encode_params.simps split: if_splits)
  with Cons.IH [OF _ args(2) _ rest(1)] Cons.prems(1,3) show ?case
    by (auto simp: args)
qed simp

lemma encode_msgid_length: "length (encode_msgid m) = (if m \<ge> 0x80 then 2 else 1)"
  by (simp add: encode_msgid_def)

section \<open>Properties\<close>

text \<open>
  C32. Variable length integers: every 32-bit value is encoded in one to five bytes, and the parser
  that starts at the first of them returns the same value and stops right behind the last of them,
  whatever surrounds them in the buffer.
\<close>

theorem vlq_roundtrip:
  "parse_int (pre @ encode_int v @ post) (length pre) = Some (v, length pre + length (encode_int v)) \<and>
   1 \<le> length (encode_int v) \<and> length (encode_int v) \<le> 5"
  using encode_int_roundtrip [OF refl, of pre v post] encode_int_length [of v] by blast

text \<open>
  C10. A message whose parameters are integers survives the trip through the wire format: parsing
  the message id and the parameters that \<open>command_encodef\<close> wrote gives back the id and the
  arguments, and consumes exactly the payload.
\<close>

theorem message_roundtrip:
  assumes "list_all int_type (ce_param_types ce)" and "length args = length (ce_param_types ce)"
    and "ce_encoded_msgid ce < 0x4000" and "5 < ce_max_size ce"
    and "command_encodef sid ce args s = Ret (payload, msglen) s'"
    and "buf = pre @ payload @ post" and "maxend = length pre + length payload"
  shows "\<exists>p. command_parse_msgid buf (length pre) = Some (ucast (ce_encoded_msgid ce), p) \<and>
    command_parsef buf p maxend (ce_param_types ce) t = Ret (map (marg_value sid) args, maxend) t \<and>
    msglen = length payload + 5 \<and> s' = s"
proof -
  let ?m = "encode_msgid (ce_encoded_msgid ce)"
  obtain rest room where rest: "encode_params sid room (ce_param_types ce) args = Some rest"
    and p: "payload = ?m @ rest" "msglen = length payload + 5" "s' = s"
    using assms(4,5) by (auto simp: command_encodef_def Let_def shutdown_def message_defs split: if_splits option.splits)
  have buf: "buf = pre @ ?m @ (rest @ post)" "buf = (pre @ ?m) @ rest @ post"
    by (simp_all add: assms(6) p(1))
  have "command_parsef buf (length (pre @ ?m)) maxend (ce_param_types ce) t =
      Ret (map (marg_value sid) args, length (pre @ ?m) + length rest) t"
    by (rule params_roundtrip [OF assms(1,2) rest buf(2)]) (simp add: assms(7) p(1))
  with encode_msgid_roundtrip [OF buf(1) assms(3)] p assms(7) show ?thesis
    by auto
qed

definition clock_encoder :: command_encoder where
  "clock_encoder = \<lparr>ce_encoded_msgid = 79, ce_max_size = 11, ce_param_types = [PT_uint32]\<rparr>"

theorem message_roundtrip_witness:
  "\<exists>payload. command_encodef (\<lambda>_. 0) clock_encoder [U 300] () = Ret (payload, 8) () \<and>
     command_parsef payload 1 3 [PT_uint32] () = Ret ([300], 3) ()"
proof -
  have e: "command_encodef (\<lambda>_. 0) clock_encoder [U 300] () = Ret ([79, 0x82, 0x2c], 8) ()"
    by (simp add: command_encodef_def clock_encoder_def encode_msgid_def param_bytes_def encode_int_def
        message_defs Let_def sint_u32)
  have "command_parsef [79, 0x82, 0x2c] 1 3 [PT_uint32] () = Ret ([300], 3) ()"
    using message_roundtrip [OF _ _ _ _ e, of "[79, 0x82, 0x2c]" "[]" "[]" 3 "()"]
    by (simp add: clock_encoder_def int_type_def command_parse_msgid_def has_def del: command_parsef.simps)
  with e show ?thesis by blast
qed

text \<open>
  C11. Framing: a message of at most 59 payload bytes, framed with the sequence number that the
  receiver expects, is recognised as one complete block of the right length wherever the rest of
  the input goes on, and the receiver then expects the next sequence number.
\<close>

theorem frame_accepted:
  assumes "length payload \<le> 59" and "next_sequence r AND NOT MESSAGE_SEQ_MASK = MESSAGE_DEST"
    and "next_sequence s = next_sequence r" and "\<not> has (sync_state s) CF_NEED_SYNC"
  shows "command_find_block (command_add_frame payload (length payload + 5) r @ rest) s =
    (1, length payload + 5, s\<lparr>sync_state := sync_state s AND NOT CF_NEED_VALID,
       next_sequence := next_seq (next_sequence s)\<rparr>)"
  using find_block_valid [OF frame_valid(1) [OF assms(1,2) refl, of rest] assms(4)]
    frame_valid(2) [OF assms(1,2) refl, of rest] assms(3)
  by (simp add: Let_def)

theorem frame_accepted_witness:
  "command_find_block (command_add_frame [5, 1] 7 (command_static (quiet_env 0) 0 0 ()) @ [9])
     (command_static (quiet_env 0) 0 0 ()) =
   (1, 7, (command_static (quiet_env 0) 0 0 ()) \<lparr>sync_state := 0, next_sequence := 0x11\<rparr>)"
proof -
  let ?s = "command_static (quiet_env 0) 0 0 ()"
  have "sync_state ?s = 0" "next_sequence ?s = 0x10"
    by (simp_all add: command_static_def base_static_def sched_static_def board_static_def MESSAGE_DEST_def)
  then show ?thesis
    using frame_accepted [of "[5, 1]" ?s ?s "[9]"]
    by (simp add: has_def next_seq_def MESSAGE_DEST_def MESSAGE_SEQ_MASK_def)
qed

text \<open>
  C36. The block finder makes progress and never takes more than it was given: it either waits for
  more data and changes nothing, or removes at least one byte; it accepts a block only when the
  block is valid and carries the expected sequence number, and the expected number moves on exactly
  when a block is accepted.
\<close>

theorem find_block_progress:
  "case command_find_block buf s of (ret, pop, s') \<Rightarrow>
     pop \<le> length buf \<and> (ret = 0 \<longrightarrow> pop = 0 \<and> s' = s) \<and> (ret \<noteq> 0 \<longrightarrow> 0 < pop) \<and>
     (ret > 0 \<longrightarrow> valid_block buf pop \<and> buf ! 1 = next_sequence s \<and>
        next_sequence s' = next_seq (next_sequence s)) \<and>
     (\<not> ret > 0 \<longrightarrow> next_sequence s' = next_sequence s)"
proof -
  obtain ret pop s' where e: "command_find_block buf s = (ret, pop, s')"
    by (cases "command_find_block buf s")
  show ?thesis
    using find_block_props [OF e] by (simp add: e)
qed

theorem find_block_progress_witness:
  "\<exists>ret pop s'. command_find_block [0x7e, 0, 0, 0, 0] (command_static (quiet_env 0) 0 0 ()) = (ret, pop, s') \<and>
     ret \<noteq> 0 \<and> 0 < pop \<and> pop \<le> 5"
proof -
  let ?s = "command_static (quiet_env 0) 0 0 ()"
  have "sync_state ?s = 0"
    by (simp add: command_static_def base_static_def sched_static_def board_static_def)
  then have "command_find_block [0x7e, 0, 0, 0, 0] ?s = (- 1, 1, ?s)"
    by (simp add: command_find_block_def find_error_def message_defs MESSAGE_SYNC_def has_def)
  with find_block_progress [of "[0x7e, 0, 0, 0, 0]" ?s] show ?thesis by simp
qed

lemma no_fault: "outcome m (\<lambda>_ _. True) (\<lambda>_ _. True) \<longleftrightarrow> m \<noteq> Fault"
  by (cases m) simp_all

text \<open>
  C12. Memory safety of dispatch: for a valid block, the parser reads nothing outside of the block,
  whatever the bytes in it are, every command is called with exactly as many arguments as it
  declares, and the loop ends; so a dispatch faults only if a command does.
\<close>

theorem dispatch_reads_inside_block:
  assumes "valid_block buf n"
    and "\<And>cp b args s. cp \<in> set idx \<Longrightarrow> length args = num_args (cp_param_types cp) \<Longrightarrow> cp_func cp b args s \<noteq> Fault"
  shows "command_dispatch idx (take n buf) n s \<noteq> Fault"
proof -
  have "command_handlers idx (\<lambda>_. True) (\<lambda>_ _. True)"
    by (rule command_handlers.intro; cases idx) (simp_all add: no_fault assms(2))
  then show ?thesis
    using command_handlers.dispatch_block_ok [of idx "\<lambda>_. True" "\<lambda>_ _. True" s buf n] assms(1)
    by (simp add: no_fault)
qed

text \<open>A table with the commands \<open>identify\<close> of this firmware's dictionary and \<open>get_clock\<close>.\<close>

definition small_index :: "unit command_scheme command_parser list" where
  "small_index =
     [\<lparr>cp_num_args = 0, cp_flags = 0, cp_param_types = [], cp_func = (\<lambda>buf args s. Ret () s)\<rparr>,
      \<lparr>cp_num_args = 2, cp_flags = HF_IN_SHUTDOWN, cp_param_types = [PT_uint32, PT_byte],
       cp_func = (\<lambda>buf args s. Ret () (command_identify [1, 2, 3] args s))\<rparr>,
      \<lparr>cp_num_args = 1, cp_flags = 0, cp_param_types = [PT_uint32],
       cp_func = (\<lambda>buf args s. Ret () (s\<lparr>config_crc := args ! 0\<rparr>))\<rparr>]"

theorem dispatch_reads_inside_block_witness:
  "command_dispatch small_index (command_add_frame [1, 0, 40] 8 (command_static (quiet_env 0) 0 0 ())) 8
     (command_static (quiet_env 0) 0 0 ()) \<noteq> Fault"
proof -
  let ?s = "command_static (quiet_env 0) 0 0 ()"
  let ?b = "command_add_frame [1, 0, 40] 8 ?s"
  have q: "next_sequence ?s AND NOT MESSAGE_SEQ_MASK = MESSAGE_DEST"
    by (simp add: command_static_def base_static_def sched_static_def board_static_def MESSAGE_DEST_def MESSAGE_SEQ_MASK_def)
  have v: "valid_block ?b 8"
    using frame_valid(1) [of "[1, 0, 40]" ?s ?b "[]"] q by simp
  have h: "cp_func cp b args s \<noteq> Fault" if "cp \<in> set small_index" for cp b args s
    using that by (auto simp: small_index_def)
  have "command_dispatch small_index (take 8 ?b) 8 ?s \<noteq> Fault"
    by (rule dispatch_reads_inside_block [OF v h])
  moreover have "take 8 ?b = ?b"
    by (simp add: command_add_frame_def Let_def)
  ultimately show ?thesis by simp
qed



text \<open>
  Size of a message: whatever the arguments are, a message is at most five bytes longer than
  the \<open>max_size\<close> of its encoder; it is within \<open>max_size\<close> when every integer is within the width
  that its type declares.
\<close>

theorem encode_size:
  assumes "command_encodef sid ce args s = Ret (payload, msglen) s'"
    and "MESSAGE_MIN + length (encode_msgid (ce_encoded_msgid ce)) \<le> ce_max_size ce"
  shows "msglen \<le> ce_max_size ce + 5 \<and>
    (list_all int_type (ce_param_types ce) \<longrightarrow> length args = length (ce_param_types ce) \<longrightarrow>
     list_all2 (\<lambda>t a. length (encode_int (marg_value sid a)) \<le> max_length t) (ce_param_types ce) args \<longrightarrow>
     MESSAGE_MIN + length (encode_msgid (ce_encoded_msgid ce)) + sum_list (map max_length (ce_param_types ce)) \<le> ce_max_size ce \<longrightarrow>
     msglen \<le> ce_max_size ce)"
proof -
  let ?m = "encode_msgid (ce_encoded_msgid ce)"
  define room where "room = int (ce_max_size ce) - int MESSAGE_MIN - int (length ?m)"
  have "MESSAGE_MIN < ce_max_size ce"
    using assms(2) encode_msgid_length [of "ce_encoded_msgid ce"] by (simp split: if_splits)
  then obtain rest where rest: "encode_params sid room (ce_param_types ce) args = Some rest"
    and len: "msglen = 5 + length ?m + length rest"
    using assms(1) by (auto simp: command_encodef_def Let_def shutdown_def message_defs room_def split: if_splits option.splits)
  have "int (length rest) \<le> room + 5"
    using encode_params_room [OF rest] assms(2) by (auto simp: room_def)
  then have "msglen \<le> ce_max_size ce + 5"
    by (simp add: len room_def message_defs)
  then show ?thesis
    using encode_params_fits [OF _ _ _ rest] by (auto simp: len message_defs)
qed

theorem encode_size_witness:
  "\<exists>payload. command_encodef (\<lambda>_. 0) clock_encoder [U 300] () = Ret (payload, 8) () \<and> (8::nat) \<le> ce_max_size clock_encoder"
proof -
  have e: "command_encodef (\<lambda>_. 0) clock_encoder [U 300] () = Ret ([79, 0x82, 0x2c], 8) ()"
    by (simp add: command_encodef_def clock_encoder_def encode_msgid_def param_bytes_def encode_int_def
        message_defs Let_def sint_u32)
  from encode_size [OF e] e show ?thesis
    by (auto simp: clock_encoder_def message_defs encode_msgid_def int_type_def encode_int_def Let_def sint_u32)
qed

text \<open>
  The report of a late timer declares three 16-bit fields but passes two full clock values, so it
  can be three bytes longer than its \<open>max_size\<close> of 15 (a one byte id and three times three bytes).
\<close>

definition close_encoder :: command_encoder where
  "close_encoder = \<lparr>ce_encoded_msgid = 80, ce_max_size = 15, ce_param_types = [PT_uint16, PT_uint16, PT_uint16]\<rparr>"

lemma close_report_oversize:
  "\<exists>payload. command_encodef (\<lambda>_. 0) close_encoder [U 98, U 0x80000000, U 0x80000000] () = Ret (payload, 18) ()"
  by (simp add: command_encodef_def close_encoder_def encode_msgid_def param_bytes_def encode_int_def
      message_defs Let_def sint_u32)

text \<open>A byte string that fills the message is cut one byte too late.\<close>

definition identify_encoder :: command_encoder where
  "identify_encoder = \<lparr>ce_encoded_msgid = 0, ce_max_size = 64, ce_param_types = [PT_uint32, PT_progmem_buffer]\<rparr>"

lemma identify_oversize:
  "\<exists>payload. command_encodef (\<lambda>_. 0) identify_encoder [U 0, Bytes (replicate 200 0)] () = Ret (payload, 65) ()"
  by (simp add: command_encodef_def identify_encoder_def encode_msgid_def param_bytes_def encode_int_def
      message_defs Let_def sint_u32)

end
