(* ===== verification/Serial_Spec.thy ===== *)
theory Serial_Spec
  imports Serial Command_Spec
begin

text \<open>
  The serial port as two byte queues. \<open>rx_data\<close> and \<open>tx_data\<close> are the bytes that wait in the
  receive and in the transmit buffer. The lemmas show what the interrupt and the main loop do to
  them, interleaved in every way that the code allows.
\<close>

section \<open>Abstraction\<close>

text \<open>The bytes that wait in the two buffers.\<close>

definition rx_data :: "'z serial_scheme \<Rightarrow> u8 list" where
  "rx_data s = take (unat (receive_pos (ser s))) (receive_buf (ser s))"

definition tx_data :: "'z serial_scheme \<Rightarrow> u8 list" where
  "tx_data s = take (unat (transmit_max (ser s)) - unat (transmit_pos (ser s)))
     (drop (unat (transmit_pos (ser s))) (transmit_buf (ser s)))"

definition serial_inv :: "'z serial_scheme \<Rightarrow> bool" where
  "serial_inv s \<longleftrightarrow> length (receive_buf (ser s)) = RX_BUFFER_SIZE \<and> unat (receive_pos (ser s)) \<le> RX_BUFFER_SIZE \<and>
     length (transmit_buf (ser s)) = TX_BUFFER_SIZE \<and> unat (transmit_max (ser s)) \<le> TX_BUFFER_SIZE \<and>
     unat (transmit_pos (ser s)) \<le> unat (transmit_max (ser s))"

lemmas buffer_sizes = RX_BUFFER_SIZE_def TX_BUFFER_SIZE_def

lemma unat_Suc_word: "unat x < n \<Longrightarrow> n < 2 ^ LENGTH('a) \<Longrightarrow> unat (x + 1 :: 'a::len word) = Suc (unat x)"
  using unat_add_lem [of x 1] by (simp add: unat_1)

section \<open>Interrupt side\<close>

lemma sched_wake_tasks_ser [simp]: "ser (sched_wake_tasks s) = ser s"
  by (simp add: sched_wake_tasks_def)

lemma serial_rx_byte_ser:
  "ser (serial_rx_byte d s) =
     (if unat (receive_pos (ser s)) \<ge> RX_BUFFER_SIZE then ser s
      else (ser s)\<lparr>receive_buf := (receive_buf (ser s))[unat (receive_pos (ser s)) := d],
                   receive_pos := receive_pos (ser s) + 1\<rparr>)"
  by (simp add: serial_rx_byte_def Let_def)

lemma serial_rx_byte_data:
  assumes "serial_inv s"
  shows "serial_inv (serial_rx_byte d s)"
    and "rx_data (serial_rx_byte d s) = (if length (rx_data s) < RX_BUFFER_SIZE then rx_data s @ [d] else rx_data s)"
    and "tx_data (serial_rx_byte d s) = tx_data s"
proof -
  let ?p = "unat (receive_pos (ser s))"
  have len: "length (rx_data s) = ?p" "length (receive_buf (ser s)) = 384"
    using assms by (auto simp: rx_data_def serial_inv_def buffer_sizes)
  have suc: "unat (receive_pos (ser s) + 1) = Suc ?p" if "?p < 384"
    using that by (intro unat_Suc_word [of _ 384]) simp_all
  show "serial_inv (serial_rx_byte d s)"
    using assms suc by (auto simp: serial_inv_def serial_rx_byte_ser buffer_sizes)
  show "rx_data (serial_rx_byte d s) = (if length (rx_data s) < RX_BUFFER_SIZE then rx_data s @ [d] else rx_data s)"
    using suc len by (auto simp: len(1) rx_data_def [of "serial_rx_byte d s"] serial_rx_byte_ser buffer_sizes
        take_Suc_conv_app_nth) (simp_all add: rx_data_def)
  show "tx_data (serial_rx_byte d s) = tx_data s"
    by (simp add: tx_data_def serial_rx_byte_ser)
qed

text \<open>A run of received bytes that fits is appended.\<close>

lemma rx_bytes_data:
  assumes "serial_inv s" "length (rx_data s) + length ds \<le> RX_BUFFER_SIZE"
  shows "serial_inv (fold serial_rx_byte ds s) \<and> rx_data (fold serial_rx_byte ds s) = rx_data s @ ds \<and>
    tx_data (fold serial_rx_byte ds s) = tx_data s"
  using assms
proof (induction ds arbitrary: s)
  case (Cons d ds)
  then show ?case
    using serial_rx_byte_data [of s d] Cons.IH [of "serial_rx_byte d s"] by simp
qed simp

lemma serial_get_tx_byte_data:
  assumes "serial_inv s"
  shows "case serial_get_tx_byte s of (r, s') \<Rightarrow>
    serial_inv s' \<and> rx_data s' = rx_data s \<and> tx_data s = (case r of None \<Rightarrow> [] | Some d \<Rightarrow> [d]) @ tx_data s' \<and>
    (r = None \<longrightarrow> s' = s)"
proof -
  let ?p = "unat (transmit_pos (ser s))" and ?m = "unat (transmit_max (ser s))"
  have len: "length (transmit_buf (ser s)) = 96" "?m \<le> 96" "?p \<le> ?m"
    using assms by (simp_all add: serial_inv_def buffer_sizes)
  have suc: "unat (transmit_pos (ser s) + 1) = Suc ?p" if "?p < 96"
    using that by (intro unat_Suc_word [of _ 96]) simp_all
  have t: "take (?m - ?p) (drop ?p (transmit_buf (ser s))) =
      (transmit_buf (ser s) ! ?p) # take (?m - Suc ?p) (drop (Suc ?p) (transmit_buf (ser s)))" if "?p < ?m"
    using that len by (simp add: Cons_nth_drop_Suc [symmetric] take_Cons' )
  show ?thesis
    using assms suc t len
    by (auto simp: serial_get_tx_byte_def Let_def serial_inv_def rx_data_def tx_data_def word_le_nat_alt not_le)
qed

section \<open>Removing a block while bytes arrive\<close>

lemma readb_small:
  assumes "unat (receive_pos (ser s)) < 256"
  shows "readb_receive_pos s = unat (receive_pos (ser s))"
  using assms by (simp add: readb_receive_pos_def unsigned_ucast_eq take_bit_nat_eq_self)

lemma unat_diff_u32: "m \<le> n \<Longrightarrow> n < 4294967296 \<Longrightarrow> unat (of_nat n - of_nat m :: u32) = n - m"
  by (simp add: unat_of_nat take_bit_nat_eq_self flip: of_nat_diff)

text \<open>
  In the middle of the loop: of the data \<open>D\<close> (what was received, in the original layout), the
  first \<open>copied\<close> bytes behind the block are in their final place, the others still at the old one.
\<close>

definition popping :: "nat \<Rightarrow> nat \<Rightarrow> u8 list \<Rightarrow> 'z serial_scheme \<Rightarrow> bool" where
  "popping len copied D s \<longleftrightarrow> serial_inv s \<and> unat (receive_pos (ser s)) = length D \<and> copied + len \<le> length D \<and>
     take copied (receive_buf (ser s)) = take copied (drop len D) \<and>
     take (length D - (copied + len)) (drop (copied + len) (receive_buf (ser s))) = drop (copied + len) D"

lemma popping_start:
  assumes "serial_inv s" "len \<le> length (rx_data s)"
  shows "popping len 0 (rx_data s) s"
  using assms by (auto simp: popping_def rx_data_def serial_inv_def buffer_sizes drop_take)

text \<open>One round copies everything that has arrived so far.\<close>

lemma popping_round:
  assumes pop: "popping len copied D s" and small: "length D < 256"
  obtains b where "memmove copied (copied + len) (length D - len - copied) (receive_buf (ser s)) = Some b"
    and "length b = RX_BUFFER_SIZE" and "take (length D - len) b = drop len D"
proof -
  let ?B = "receive_buf (ser s)" and ?n = "length D - len - copied"
  have len: "length ?B = 384" "copied + len \<le> length D" "length D \<le> 384"
    using pop by (simp_all add: popping_def serial_inv_def buffer_sizes)
  define b where "b = take copied ?B @ take ?n (drop (copied + len) ?B) @ drop (copied + ?n) ?B"
  have n: "?n = length D - (copied + len)" by simp
  have "take (length D - len) b = take copied ?B @ take ?n (drop (copied + len) ?B)"
    using len by (simp add: b_def)
  also have "\<dots> = take copied (drop len D) @ drop (copied + len) D"
    using pop unfolding popping_def n by simp
  also have "\<dots> = drop len D"
    by (metis append_take_drop_id drop_drop)
  finally have "take (length D - len) b = drop len D" .
  moreover have "memmove copied (copied + len) ?n ?B = Some b" "length b = RX_BUFFER_SIZE"
    using len by (simp_all add: memmove_def b_def buffer_sizes)
  ultimately show thesis
    using that by blast
qed

definition arrived :: "u8 list list \<Rightarrow> u8 list" where
  "arrived arr = concat (takeWhile (\<lambda>ds. ds \<noteq> []) arr)"

lemma popping_copy:
  assumes pop: "popping len copied D s" and small: "length D < 256"
  obtains b where "(if length D - len \<noteq> 0 then memmove copied (copied + len) (length D - len - copied) (receive_buf (ser s))
      else Some (receive_buf (ser s))) = Some b"
    and "length b = RX_BUFFER_SIZE" and "take (length D - len) b = drop len D"
proof (cases "length D - len = 0")
  case True
  then show thesis
    using that [of "receive_buf (ser s)"] pop by (simp add: popping_def serial_inv_def)
next
  case False
  then show thesis
    using popping_round [OF assms] that by auto
qed

text \<open>The arithmetic of one round.\<close>

lemma popping_numbers:
  assumes pop: "popping len copied D s" and small: "length D < 256"
  shows "readb_receive_pos s = length D" "unat (of_nat (length D) - of_nat len :: u32) = length D - len"
    "unat (of_nat (length D - len) - of_nat copied :: u32) = length D - len - copied"
    "unat (of_nat (length D - len) :: u16) = length D - len"
proof -
  have le: "copied + len \<le> length D" and p: "unat (receive_pos (ser s)) = length D"
    using pop by (simp_all add: popping_def)
  show "readb_receive_pos s = length D"
    using readb_small [of s] p small by simp
  show "unat (of_nat (length D) - of_nat len :: u32) = length D - len"
    using le small by (intro unat_diff_u32) simp_all
  show "unat (of_nat (length D - len) - of_nat copied :: u32) = length D - len - copied"
    using le small by (intro unat_diff_u32) simp_all
  show "unat (of_nat (length D - len) :: u16) = length D - len"
    using small by (simp add: unat_of_nat take_bit_nat_eq_self)
qed

text \<open>The state after the copy, when the loop ends and when more bytes have arrived.\<close>

lemma pop_finish:
  assumes pop: "popping len copied D s" and small: "length D < 256"
    and b: "length b = RX_BUFFER_SIZE" "take (length D - len) b = drop len D"
    and s': "ser s' = (ser s)\<lparr>receive_buf := b, receive_pos := of_nat (length D - len)\<rparr>"
  shows "serial_inv s' \<and> rx_data s' = drop len D \<and> tx_data s' = tx_data s"
  using pop b popping_numbers(4) [OF pop small] small
  by (simp add: popping_def serial_inv_def rx_data_def tx_data_def s' buffer_sizes)

lemma pop_continue:
  assumes pop: "popping len copied D s" and small: "length D + length ds < 256"
    and b: "length b = RX_BUFFER_SIZE" "take (length D - len) b = drop len D"
    and s1: "ser s1 = (ser s)\<lparr>receive_buf := b\<rparr>"
  shows "popping len (length D - len) (D @ ds) (fold serial_rx_byte ds s1)"
    and "tx_data (fold serial_rx_byte ds s1) = tx_data s"
proof -
  let ?s2 = "fold serial_rx_byte ds s1" and ?k = "length D - len"
  have le: "copied + len \<le> length D" and p: "unat (receive_pos (ser s)) = length D" and inv: "serial_inv s"
    using pop by (simp_all add: popping_def)
  have inv1: "serial_inv s1" and rx1: "rx_data s1 = take (length D) b"
    using inv b p by (simp_all add: serial_inv_def rx_data_def s1)
  have fit: "length (rx_data s1) + length ds \<le> RX_BUFFER_SIZE"
    using small b by (simp add: rx1 buffer_sizes)
  have inv2: "serial_inv ?s2" and rx2: "rx_data ?s2 = take (length D) b @ ds" and tx2: "tx_data ?s2 = tx_data s1"
    using rx_bytes_data [OF inv1 fit] by (simp_all add: rx1)
  have len2: "length (rx_data ?s2) = length D + length ds"
    using small b by (simp add: rx2 buffer_sizes)
  have p2: "unat (receive_pos (ser ?s2)) = length D + length ds"
    using len2 inv2 by (simp add: rx_data_def serial_inv_def buffer_sizes)
  have pre: "take (length D + length ds) (receive_buf (ser ?s2)) = take (length D) b @ ds"
    using rx2 by (simp add: rx_data_def p2)
  have "take ?k (receive_buf (ser ?s2)) = take ?k (take (length D + length ds) (receive_buf (ser ?s2)))"
    by simp
  also have "\<dots> = take ?k b"
    using small b by (simp add: pre buffer_sizes)
  finally have 1: "take ?k (receive_buf (ser ?s2)) = drop len D"
    using b by simp
  have "take (length ds) (drop (length D) (receive_buf (ser ?s2))) = drop (length D) (take (length D + length ds) (receive_buf (ser ?s2)))"
    by (simp add: drop_take)
  also have "\<dots> = ds"
    using small b by (simp add: pre buffer_sizes)
  finally have 2: "take (length ds) (drop (length D) (receive_buf (ser ?s2))) = ds" .
  show "popping len ?k (D @ ds) ?s2"
    using inv2 p2 le 1 2 by (simp add: popping_def)
  show "tx_data ?s2 = tx_data s"
    unfolding tx2 by (simp add: tx_data_def s1)
qed

lemma pop_loop_unfold:
  assumes "readb_receive_pos s = r" "unat (of_nat r - of_nat len :: u32) = k" "unat (of_nat k - of_nat copied :: u32) = n"
    and "(if k \<noteq> 0 then memmove copied (copied + len) n (receive_buf (ser s)) else Some (receive_buf (ser s))) = Some b"
    and "k = 0 \<Longrightarrow> copied = 0"
  obtains s1 where "ser s1 = (ser s)\<lparr>receive_buf := b\<rparr>"
    and "console_pop_loop len arr copied s =
      (case arr of [] \<Rightarrow> Ret () (upd_ser (\<lambda>x. x\<lparr>receive_pos := of_nat k\<rparr>) s1)
       | ds # arr \<Rightarrow> if r \<noteq> readb_receive_pos (fold serial_rx_byte ds s1)
           then console_pop_loop len arr k (fold serial_rx_byte ds s1)
           else Ret () (upd_ser (\<lambda>x. x\<lparr>receive_pos := of_nat k\<rparr>) (fold serial_rx_byte ds s1)))"
proof -
  let ?u = "upd_ser (\<lambda>x. x\<lparr>receive_buf := b\<rparr>) s"
  define s1 where "s1 = (if k \<noteq> 0 then sched_wake_tasks ?u else ?u)"
  have "(if k \<noteq> 0 then k else copied) = k"
    using assms(5) by simp
  then have "console_pop_loop len arr copied s =
      (case arr of [] \<Rightarrow> Ret () (upd_ser (\<lambda>x. x\<lparr>receive_pos := of_nat k\<rparr>) s1)
       | ds # arr \<Rightarrow> if r \<noteq> readb_receive_pos (fold serial_rx_byte ds s1)
           then console_pop_loop len arr k (fold serial_rx_byte ds s1)
           else Ret () (upd_ser (\<lambda>x. x\<lparr>receive_pos := of_nat k\<rparr>) (fold serial_rx_byte ds s1)))"
    by (subst console_pop_loop.simps) (simp only: Let_def assms(1-4) option.case s1_def)
  moreover have "ser s1 = (ser s)\<lparr>receive_buf := b\<rparr>"
    by (simp add: s1_def)
  ultimately show thesis
    using that by blast
qed

lemma pop_round_unfold:
  assumes pop: "popping len copied D s" and small: "length D < 256"
  obtains b s1 where "length b = RX_BUFFER_SIZE" "take (length D - len) b = drop len D"
    "ser s1 = (ser s)\<lparr>receive_buf := b\<rparr>"
    "console_pop_loop len arr copied s =
      (case arr of [] \<Rightarrow> Ret () (upd_ser (\<lambda>x. x\<lparr>receive_pos := of_nat (length D - len)\<rparr>) s1)
       | ds # arr \<Rightarrow> if length D \<noteq> readb_receive_pos (fold serial_rx_byte ds s1)
           then console_pop_loop len arr (length D - len) (fold serial_rx_byte ds s1)
           else Ret () (upd_ser (\<lambda>x. x\<lparr>receive_pos := of_nat (length D - len)\<rparr>) (fold serial_rx_byte ds s1)))"
proof -
  note num = popping_numbers [OF assms]
  obtain b where b: "(if length D - len \<noteq> 0 then memmove copied (copied + len) (length D - len - copied) (receive_buf (ser s))
      else Some (receive_buf (ser s))) = Some b" "length b = RX_BUFFER_SIZE" "take (length D - len) b = drop len D"
    using popping_copy [OF assms] by blast
  have z: "length D - len = 0 \<Longrightarrow> copied = 0"
    using pop by (simp add: popping_def)
  show thesis
    using pop_loop_unfold [OF num(1) num(2) num(3) b(1) z] that [OF b(2,3)] by blast
qed

lemma console_pop_loop_data:
  assumes "popping len copied D s" "length D + length (arrived arr) < 256"
  shows "\<exists>s'. console_pop_loop len arr copied s = Ret () s' \<and> serial_inv s' \<and>
    rx_data s' = drop len (D @ arrived arr) \<and> tx_data s' = tx_data s"
  using assms
proof (induction arr arbitrary: copied D s)
  case Nil
  have small: "length D < 256"
    using Nil.prems(2) by simp
  obtain b s1 where r: "length b = RX_BUFFER_SIZE" "take (length D - len) b = drop len D"
      "ser s1 = (ser s)\<lparr>receive_buf := b\<rparr>"
      "console_pop_loop len [] copied s = Ret () (upd_ser (\<lambda>x. x\<lparr>receive_pos := of_nat (length D - len)\<rparr>) s1)"
    using pop_round_unfold [OF Nil.prems(1) small, of "[]"] by auto
  show ?case
    using pop_finish [OF Nil.prems(1) small r(1,2), of "upd_ser (\<lambda>x. x\<lparr>receive_pos := of_nat (length D - len)\<rparr>) s1"] r(3,4)
    by (simp add: arrived_def)
next
  case (Cons ds arr)
  have small: "length D < 256"
    using Cons.prems(2) by simp
  obtain b s1 where r: "length b = RX_BUFFER_SIZE" "take (length D - len) b = drop len D"
      "ser s1 = (ser s)\<lparr>receive_buf := b\<rparr>"
      "console_pop_loop len (ds # arr) copied s =
       (if length D \<noteq> readb_receive_pos (fold serial_rx_byte ds s1)
        then console_pop_loop len arr (length D - len) (fold serial_rx_byte ds s1)
        else Ret () (upd_ser (\<lambda>x. x\<lparr>receive_pos := of_nat (length D - len)\<rparr>) (fold serial_rx_byte ds s1)))"
    using pop_round_unfold [OF Cons.prems(1) small, of "ds # arr"] by auto
  show ?case
  proof (cases "ds = []")
    case True
    have "readb_receive_pos s1 = length D"
      using popping_numbers(1) [OF Cons.prems(1) small] r(3) by (simp add: readb_receive_pos_def)
    then show ?thesis
      using pop_finish [OF Cons.prems(1) small r(1,2), of "upd_ser (\<lambda>x. x\<lparr>receive_pos := of_nat (length D - len)\<rparr>) s1"] r(3,4)
      by (simp add: arrived_def True)
  next
    case False
    have sm: "length D + length ds < 256" "length (D @ ds) + length (arrived arr) < 256"
      using Cons.prems(2) False by (simp_all add: arrived_def)
    note c = pop_continue [OF Cons.prems(1) sm(1) r(1-3)]
    have "readb_receive_pos (fold serial_rx_byte ds s1) = length D + length ds"
      using popping_numbers(1) [OF c(1)] sm(1) by simp
    then show ?thesis
      using Cons.IH [OF c(1) sm(2)] r(4) False c(2) by (simp add: arrived_def)
  qed
qed

section \<open>Transmitting\<close>

lemma unat_u8_le: "n \<le> 96 \<Longrightarrow> unat (of_nat n :: u8) = n"
  by (simp add: unat_of_nat take_bit_nat_eq_self)

text \<open>What the transmit interrupt leaves alone.\<close>

definition tx_progress :: "'z serial_scheme \<Rightarrow> u8 list \<Rightarrow> 'z serial_scheme \<Rightarrow> bool" where
  "tx_progress s out s' \<longleftrightarrow> serial_inv s' \<and> rx_data s' = rx_data s \<and> out @ tx_data s' = tx_data s \<and>
     transmit_max (ser s') = transmit_max (ser s) \<and> transmit_buf (ser s') = transmit_buf (ser s) \<and>
     next_sequence s' = next_sequence s"

lemma serial_get_tx_byte_progress:
  assumes "serial_inv s" "serial_get_tx_byte s = (r, s')"
  shows "tx_progress s (case r of None \<Rightarrow> [] | Some d \<Rightarrow> [d]) s'"
proof -
  have "transmit_max (ser s') = transmit_max (ser s) \<and> transmit_buf (ser s') = transmit_buf (ser s) \<and> next_sequence s' = next_sequence s"
    using assms(2) by (simp add: serial_get_tx_byte_def Let_def split: if_splits) auto
  then show ?thesis
    using serial_get_tx_byte_data [OF assms(1)] assms(2) by (simp add: tx_progress_def)
qed

lemma tx_bytes_progress:
  assumes "serial_inv s"
  shows "case tx_bytes k s of (out, s') \<Rightarrow> tx_progress s out s'"
  using assms
proof (induction k arbitrary: s)
  case (Suc k)
  obtain r s1 where g: "serial_get_tx_byte s = (r, s1)" by fastforce
  note 1 = serial_get_tx_byte_progress [OF Suc.prems g]
  show ?case
  proof (cases r)
    case (Some d)
    then show ?thesis
      using 1 Suc.IH [of s1] by (cases "tx_bytes k s1") (simp add: g tx_progress_def)
  qed (use 1 in \<open>simp add: g\<close>)
qed (simp add: tx_progress_def)

text \<open>Emptying the buffer, moving its content to the front, appending a message.\<close>

lemma tx_reset:
  assumes "serial_inv s" "ser s' = (ser s)\<lparr>transmit_max := 0, transmit_pos := 0\<rparr>"
    and "unat (transmit_max (ser s)) \<le> unat (transmit_pos (ser s))"
  shows "serial_inv s' \<and> rx_data s' = rx_data s \<and> tx_data s' = [] \<and> tx_data s = []"
  using assms by (simp add: serial_inv_def rx_data_def tx_data_def)

lemma tx_compact:
  assumes inv: "serial_inv s" and p_def: "p = unat (transmit_pos (ser s))"
    and n_def: "n = unat (transmit_max (ser s)) - p"
  obtains b s' where "memmove 0 p n (transmit_buf (ser s)) = Some b"
    and "s' = upd_ser (\<lambda>x. x\<lparr>transmit_buf := b, transmit_pos := 0, transmit_max := of_nat n, tx_irq := True\<rparr>) s"
    and "serial_inv s'" "rx_data s' = rx_data s" "tx_data s' = tx_data s" "unat (transmit_max (ser s')) = n"
    "next_sequence s' = next_sequence s"
proof -
  have len: "length (transmit_buf (ser s)) = 96" "p \<le> unat (transmit_max (ser s))" "unat (transmit_max (ser s)) \<le> 96"
    using assms by (simp_all add: serial_inv_def buffer_sizes)
  then have n: "p + n \<le> 96" "unat (of_nat n :: u8) = n"
    using unat_u8_le [of n] by (simp_all add: n_def)
  show thesis
    by (rule that [of "take n (drop p (transmit_buf (ser s))) @ drop n (transmit_buf (ser s))", OF _ refl])
      (use n len inv in \<open>simp_all add: memmove_def serial_inv_def rx_data_def tx_data_def buffer_sizes flip: p_def n_def\<close>)
qed

lemma tx_append:
  assumes inv: "serial_inv s" and n: "unat (transmit_max (ser s)) + length msg \<le> TX_BUFFER_SIZE"
    and s': "ser s' = (ser s)\<lparr>transmit_buf := take (unat (transmit_max (ser s))) (transmit_buf (ser s)) @ msg @
        drop (unat (transmit_max (ser s)) + length msg) (transmit_buf (ser s)),
      transmit_max := of_nat (unat (transmit_max (ser s)) + length msg), tx_irq := True\<rparr>"
  shows "serial_inv s' \<and> rx_data s' = rx_data s \<and> tx_data s' = tx_data s @ msg"
proof -
  let ?m = "unat (transmit_max (ser s))" and ?p = "unat (transmit_pos (ser s))"
  have len: "length (transmit_buf (ser s)) = 96" "?p \<le> ?m"
    using inv by (simp_all add: serial_inv_def buffer_sizes)
  have m: "unat (of_nat (?m + length msg) :: u8) = ?m + length msg"
    using n by (intro unat_u8_le) (simp add: buffer_sizes)
  show ?thesis
    using inv n len m
    by (simp add: serial_inv_def rx_data_def tx_data_def s' buffer_sizes drop_take del: of_nat_add)
qed

lemma command_encodef_any_state:
  "command_encodef sid ce args t = Ret r t' \<Longrightarrow> command_encodef sid ce args s = Ret r s"
  by (auto simp: command_encodef_def Let_def shutdown_def split: if_splits option.splits)

lemma command_encodef_msglen:
  "command_encodef sid ce args t = Ret (payload, msglen) t' \<Longrightarrow> MESSAGE_MIN \<le> ce_max_size ce \<Longrightarrow> length payload + 5 = msglen"
  by (auto simp: command_encodef_def Let_def shutdown_def message_defs split: if_splits option.splits)

lemma length_tx_data: "serial_inv s \<Longrightarrow> length (tx_data s) = unat (transmit_max (ser s)) - unat (transmit_pos (ser s))"
  by (simp add: serial_inv_def tx_data_def min_absorb2 diff_le_mono)

lemma sendf_start_props:
  assumes "serial_inv s"
  shows "serial_inv (sendf_start s)" "rx_data (sendf_start s) = rx_data s" "tx_data (sendf_start s) = tx_data s"
    "next_sequence (sendf_start s) = next_sequence s"
proof -
  let ?e = "transmit_pos (ser s) \<ge> transmit_max (ser s)"
  have "serial_inv (sendf_start s) \<and> rx_data (sendf_start s) = rx_data s \<and> tx_data (sendf_start s) = [] \<and> tx_data s = []" if ?e
    by (rule tx_reset [OF assms]) (use that in \<open>simp_all add: sendf_start_def word_le_nat_alt\<close>)
  moreover have "sendf_start s = s" if "\<not> ?e"
    using that by (simp add: sendf_start_def)
  ultimately show "serial_inv (sendf_start s)" "rx_data (sendf_start s) = rx_data s" "tx_data (sendf_start s) = tx_data s"
    using assms by (cases ?e; simp)+
  show "next_sequence (sendf_start s) = next_sequence s"
    by (simp add: sendf_start_def)
qed

text \<open>The buffer is compacted when the message does not fit behind its content.\<close>

lemma tx_make_room:
  fixes s1 :: "'z serial_scheme"
  assumes inv: "serial_inv s1" and tmax: "tmax = unat (transmit_max (ser s1))"
    and fits: "length (tx_data s1) + sz \<le> TX_BUFFER_SIZE"
  obtains s2 where "sendf_room tmax sz s1 = Ret (unat (transmit_max (ser s2))) s2"
    and "serial_inv s2" "rx_data s2 = rx_data s1" "tx_data s2 = tx_data s1" "next_sequence s2 = next_sequence s1"
    and "unat (transmit_max (ser s2)) + sz \<le> TX_BUFFER_SIZE"
proof (cases "tmax + sz > TX_BUFFER_SIZE")
  case True
  obtain b s2 where b: "memmove 0 (unat (transmit_pos (ser s1))) (tmax - unat (transmit_pos (ser s1))) (transmit_buf (ser s1)) = Some b"
    and s2: "s2 = upd_ser (\<lambda>x. x\<lparr>transmit_buf := b, transmit_pos := 0,
      transmit_max := of_nat (tmax - unat (transmit_pos (ser s1))), tx_irq := True\<rparr>) s1"
    and p2: "serial_inv s2" "rx_data s2 = rx_data s1" "tx_data s2 = tx_data s1"
      "unat (transmit_max (ser s2)) = tmax - unat (transmit_pos (ser s1))" "next_sequence s2 = next_sequence s1"
    by (rule tx_compact [OF inv refl refl, folded tmax])
  show thesis
  proof (rule that [OF _ p2(1,2,3,5)])
    show "sendf_room tmax sz s1 = Ret (unat (transmit_max (ser s2))) s2"
      using True b unfolding p2(4) by (simp add: sendf_room_def serial_enable_tx_irq_def Let_def s2)
    show "unat (transmit_max (ser s2)) + sz \<le> TX_BUFFER_SIZE"
      using fits length_tx_data [OF inv] by (simp add: tmax p2(4))
  qed
next
  case False
  then show thesis
    using that [of s1] inv tmax by (simp add: sendf_room_def)
qed

lemma console_sendf_data:
  assumes inv: "serial_inv s" and enc: "command_encodef sid ce args () = Ret (payload, msglen) ()"
    and size: "MESSAGE_MIN \<le> ce_max_size ce" "msglen \<le> ce_max_size ce"
  shows "\<exists>out s'. console_sendf sid k ce args s = Ret out s' \<and> serial_inv s' \<and> rx_data s' = rx_data s \<and>
    out @ tx_data s' = (if length (tx_data s) + ce_max_size ce > TX_BUFFER_SIZE then tx_data s
      else tx_data s @ command_add_frame payload msglen s)"
proof -
  define s0 where "s0 = sendf_start s"
  note s0 = sendf_start_props [OF inv, folded s0_def]
  obtain out s1 where t: "tx_bytes k s0 = (out, s1)" by fastforce
  have s1: "serial_inv s1" "rx_data s1 = rx_data s" "out @ tx_data s1 = tx_data s" "next_sequence s1 = next_sequence s"
    "transmit_max (ser s1) = transmit_max (ser s0)"
    using tx_bytes_progress [OF s0(1), of k] s0 by (simp_all add: t tx_progress_def)
  have full: "unat (transmit_max (ser s0)) + ce_max_size ce > TX_BUFFER_SIZE \<and>
      unat (transmit_max (ser s0)) + ce_max_size ce - unat (transmit_pos (ser s0)) > TX_BUFFER_SIZE \<longleftrightarrow>
      length (tx_data s) + ce_max_size ce > TX_BUFFER_SIZE"
    using length_tx_data [OF s0(1)] s0(1,3) by (auto simp: serial_inv_def)
  show ?thesis
  proof (cases "length (tx_data s) + ce_max_size ce > TX_BUFFER_SIZE")
    case True
    then have "console_sendf sid k ce args s = Ret out s1"
      unfolding console_sendf_def s0_def [symmetric] Let_def t prod.case full by simp
    then show ?thesis
      using s1 True by simp
  next
    case False
    have len: "length (tx_data s1) + ce_max_size ce \<le> TX_BUFFER_SIZE"
      using False arg_cong [OF s1(3), of length] by simp
    have te: "unat (transmit_max (ser s0)) = unat (transmit_max (ser s1))"
      by (simp only: s1(5))
    obtain s2 where r: "sendf_room (unat (transmit_max (ser s0))) (ce_max_size ce) s1 = Ret (unat (transmit_max (ser s2))) s2"
      and s2: "serial_inv s2" "rx_data s2 = rx_data s1" "tx_data s2 = tx_data s1" "next_sequence s2 = next_sequence s1"
        "unat (transmit_max (ser s2)) + ce_max_size ce \<le> TX_BUFFER_SIZE"
      by (rule tx_make_room [OF s1(1) te len])
    define msg where "msg = command_add_frame payload msglen s"
    have msg: "command_encode_and_frame sid ce args s2 = Ret msg s2" "length msg = msglen"
      using command_encodef_any_state [OF enc, of s2] command_encodef_msglen [OF enc size(1)] s2(4) s1(4)
      by (simp_all add: command_encode_and_frame_def msg_def command_add_frame_def Let_def)
    define s3 where "s3 = upd_ser (\<lambda>x. x\<lparr>transmit_buf := take (unat (transmit_max (ser s2))) (transmit_buf x) @ msg @
        drop (unat (transmit_max (ser s2)) + length msg) (transmit_buf x),
      transmit_max := of_nat (unat (transmit_max (ser s2)) + length msg), tx_irq := True\<rparr>) s2"
    have "console_sendf sid k ce args s = Ret out s3"
      unfolding console_sendf_def s0_def [symmetric] Let_def t prod.case full
      using False msg size s2(5) by (simp add: r s3_def sendf_write_def serial_enable_tx_irq_def)
    moreover have "serial_inv s3 \<and> rx_data s3 = rx_data s2 \<and> tx_data s3 = tx_data s2 @ msg"
      using s2(5) size msg by (intro tx_append [OF s2(1)]) (simp_all add: s3_def)
    moreover from this have "out @ tx_data s3 = tx_data s @ msg"
      by (simp add: s2(3) flip: s1(3))
    ultimately show ?thesis
      using False s2(2) s1(2) by (intro exI [of _ out] exI [of _ s3]) (simp add: msg_def)
  qed
qed

section \<open>Properties\<close>


definition serial_start :: serial where
  "serial_start = serial_static (quiet_env 0) 0 0 ()"

lemma serial_start_inv: "serial_inv serial_start" "rx_data serial_start = []" "tx_data serial_start = []"
  by (simp_all add: serial_inv_def rx_data_def tx_data_def serial_start_def serial_static_def serial_state_static_def
      command_static_def base_static_def sched_static_def board_static_def buffer_sizes)

lemma received_start:
  "serial_inv (fold serial_rx_byte [5, 0x10, 0x81, 0x9d, 0x7e, 6] serial_start)"
  "rx_data (fold serial_rx_byte [5, 0x10, 0x81, 0x9d, 0x7e, 6] serial_start) = [5, 0x10, 0x81, 0x9d, 0x7e, 6]"
  using rx_bytes_data [of serial_start "[5, 0x10, 0x81, 0x9d, 0x7e, 6]"] serial_start_inv
  by (simp_all only: buffer_sizes list.size append_Nil)


text \<open>
  \<open>readb\<close> reads one byte of the 16-bit position. With 256 or more bytes waiting, \<open>rpos - len\<close> can
  be negative; as an unsigned number it is huge, and \<open>memmove\<close> runs over the buffer.
\<close>

lemma console_pop_input_overrun:
  assumes "serial_inv s" "256 \<le> unat (receive_pos (ser s))" "unat (receive_pos (ser s)) < 256 + len" "len \<le> MESSAGE_MAX"
  shows "console_pop_input len arr s = Fault"
proof -
  define r where "r = unat (receive_pos (ser s)) - 256"
  define n where "n = unat (of_nat r - of_nat len :: u32)"
  have r: "readb_receive_pos s = r" "r < len" "len \<le> 64"
    using assms by (auto simp: readb_receive_pos_def r_def unsigned_ucast_eq take_bit_nat_eq_self take_bit_eq_mod
        serial_inv_def buffer_sizes message_defs le_mod_geq)
  have "int n = uint (word_of_int (int r - int len) :: u32)"
    by (simp add: n_def)
  also have "\<dots> = (int r - int len) mod 2 ^ 32"
    unfolding uint_word_of_int by simp
  also have "\<dots> = int r - int len + 2 ^ 32"
    using r by (subst mod_add_self2 [symmetric]) (rule mod_pos_pos_trivial; simp)
  finally have "n \<ge> 4294967232"
    using r by simp
  moreover have "length (receive_buf (ser s)) = 384"
    using assms by (simp add: serial_inv_def buffer_sizes)
  moreover have "unat (of_nat n - of_nat 0 :: u32) = n"
    by (simp add: n_def)
  ultimately show ?thesis
    unfolding console_pop_input_def
    by (subst console_pop_loop.simps) (simp add: r n_def [symmetric] memmove_def Let_def del: of_nat_diff)
qed



text \<open>
  The report of a late timer is longer than its \<open>max_size\<close>: with 81 bytes waiting it is accepted
  and written over the end of the buffer.
\<close>

lemma close_report_overrun:
  assumes "serial_inv s" "unat (transmit_pos (ser s)) = 0" "unat (transmit_max (ser s)) = 81"
  shows "console_sendf (\<lambda>_. 0) 0 close_encoder [U 98, U 0x80000000, U 0x80000000] s = Fault"
proof -
  obtain payload where "command_encodef (\<lambda>_. 0) close_encoder [U 98, U 0x80000000, U 0x80000000] () = Ret (payload, 18) ()"
    using close_report_oversize by blast
  note enc = command_encodef_any_state [OF this, of s] command_encodef_msglen [OF this]
  have "sendf_start s = s"
    using assms by (simp add: sendf_start_def word_le_nat_alt)
  then show ?thesis
    using assms enc
    by (simp add: console_sendf_def Let_def sendf_room_def sendf_write_def close_encoder_def buffer_sizes message_defs
        command_encode_and_frame_def command_add_frame_def)
qed

end
