(* ===== verification/Msgblock.thy ===== *)
theory Msgblock
  imports Command
begin

text \<open>
  \<^verbatim>\<open>src/klipper/klippy/chelper/msgblock.c\<close>, the host side of the message protocol: checking and
  decoding of received blocks, encoding of commands, and the extension of 32-bit clocks.

  The message constants of \<^verbatim>\<open>msgblock.h\<close> have the values of those of the firmware and are not
  repeated. The lists of \<^verbatim>\<open>list.h\<close> are HOL lists. Floating point numbers have an arbitrary type
  \<open>'d\<close>, and the operations of the processor on them are a parameter: what is shown about the host
  code holds for every arithmetic.
\<close>

section \<open>Floating point arithmetic\<close>

record 'd double_ops =
  d_int :: "int \<Rightarrow> 'd"
  d_dec :: "int \<Rightarrow> nat \<Rightarrow> 'd"
  d_trunc :: "'d \<Rightarrow> int"
  d_add :: "'d \<Rightarrow> 'd \<Rightarrow> 'd"
  d_sub :: "'d \<Rightarrow> 'd \<Rightarrow> 'd"
  d_mul :: "'d \<Rightarrow> 'd \<Rightarrow> 'd"
  d_div :: "'d \<Rightarrow> 'd \<Rightarrow> 'd"
  d_less :: "'d \<Rightarrow> 'd \<Rightarrow> bool"
  d_eq :: "'d \<Rightarrow> 'd \<Rightarrow> bool"
  d_abs :: "'d \<Rightarrow> 'd"
  d_sqrt :: "'d \<Rightarrow> 'd"

text \<open>
  \<open>d_int\<close> and \<open>d_trunc\<close> are the conversions from and to integers, \<open>d_dec m k\<close> is the literal with
  the digits \<open>m\<close>, \<open>k\<close> of them after the point.
\<close>

section \<open>Checksum and block check\<close>

definition msgblock_crc_step :: "u16 \<Rightarrow> u8 \<Rightarrow> u16" where
  "msgblock_crc_step crc data =
     (let data = data XOR ucast (crc AND 0xff);
          data = data XOR push_bit 4 data
      in ((push_bit 8 (ucast data) OR drop_bit 8 crc) XOR ucast (drop_bit 4 data))
           XOR push_bit 3 (ucast data))"

definition msgblock_crc16_ccitt :: "u8 list \<Rightarrow> u16" where
  "msgblock_crc16_ccitt buf = foldl msgblock_crc_step 0xffff buf"

text \<open>The code from label \<open>error\<close> on: the result and the new value of \<open>need_sync\<close>.\<close>

definition msgblock_error :: "u8 list \<Rightarrow> int \<times> u8" where
  "msgblock_error buf =
     (if MESSAGE_SYNC \<in> set buf
      then (- (int (length (takeWhile (\<lambda>c. c \<noteq> MESSAGE_SYNC) buf)) + 1), 0)
      else (- int (length buf), 1))"

definition msgblock_check :: "u8 \<Rightarrow> u8 list \<Rightarrow> int \<times> u8" where
  "msgblock_check need_sync buf =
     (if length buf < MESSAGE_MIN then (0, need_sync)
      else if need_sync \<noteq> 0 then msgblock_error buf
      else let msglen = unat (buf ! 0) in
           if msglen < MESSAGE_MIN \<or> msglen > MESSAGE_MAX then msgblock_error buf
           else let msgseq = buf ! 1 in
           if msgseq AND NOT MESSAGE_SEQ_MASK \<noteq> MESSAGE_DEST then msgblock_error buf
           else if length buf < msglen then (0, need_sync)
           else if buf ! (msglen - 1) \<noteq> MESSAGE_SYNC then msgblock_error buf
           else let msgcrc = push_bit 8 (ucast (buf ! (msglen - 3))) OR ucast (buf ! (msglen - 2)) in
           if msgblock_crc16_ccitt (take (msglen - MESSAGE_TRAILER_SIZE) buf) \<noteq> msgcrc then msgblock_error buf
           else (int msglen, need_sync))"

section \<open>Integers\<close>

definition host_encode_int :: "u32 \<Rightarrow> u8 list" where
  "host_encode_int v =
     (let sv = sint v;
          f4 = [ucast (v AND 0x7f)];
          f3 = (ucast (drop_bit 7 v AND 0x7f) OR 0x80) # f4;
          f2 = (ucast (drop_bit 14 v AND 0x7f) OR 0x80) # f3;
          f1 = (ucast (drop_bit 21 v AND 0x7f) OR 0x80) # f2
      in if sv < 3 * 2 ^ 5 \<and> sv \<ge> - (2 ^ 5) then f4
         else if sv < 3 * 2 ^ 12 \<and> sv \<ge> - (2 ^ 12) then f3
         else if sv < 3 * 2 ^ 19 \<and> sv \<ge> - (2 ^ 19) then f2
         else if sv < 3 * 2 ^ 26 \<and> sv \<ge> - (2 ^ 26) then f1
         else (ucast (drop_bit 28 v) OR 0x80) # f1)"

text \<open>A read outside of the message is \<open>None\<close>.\<close>

function host_parse_loop :: "u8 list \<Rightarrow> nat \<Rightarrow> u8 \<Rightarrow> u32 \<Rightarrow> (u32 \<times> nat) option" where
  "host_parse_loop buf p c v =
     (if has c 0x80
      then if p < length buf
           then let c = buf ! p in host_parse_loop buf (p + 1) c (push_bit 7 v OR (ucast c AND 0x7f))
           else None
      else Some (v, p))"
  by pat_completeness auto
termination
  by (relation "measure (\<lambda>(buf, p, c, v). length buf - p)") auto

declare host_parse_loop.simps [simp del]

definition host_parse_int :: "u8 list \<Rightarrow> nat \<Rightarrow> (u32 \<times> nat) option" where
  "host_parse_int buf p =
     (if p < length buf
      then let c = buf ! p;
               v = ucast c AND 0x7f;
               v = (if c AND 0x60 = 0x60 then v OR - 0x20 else v)
           in host_parse_loop buf (p + 1) c v
      else None)"

text \<open>\<open>msgblock_decode\<close>: the result and the integers stored in \<open>data\<close>.\<close>

primrec decode_loop :: "nat \<Rightarrow> u8 list \<Rightarrow> nat \<Rightarrow> nat \<Rightarrow> u32 list \<Rightarrow> (int \<times> u32 list) option" where
  "decode_loop 0 msg p e data = Some (if p \<noteq> e then - 1 else 0, data)"
| "decode_loop (Suc n) msg p e data =
     (if p \<ge> e then Some (- 1, data)
      else case host_parse_int msg p of
             None \<Rightarrow> None
           | Some (v, p) \<Rightarrow> decode_loop n msg p e (data @ [v]))"

definition msgblock_decode :: "nat \<Rightarrow> u8 list \<Rightarrow> nat \<Rightarrow> (int \<times> u32 list) option" where
  "msgblock_decode data_len msg msg_len =
     decode_loop data_len msg MESSAGE_HEADER_SIZE (msg_len - MESSAGE_TRAILER_SIZE) []"

section \<open>Messages\<close>

text \<open>
  \<open>qm_msg\<close> are the first \<open>len\<close> bytes of the array \<open>msg\<close>. The two halves of the union are separate
  fields: the code reads each only after it has set it.
\<close>

record 'd queue_message =
  qm_msg :: "u8 list"
  qm_min_clock :: u64
  qm_req_clock :: u64
  qm_sent_time :: 'd
  qm_receive_time :: 'd
  qm_notify_id :: u64

definition MESSAGE_PAYLOAD_MAX :: nat where "MESSAGE_PAYLOAD_MAX = MESSAGE_MAX - MESSAGE_MIN"

definition message_alloc :: "'d double_ops \<Rightarrow> 'd queue_message" where
  "message_alloc fp = \<lparr>qm_msg = [], qm_min_clock = 0, qm_req_clock = 0, qm_sent_time = d_int fp 0,
     qm_receive_time = d_int fp 0, qm_notify_id = 0\<rparr>"

text \<open>\<open>None\<close> where the copy overruns the array of the message.\<close>

definition message_fill :: "'d double_ops \<Rightarrow> u8 list \<Rightarrow> 'd queue_message option" where
  "message_fill fp data = (if length data > MESSAGE_MAX then None else Some ((message_alloc fp)\<lparr>qm_msg := data\<rparr>))"

text \<open>The loop of \<open>message_alloc_and_encode\<close>; \<open>None\<close> is the jump to \<open>fail\<close>.\<close>

fun encode_loop :: "u8 list \<Rightarrow> u32 list \<Rightarrow> u8 list option" where
  "encode_loop p [] = Some p"
| "encode_loop p (v # vs) =
     (let p = p @ host_encode_int v in if length p > MESSAGE_PAYLOAD_MAX then None else encode_loop p vs)"

definition message_alloc_and_encode :: "'d double_ops \<Rightarrow> u32 list \<Rightarrow> 'd queue_message" where
  "message_alloc_and_encode fp data =
     (message_alloc fp)\<lparr>qm_msg := (case encode_loop [] data of Some p \<Rightarrow> p | None \<Rightarrow> [])\<rparr>"

section \<open>Clocks\<close>

record 'd clock_estimate =
  last_clock :: u64
  conv_clock :: u64
  conv_time :: 'd
  est_freq :: 'd

definition clock_from_clock32 :: "'d clock_estimate \<Rightarrow> u32 \<Rightarrow> u64" where
  "clock_from_clock32 ce clock32 = last_clock ce + scast (ucast (ucast clock32 - last_clock ce) :: u32)"

definition clock_to_time :: "'d double_ops \<Rightarrow> 'd clock_estimate \<Rightarrow> u64 \<Rightarrow> 'd" where
  "clock_to_time fp ce clock =
     d_add fp (conv_time ce) (d_div fp (d_int fp (sint (clock - conv_clock ce))) (est_freq ce))"

definition clock_from_time :: "'d double_ops \<Rightarrow> 'd clock_estimate \<Rightarrow> 'd \<Rightarrow> u64" where
  "clock_from_time fp ce time =
     word_of_int (d_trunc fp (d_add fp (d_mul fp (d_sub fp time (conv_time ce)) (est_freq ce)) (d_dec fp 5 1))) + conv_clock ce"

end
