(* ===== verification/Serialqueue.thy ===== *)
theory Serialqueue
  imports Msgblock
begin

text \<open>
  \<^verbatim>\<open>src/klipper/klippy/chelper/serialqueue.c\<close>: the host side of the serial link, with sequence
  numbers, acknowledgements, retransmission and the queues of commands to send.

  The background thread holds the lock in every handler, so a handler is one step. The two timers
  of the poll reactor are fields; what the handlers write to the line is appended to \<open>written\<close>, and
  what they read is an argument. Command queues are named by numbers. \<open>None\<close> stands for an access
  outside of an array or through a null pointer.
\<close>

section \<open>State\<close>

datatype sq_type = SQT_UART | SQT_CAN | SQT_DEBUGFILE

record 'd command_queue =
  upcoming_queue :: "'d queue_message list"
  ready_queue :: "'d queue_message list"

record fastreader =
  fr_id :: nat
  fr_prefix :: "u8 list"

text \<open>\<open>input_buf\<close> holds the first \<open>input_pos\<close> bytes of the input buffer.\<close>

record 'd serialqueue =
  serial_fd_type :: sq_type
  client_id :: u32
  input_buf :: "u8 list"
  need_sync :: u8
  receive_waiting :: bool
  receive_window :: int
  bittime_adjust :: 'd
  idle_time :: 'd
  ce :: "'d clock_estimate"
  last_receive_sent_time :: 'd
  send_seq :: u64
  receive_seq :: u64
  ignore_nak_seq :: u64
  last_ack_seq :: u64
  retransmit_seq :: u64
  rtt_sample_seq :: u64
  sent_queue :: "'d queue_message list"
  srtt :: 'd
  rttvar :: 'd
  rto :: 'd
  pending_queues :: "nat list"
  cqs :: "nat \<Rightarrow> 'd command_queue"
  ready_bytes :: int
  upcoming_bytes :: int
  need_ack_bytes :: int
  last_ack_bytes :: int
  need_kick_clock :: u64
  notify_queue :: "'d queue_message list"
  receive_queue :: "'d queue_message list"
  fast_readers :: "fastreader list"
  old_sent :: "'d queue_message list"
  old_receive :: "'d queue_message list"
  bytes_write :: u32
  bytes_read :: u32
  bytes_retransmit :: u32
  bytes_invalid :: u32
  timer_retransmit :: 'd
  timer_command :: 'd
  must_exit :: bool
  kicked :: bool
  fast_calls :: "(nat \<times> u8 list) list"
  written :: "u8 list list"

abbreviation "qm_len qm \<equiv> int (length (qm_msg qm))"

definition PR_NOW :: "'d double_ops \<Rightarrow> 'd" where "PR_NOW fp = d_dec fp 0 0"
definition PR_NEVER :: "'d double_ops \<Rightarrow> 'd" where "PR_NEVER fp = d_dec fp 9999999999999999 0"
definition MIN_RTO :: "'d double_ops \<Rightarrow> 'd" where "MIN_RTO fp = d_dec fp 25 3"
definition MAX_RTO :: "'d double_ops \<Rightarrow> 'd" where "MAX_RTO fp = d_dec fp 5000 3"
definition MIN_REQTIME_DELTA :: "'d double_ops \<Rightarrow> 'd" where "MIN_REQTIME_DELTA fp = d_dec fp 250 3"
definition MIN_BACKGROUND_DELTA :: "'d double_ops \<Rightarrow> 'd" where "MIN_BACKGROUND_DELTA fp = d_dec fp 5 3"
definition MAX_PENDING_BLOCKS :: nat where "MAX_PENDING_BLOCKS = 12"
definition DEBUG_QUEUE_SENT :: nat where "DEBUG_QUEUE_SENT = 100"
definition DEBUG_QUEUE_RECEIVE :: nat where "DEBUG_QUEUE_RECEIVE = 100"
definition MAX_CLOCK :: u64 where "MAX_CLOCK = 0x7fffffffffffffff"
definition BACKGROUND_PRIORITY_CLOCK :: u64 where "BACKGROUND_PRIORITY_CLOCK = 0x7fffffff00000000"
definition CANBUS_PACKET_BITS :: u32 where "CANBUS_PACKET_BITS = (1 + 11 + 3 + 4) + (16 + 2 + 7 + 3)"
definition CANBUS_IFS_BITS :: u32 where "CANBUS_IFS_BITS = 4"
definition INPUT_BUF_SIZE :: nat where "INPUT_BUF_SIZE = 4096"

section \<open>Helpers\<close>

definition debug_queue_alloc :: "'d double_ops \<Rightarrow> nat \<Rightarrow> 'd queue_message list \<Rightarrow> 'd queue_message list" where
  "debug_queue_alloc fp count root = replicate count (message_alloc fp) @ root"

definition debug_queue_add :: "'d queue_message \<Rightarrow> 'd queue_message list \<Rightarrow> 'd queue_message list" where
  "debug_queue_add qm root = tl (root @ [qm])"

definition check_wake_receive :: "'d serialqueue \<Rightarrow> 'd serialqueue" where
  "check_wake_receive sq = (if receive_waiting sq then sq\<lparr>receive_waiting := False\<rparr> else sq)"

definition kick_bg_thread :: "'d serialqueue \<Rightarrow> 'd serialqueue" where
  "kick_bg_thread sq = sq\<lparr>kicked := True\<rparr>"

definition calculate_bittime :: "'d double_ops \<Rightarrow> u32 \<Rightarrow> 'd serialqueue \<Rightarrow> 'd" where
  "calculate_bittime fp bytes sq =
     (if serial_fd_type sq = SQT_CAN
      then let pkts = (bytes + 8 - 1) div 8;
               bits = bytes * 8 + pkts * CANBUS_PACKET_BITS - CANBUS_IFS_BITS
           in d_mul fp (bittime_adjust sq) (d_int fp (uint bits))
      else d_mul fp (bittime_adjust sq) (d_int fp (uint bytes)))"

section \<open>Acknowledgements\<close>

text \<open>The loop that removes acknowledged blocks from the sent queue.\<close>

fun remove_sent :: "'d double_ops \<Rightarrow> u64 \<Rightarrow> u64 \<Rightarrow> 'd queue_message list \<Rightarrow> 'd serialqueue \<Rightarrow> 'd serialqueue" where
  "remove_sent fp rseq sent_seq [] sq = sq\<lparr>sent_queue := [], send_seq := rseq, last_receive_sent_time := d_dec fp 0 0\<rparr>"
| "remove_sent fp rseq sent_seq (snt # rest) sq =
     (let sq = sq\<lparr>need_ack_bytes := need_ack_bytes sq - qm_len snt, sent_queue := rest, old_sent := debug_queue_add snt (old_sent sq)\<rparr>;
          sent_seq = sent_seq + 1
      in if rseq = sent_seq
         then sq\<lparr>last_receive_sent_time := qm_receive_time snt, last_ack_bytes := qm_len snt\<rparr>
         else remove_sent fp rseq sent_seq rest sq)"

text \<open>The update of the round trip estimate.\<close>

definition update_rtt :: "'d double_ops \<Rightarrow> 'd \<Rightarrow> u64 \<Rightarrow> 'd serialqueue \<Rightarrow> 'd serialqueue" where
  "update_rtt fp eventtime rseq sq =
     (if rtt_sample_seq sq \<noteq> 0 \<and> rseq > rtt_sample_seq sq \<and> \<not> d_eq fp (last_receive_sent_time sq) (d_dec fp 0 0)
      then let delta = d_sub fp eventtime (last_receive_sent_time sq);
               sq = (if d_eq fp (srtt sq) (d_dec fp 0 0)
                     then sq\<lparr>rttvar := d_div fp delta (d_dec fp 20 1), srtt := d_mul fp delta (d_dec fp 100 1)\<rparr>
                     else let sq = sq\<lparr>rttvar := d_div fp (d_add fp (d_mul fp (d_dec fp 30 1) (rttvar sq))
                                                           (d_abs fp (d_sub fp (srtt sq) delta))) (d_dec fp 40 1)\<rparr>
                          in sq\<lparr>srtt := d_div fp (d_add fp (d_mul fp (d_dec fp 70 1) (srtt sq)) delta) (d_dec fp 80 1)\<rparr>);
               rttvar4 = d_mul fp (rttvar sq) (d_dec fp 40 1);
               rttvar4 = (if d_less fp rttvar4 (d_dec fp 1 3) then d_dec fp 1 3 else rttvar4);
               sq = sq\<lparr>rto := d_add fp (srtt sq) rttvar4\<rparr>;
               sq = (if d_less fp (rto sq) (MIN_RTO fp) then sq\<lparr>rto := MIN_RTO fp\<rparr>
                     else if d_less fp (MAX_RTO fp) (rto sq) then sq\<lparr>rto := MAX_RTO fp\<rparr>
                     else sq)
           in sq\<lparr>rtt_sample_seq := 0\<rparr>
      else sq)"

definition update_receive_seq :: "'d double_ops \<Rightarrow> 'd \<Rightarrow> u64 \<Rightarrow> 'd serialqueue \<Rightarrow> 'd serialqueue" where
  "update_receive_seq fp eventtime rseq sq =
     (let sq = remove_sent fp rseq (receive_seq sq) (sent_queue sq) sq;
          sq = sq\<lparr>receive_seq := rseq, timer_command := PR_NOW fp\<rparr>;
          sq = update_rtt fp eventtime rseq sq
      in case sent_queue sq of
           [] \<Rightarrow> sq\<lparr>timer_retransmit := PR_NEVER fp\<rparr>
         | snt # _ \<Rightarrow>
             sq\<lparr>timer_retransmit := d_add fp (d_add fp eventtime (rto sq)) (calculate_bittime fp (of_int (qm_len snt)) sq)\<rparr>)"

text \<open>The loop over the notifications: the new state and \<open>must_wake\<close>.\<close>

fun notify_loop :: "'d double_ops \<Rightarrow> 'd \<Rightarrow> u64 \<Rightarrow> 'd queue_message list \<Rightarrow> bool \<Rightarrow> 'd serialqueue \<Rightarrow> bool \<times> 'd serialqueue" where
  "notify_loop fp eventtime wake_seq [] must_wake sq = (must_wake, sq)"
| "notify_loop fp eventtime wake_seq (qm # rest) must_wake sq =
     (if qm_req_clock qm > wake_seq then (must_wake, sq)
      else let qm = qm\<lparr>qm_msg := [], qm_sent_time := last_receive_sent_time sq, qm_receive_time := eventtime\<rparr>
           in notify_loop fp eventtime wake_seq rest True (sq\<lparr>notify_queue := rest, receive_queue := receive_queue sq @ [qm]\<rparr>))"

text \<open>The part of \<open>handle_message\<close> from \<open>Process message\<close> on; \<open>now\<close> is the time read after the input.\<close>

definition process_message :: "'d double_ops \<Rightarrow> 'd \<Rightarrow> u64 \<Rightarrow> nat \<Rightarrow> bool \<Rightarrow> 'd serialqueue \<Rightarrow> (bool \<times> 'd serialqueue) option" where
  "process_message fp now rseq len must_wake sq =
     (if len = MESSAGE_MIN
      then Some (must_wake,
             if last_ack_seq sq < rseq then sq\<lparr>last_ack_seq := rseq\<rparr>
             else if rseq > ignore_nak_seq sq \<and> sent_queue sq \<noteq> [] then sq\<lparr>timer_retransmit := PR_NOW fp\<rparr>
             else sq)
      else map_option (\<lambda>qm.
             let qm = qm\<lparr>qm_sent_time := (if rseq > retransmit_seq sq then last_receive_sent_time sq else d_dec fp 0 0),
                         qm_receive_time := d_sub fp now (calculate_bittime fp (of_nat len) sq)\<rparr>
             in (True, sq\<lparr>receive_queue := receive_queue sq @ [qm]\<rparr>))
             (message_fill fp (take len (input_buf sq))))"

definition check_fast_readers :: "nat \<Rightarrow> 'd serialqueue \<Rightarrow> 'd serialqueue" where
  "check_fast_readers len sq =
     (case find (\<lambda>fr. \<not> (len < length (fr_prefix fr) + MESSAGE_MIN \<or>
                      take (length (fr_prefix fr)) (drop MESSAGE_HEADER_SIZE (input_buf sq)) \<noteq> fr_prefix fr)) (fast_readers sq) of
        None \<Rightarrow> sq
      | Some fr \<Rightarrow> sq\<lparr>fast_calls := fast_calls sq @ [(fr_id fr, take len (input_buf sq))]\<rparr>)"

definition handle_message :: "'d double_ops \<Rightarrow> 'd \<Rightarrow> 'd \<Rightarrow> nat \<Rightarrow> 'd serialqueue \<Rightarrow> 'd serialqueue option" where
  "handle_message fp now eventtime len sq =
     (let rseq_delta = (ucast (input_buf sq ! 1) - receive_seq sq) AND ucast MESSAGE_SEQ_MASK;
          rseq = receive_seq sq + rseq_delta
      in if rseq \<noteq> receive_seq sq \<and> rseq > send_seq sq \<and> receive_seq sq \<noteq> 1
         then Some (sq\<lparr>bytes_invalid := bytes_invalid sq + of_nat len\<rparr>)
         else let sq = (if rseq \<noteq> receive_seq sq then update_receive_seq fp eventtime rseq sq else sq);
                  sq = sq\<lparr>bytes_read := bytes_read sq + of_nat len\<rparr>;
                  wake_seq = rseq - 1 - (if len > MESSAGE_MIN then 1 else 0);
                  (must_wake, sq) = notify_loop fp eventtime wake_seq (notify_queue sq) False sq
              in map_option (\<lambda>(must_wake, sq). check_fast_readers len (if must_wake then check_wake_receive sq else sq))
                   (process_message fp now rseq len must_wake sq))"

section \<open>Input\<close>

lemma msgblock_check_progress:
  assumes "msgblock_check ns buf = (len, ns')" "len \<noteq> 0"
  shows "buf \<noteq> []" "0 < nat \<bar>len\<bar>"
  using assms by (auto simp: msgblock_check_def msgblock_error_def Let_def message_defs split: if_splits)

function input_loop :: "'d double_ops \<Rightarrow> 'd \<Rightarrow> 'd \<Rightarrow> 'd serialqueue \<Rightarrow> 'd serialqueue option" where
  "input_loop fp now eventtime sq =
     (case msgblock_check (need_sync sq) (input_buf sq) of (len, ns) \<Rightarrow>
        if len = 0 then Some (sq\<lparr>need_sync := ns\<rparr>)
        else Option.bind
               (if len > 0 then handle_message fp now eventtime (nat len) (sq\<lparr>need_sync := ns\<rparr>)
                else Some (sq\<lparr>need_sync := ns, bytes_invalid := bytes_invalid sq + of_int (- len)\<rparr>))
               (\<lambda>sq'. input_loop fp now eventtime (sq'\<lparr>input_buf := drop (nat \<bar>len\<bar>) (input_buf sq)\<rparr>)))"
  by pat_completeness auto
termination
  by (relation "measure (\<lambda>(fp, now, eventtime, sq). length (input_buf sq))") (auto dest: msgblock_check_progress [OF sym])

declare input_loop.simps [simp del]

text \<open>What \<open>read\<close> returns: nothing (an error or the end of the input), bytes of the port, or a CAN frame.\<close>

datatype input = Read_failed | Serial_data "u8 list" | Can_frame u32 "u8 list"

definition input_event :: "'d double_ops \<Rightarrow> 'd \<Rightarrow> input \<Rightarrow> 'd \<Rightarrow> 'd serialqueue \<Rightarrow> 'd serialqueue option" where
  "input_event fp now inp eventtime sq =
     (case inp of
        Read_failed \<Rightarrow> Some (sq\<lparr>must_exit := True\<rparr>)
      | Serial_data bs \<Rightarrow>
          if length (input_buf sq) + length bs > INPUT_BUF_SIZE then None
          else input_loop fp now eventtime (sq\<lparr>input_buf := input_buf sq @ bs\<rparr>)
      | Can_frame cid bs \<Rightarrow>
          if cid \<noteq> client_id sq + 1 then Some sq
          else if length (input_buf sq) + length bs > INPUT_BUF_SIZE then None
          else input_loop fp now eventtime (sq\<lparr>input_buf := input_buf sq @ bs\<rparr>))"

definition kick_event :: "'d double_ops \<Rightarrow> 'd serialqueue \<Rightarrow> 'd serialqueue" where
  "kick_event fp sq = sq\<lparr>kicked := False, timer_command := PR_NOW fp\<rparr>"

section \<open>Output\<close>

text \<open>A CAN frame carries at most eight bytes. Errors of \<open>write\<close> are not modelled.\<close>

function can_frames :: "u8 list \<Rightarrow> u8 list list" where
  "can_frames buf = (if buf = [] then [] else take 8 buf # can_frames (drop 8 buf))"
  by pat_completeness auto
termination
  by (relation "measure length") auto

declare can_frames.simps [simp del]

definition do_write :: "u8 list \<Rightarrow> 'd serialqueue \<Rightarrow> 'd serialqueue" where
  "do_write buf sq = sq\<lparr>written := written sq @ (if serial_fd_type sq = SQT_CAN then can_frames buf else [buf])\<rparr>"

definition retransmit_event :: "'d double_ops \<Rightarrow> 'd \<Rightarrow> 'd serialqueue \<Rightarrow> ('d \<times> 'd serialqueue) option" where
  "retransmit_event fp eventtime sq =
     (let buf = MESSAGE_SYNC # concat (map qm_msg (sent_queue sq));
          first_buflen = (case filter (\<lambda>qm. qm_msg qm \<noteq> []) (sent_queue sq) of [] \<Rightarrow> 0 | qm # _ \<Rightarrow> length (qm_msg qm) + 1)
      in if length buf > MESSAGE_MAX * MAX_PENDING_BLOCKS + 1 then None
         else let sq = do_write buf sq;
                  sq = sq\<lparr>bytes_retransmit := bytes_retransmit sq + of_nat (length buf)\<rparr>;
                  sq = (if d_eq fp (timer_retransmit sq) (PR_NOW fp)
                        then let sq = sq\<lparr>ignore_nak_seq := receive_seq sq\<rparr>
                             in if receive_seq sq < retransmit_seq sq then sq\<lparr>ignore_nak_seq := retransmit_seq sq\<rparr> else sq
                        else let sq = sq\<lparr>rto := d_mul fp (rto sq) (d_dec fp 20 1)\<rparr>;
                                 sq = (if d_less fp (MAX_RTO fp) (rto sq) then sq\<lparr>rto := MAX_RTO fp\<rparr> else sq)
                             in sq\<lparr>ignore_nak_seq := send_seq sq\<rparr>);
                  sq = sq\<lparr>retransmit_seq := send_seq sq, rtt_sample_seq := 0,
                          idle_time := d_add fp eventtime (calculate_bittime fp (of_nat (length buf)) sq)\<rparr>;
                  waketime = d_add fp (d_add fp eventtime (rto sq)) (calculate_bittime fp (of_nat first_buflen) sq)
              in Some (waketime, sq))"

text \<open>The ready message with the lowest \<open>req_clock\<close>, and its queue.\<close>

fun find_ready :: "'d serialqueue \<Rightarrow> nat list \<Rightarrow> u64 \<Rightarrow> (nat \<times> 'd queue_message) option \<Rightarrow> (nat \<times> 'd queue_message) option" where
  "find_ready sq [] min_clock best = best"
| "find_ready sq (q # qs) min_clock best =
     (case ready_queue (cqs sq q) of
        [] \<Rightarrow> find_ready sq qs min_clock best
      | m # _ \<Rightarrow> if qm_req_clock m < min_clock then find_ready sq qs (qm_req_clock m) (Some (q, m))
                 else find_ready sq qs min_clock best)"

definition take_ready :: "nat \<Rightarrow> 'd queue_message \<Rightarrow> 'd serialqueue \<Rightarrow> 'd serialqueue" where
  "take_ready cq qm sq =
     (let sq = sq\<lparr>cqs := upd (cqs sq) cq (\<lambda>c. c\<lparr>ready_queue := tl (ready_queue c)\<rparr>)\<rparr>;
          sq = (if ready_queue (cqs sq cq) = [] \<and> upcoming_queue (cqs sq cq) = []
                then sq\<lparr>pending_queues := remove1 cq (pending_queues sq)\<rparr> else sq);
          sq = sq\<lparr>ready_bytes := ready_bytes sq - qm_len qm\<rparr>
      in if qm_notify_id qm \<noteq> 0 then sq\<lparr>notify_queue := notify_queue sq @ [qm\<lparr>qm_req_clock := send_seq sq\<rparr>]\<rparr> else sq)"

lemma find_ready_in:
  "find_ready sq qs mc best = Some (q, m) \<Longrightarrow>
     best = Some (q, m) \<or> q \<in> set qs \<and> (\<exists>ms. ready_queue (cqs sq q) = m # ms)"
  by (induction sq qs mc best rule: find_ready.induct) (auto split: list.splits if_splits)

definition ready_count :: "'d serialqueue \<Rightarrow> nat" where
  "ready_count sq = sum_list (map (\<lambda>q. length (ready_queue (cqs sq q))) (pending_queues sq))"

lemma sum_list_strict:
  fixes f g :: "'a \<Rightarrow> nat"
  assumes "q \<in> set qs" "f q < g q" "\<forall>x. f x \<le> g x"
  shows "sum_list (map f qs) < sum_list (map g qs)"
  using assms(1)
proof (induction qs)
  case (Cons x qs)
  have le: "sum_list (map f qs) \<le> sum_list (map g qs)"
    using assms(3) by (intro sum_list_mono) simp
  show ?case
  proof (cases "x = q")
    case True
    then show ?thesis
      using le assms(2) by simp
  next
    case False
    then have "sum_list (map f qs) < sum_list (map g qs)"
      using Cons by simp
    then show ?thesis
      using spec [OF assms(3), of x] by simp
  qed
qed simp

lemma sum_list_remove1: "sum_list (map f (remove1 q qs)) \<le> sum_list (map f qs :: nat list)"
  by (induction qs) auto

lemma take_ready_count:
  assumes "q \<in> set (pending_queues sq)" "ready_queue (cqs sq q) = m # ms"
  shows "ready_count (take_ready q m sq) < ready_count sq"
proof -
  let ?c = "upd (cqs sq) q (\<lambda>c. c\<lparr>ready_queue := tl (ready_queue c)\<rparr>)"
  let ?f = "\<lambda>x. length (ready_queue (?c x))"
  have "sum_list (map ?f (pending_queues sq)) < ready_count sq"
    unfolding ready_count_def using assms by (intro sum_list_strict [of q]) (auto simp: upd_def)
  moreover have "ready_count (take_ready q m sq) \<le> sum_list (map ?f (pending_queues sq))"
    using sum_list_remove1 [of ?f q "pending_queues sq"] by (simp add: ready_count_def take_ready_def Let_def)
  ultimately show ?thesis by simp
qed

text \<open>The loop that collects the commands of a block. The command with the lowest clock must exist.\<close>

function build_loop :: "u8 list \<Rightarrow> 'd serialqueue \<Rightarrow> (u8 list \<times> 'd serialqueue) option" where
  "build_loop payload sq =
     (if ready_bytes sq \<noteq> 0
      then case find_ready sq (pending_queues sq) MAX_CLOCK None of
             None \<Rightarrow> None
           | Some (cq, qm) \<Rightarrow>
               if MESSAGE_HEADER_SIZE + length payload + length (qm_msg qm) > MESSAGE_MAX - MESSAGE_TRAILER_SIZE
               then Some (payload, sq)
               else build_loop (payload @ qm_msg qm) (take_ready cq qm sq)
      else Some (payload, sq))"
  by pat_completeness auto
termination
  by (relation "measure (\<lambda>(payload, sq). ready_count sq)") (auto intro: take_ready_count dest!: find_ready_in)

declare build_loop.simps [simp del]

definition host_block :: "u64 \<Rightarrow> u8 list \<Rightarrow> u8 list" where
  "host_block seq payload =
     (let len = MESSAGE_HEADER_SIZE + length payload + MESSAGE_TRAILER_SIZE;
          buf = of_nat len # (MESSAGE_DEST OR ucast (seq AND ucast MESSAGE_SEQ_MASK)) # payload;
          crc = msgblock_crc16_ccitt buf
      in buf @ [ucast (drop_bit 8 crc), ucast (crc AND 0xff), MESSAGE_SYNC])"

definition build_and_send_command ::
  "'d double_ops \<Rightarrow> nat \<Rightarrow> 'd \<Rightarrow> 'd serialqueue \<Rightarrow> (u8 list \<times> 'd serialqueue) option" where
  "build_and_send_command fp pending eventtime sq =
     map_option (\<lambda>(payload, sq).
       let buf = host_block (send_seq sq) payload;
           idletime = (if d_less fp (idle_time sq) eventtime then eventtime else idle_time sq);
           idletime = d_add fp idletime (calculate_bittime fp (of_nat (pending + length buf)) sq);
           out = (message_alloc fp)\<lparr>qm_msg := buf, qm_sent_time := eventtime, qm_receive_time := idletime\<rparr>;
           sq = (if sent_queue sq = [] then sq\<lparr>timer_retransmit := d_add fp idletime (rto sq)\<rparr> else sq);
           sq = (if rtt_sample_seq sq = 0 then sq\<lparr>rtt_sample_seq := send_seq sq\<rparr> else sq)
       in (buf, sq\<lparr>send_seq := send_seq sq + 1, need_ack_bytes := need_ack_bytes sq + int (length buf),
                   sent_queue := sent_queue sq @ [out]\<rparr>))
       (build_loop [] sq)"

section \<open>When to send\<close>

text \<open>
  The upcoming messages of a queue whose time has come: the messages that stay, those that become
  ready, and the new \<open>min_stalled_clock\<close>.
\<close>

fun split_upcoming :: "u64 \<Rightarrow> u64 \<Rightarrow> 'd queue_message list \<Rightarrow> 'd queue_message list \<times> 'd queue_message list \<times> u64" where
  "split_upcoming ack_clock stalled [] = ([], [], stalled)"
| "split_upcoming ack_clock stalled (qm # qms) =
     (if ack_clock < qm_min_clock qm
      then (qm # qms, [], if qm_min_clock qm < stalled then qm_min_clock qm else stalled)
      else case split_upcoming ack_clock stalled qms of (stay, go, stalled) \<Rightarrow> (stay, qm # go, stalled))"

fun scan_queues ::
  "'d double_ops \<Rightarrow> 'd \<Rightarrow> bool \<Rightarrow> u64 \<Rightarrow> nat list \<Rightarrow> u64 \<Rightarrow> u64 \<Rightarrow> 'd serialqueue \<Rightarrow> u64 \<times> u64 \<times> 'd serialqueue" where
  "scan_queues fp idletime pending ack_clock [] stalled ready sq = (stalled, ready, sq)"
| "scan_queues fp idletime pending ack_clock (q # qs) stalled ready sq =
     (let (stay, go, stalled) = split_upcoming ack_clock stalled (upcoming_queue (cqs sq q));
          bytes = sum_list (map qm_len go);
          sq = sq\<lparr>cqs := upd (cqs sq) q (\<lambda>c. c\<lparr>upcoming_queue := stay, ready_queue := ready_queue c @ go\<rparr>),
                  upcoming_bytes := upcoming_bytes sq - bytes, ready_bytes := ready_bytes sq + bytes\<rparr>;
          ready = (case ready_queue (cqs sq q) of
                     [] \<Rightarrow> ready
                   | qm # _ \<Rightarrow>
                       let bgtime = (if pending then idletime else idle_time sq);
                           bgoffset = d_add fp (MIN_REQTIME_DELTA fp) (MIN_BACKGROUND_DELTA fp);
                           req_clock = (if qm_req_clock qm = BACKGROUND_PRIORITY_CLOCK
                                        then clock_from_time fp (ce sq) (d_add fp bgtime bgoffset) else qm_req_clock qm)
                       in if req_clock < ready then req_clock else ready)
      in scan_queues fp idletime pending ack_clock qs stalled ready sq)"

definition check_send_command :: "'d double_ops \<Rightarrow> nat \<Rightarrow> 'd \<Rightarrow> 'd serialqueue \<Rightarrow> 'd \<times> 'd serialqueue" where
  "check_send_command fp pending eventtime sq =
     (if send_seq sq - receive_seq sq \<ge> of_nat MAX_PENDING_BLOCKS \<and> receive_seq sq \<noteq> - 1 then (PR_NEVER fp, sq)
      else if send_seq sq > receive_seq sq \<and> receive_window sq \<noteq> 0 \<and>
              need_ack_bytes sq + int MESSAGE_MAX + (if last_ack_seq sq < receive_seq sq then last_ack_bytes sq else 0)
                > receive_window sq
      then (PR_NEVER fp, sq)
      else let idletime = (if d_less fp (idle_time sq) eventtime then eventtime else idle_time sq);
               idletime = d_add fp idletime (calculate_bittime fp (of_nat (pending + MESSAGE_MIN)) sq);
               ack_clock = clock_from_time fp (ce sq) idletime;
               (stalled, ready, sq) = scan_queues fp idletime (pending \<noteq> 0) ack_clock (pending_queues sq) MAX_CLOCK MAX_CLOCK sq
           in if ready_bytes sq \<ge> int MESSAGE_PAYLOAD_MAX then (PR_NOW fp, sq)
              else if d_eq fp (est_freq (ce sq)) (d_dec fp 0 0)
              then if ready_bytes sq \<noteq> 0 then (PR_NOW fp, sq)
                   else (PR_NEVER fp, sq\<lparr>need_kick_clock := MAX_CLOCK\<rparr>)
              else let reqclock_delta = word_of_int (d_trunc fp (d_mul fp (MIN_REQTIME_DELTA fp) (est_freq (ce sq))))
                   in if ready \<le> ack_clock + reqclock_delta then (PR_NOW fp, sq)
                      else let wantclock = ready - reqclock_delta;
                               wantclock = (if stalled < wantclock then stalled else wantclock)
                           in (d_add fp idletime (d_div fp (d_int fp (uint (wantclock - ack_clock))) (est_freq (ce sq))),
                               sq\<lparr>need_kick_clock := wantclock\<rparr>))"

definition write_blocks :: "'d double_ops \<Rightarrow> 'd \<Rightarrow> u8 list \<Rightarrow> 'd serialqueue \<Rightarrow> 'd serialqueue" where
  "write_blocks fp eventtime buf sq =
     (if buf = [] then sq
      else let sq = do_write buf sq;
               sq = sq\<lparr>bytes_write := bytes_write sq + of_nat (length buf)\<rparr>;
               idletime = (if d_less fp (idle_time sq) eventtime then eventtime else idle_time sq)
           in sq\<lparr>idle_time := d_add fp idletime (calculate_bittime fp (of_nat (length buf)) sq)\<rparr>)"

text \<open>
  The loop of \<open>command_event\<close>, with \<open>buf\<close> the blocks that are not yet written. It need not end: in
  debug file mode no acknowledgement is awaited.
\<close>

partial_function (option) command_loop ::
  "'d double_ops \<Rightarrow> 'd \<Rightarrow> u8 list \<Rightarrow> 'd serialqueue \<Rightarrow> ('d \<times> 'd serialqueue) option" where
  [code]: "command_loop fp eventtime buf sq =
     (case check_send_command fp (length buf) eventtime sq of (wt, sq) \<Rightarrow>
        if \<not> d_eq fp wt (PR_NOW fp) then Some (wt, write_blocks fp eventtime buf sq)
        else let full = (length buf + MESSAGE_MAX > MESSAGE_MAX * MAX_PENDING_BLOCKS);
                 sq = (if full then write_blocks fp eventtime buf sq else sq);
                 buf = (if full then [] else buf)
             in case build_and_send_command fp (length buf) eventtime sq of
                  None \<Rightarrow> None
                | Some (block, sq) \<Rightarrow> command_loop fp eventtime (buf @ block) sq)"

definition command_event :: "'d double_ops \<Rightarrow> 'd \<Rightarrow> 'd serialqueue \<Rightarrow> ('d \<times> 'd serialqueue) option" where
  "command_event fp eventtime sq = command_loop fp eventtime [] sq"

section \<open>Interface\<close>

definition serialqueue_alloc :: "'d double_ops \<Rightarrow> sq_type \<Rightarrow> u32 \<Rightarrow> 'd serialqueue" where
  "serialqueue_alloc fp ty cid =
     \<lparr>serial_fd_type = ty, client_id = cid, input_buf = [], need_sync = 0, receive_waiting = False, receive_window = 0,
      bittime_adjust = d_int fp 0, idle_time = d_int fp 0,
      ce = \<lparr>last_clock = 0, conv_clock = 0, conv_time = d_int fp 0, est_freq = d_int fp 0\<rparr>,
      last_receive_sent_time = d_int fp 0, send_seq = 1, receive_seq = (if ty = SQT_DEBUGFILE then - 1 else 1),
      ignore_nak_seq = 0, last_ack_seq = 0, retransmit_seq = 0, rtt_sample_seq = 0, sent_queue = [],
      srtt = d_int fp 0, rttvar = d_int fp 0, rto = (if ty = SQT_DEBUGFILE then PR_NEVER fp else MIN_RTO fp),
      pending_queues = [], cqs = (\<lambda>_. \<lparr>upcoming_queue = [], ready_queue = []\<rparr>),
      ready_bytes = 0, upcoming_bytes = 0, need_ack_bytes = 0, last_ack_bytes = 0, need_kick_clock = MAX_CLOCK,
      notify_queue = [], receive_queue = [], fast_readers = [],
      old_sent = debug_queue_alloc fp DEBUG_QUEUE_SENT [], old_receive = debug_queue_alloc fp DEBUG_QUEUE_RECEIVE [],
      bytes_write = 0, bytes_read = 0, bytes_retransmit = 0, bytes_invalid = 0,
      timer_retransmit = PR_NEVER fp, timer_command = PR_NEVER fp, must_exit = False, kicked = False,
      fast_calls = [], written = []\<rparr>"

definition serialqueue_alloc_commandqueue :: "nat \<Rightarrow> 'd serialqueue \<Rightarrow> 'd serialqueue" where
  "serialqueue_alloc_commandqueue cq sq = sq\<lparr>cqs := (cqs sq)(cq := \<lparr>upcoming_queue = [], ready_queue = []\<rparr>)\<rparr>"

definition serialqueue_add_fastreader :: "fastreader \<Rightarrow> 'd serialqueue \<Rightarrow> 'd serialqueue" where
  "serialqueue_add_fastreader fr sq = sq\<lparr>fast_readers := fast_readers sq @ [fr]\<rparr>"

definition serialqueue_rm_fastreader :: "fastreader \<Rightarrow> 'd serialqueue \<Rightarrow> 'd serialqueue" where
  "serialqueue_rm_fastreader fr sq = sq\<lparr>fast_readers := remove1 fr (fast_readers sq)\<rparr>"

definition set_min_clock :: "'d queue_message \<Rightarrow> 'd queue_message" where
  "set_min_clock qm =
     (if qm_min_clock qm + 2 ^ 31 < qm_req_clock qm \<and> qm_req_clock qm \<noteq> BACKGROUND_PRIORITY_CLOCK
      then qm\<lparr>qm_min_clock := qm_req_clock qm - 2 ^ 31\<rparr> else qm)"

definition serialqueue_send_batch :: "nat \<Rightarrow> 'd queue_message list \<Rightarrow> 'd serialqueue \<Rightarrow> 'd serialqueue" where
  "serialqueue_send_batch cq msgs sq =
     (let msgs = map set_min_clock msgs; len = sum_list (map qm_len msgs)
      in if len = 0 then sq
         else let sq = (if ready_queue (cqs sq cq) = [] \<and> upcoming_queue (cqs sq cq) = []
                        then sq\<lparr>pending_queues := pending_queues sq @ [cq]\<rparr> else sq);
                  sq = sq\<lparr>cqs := upd (cqs sq) cq (\<lambda>c. c\<lparr>upcoming_queue := upcoming_queue c @ msgs\<rparr>),
                          upcoming_bytes := upcoming_bytes sq + len\<rparr>
              in if qm_min_clock (hd msgs) < need_kick_clock sq
                 then kick_bg_thread (sq\<lparr>need_kick_clock := 0\<rparr>) else sq)"

definition serialqueue_send_one :: "nat \<Rightarrow> 'd queue_message \<Rightarrow> 'd serialqueue \<Rightarrow> 'd serialqueue" where
  "serialqueue_send_one cq qm sq = serialqueue_send_batch cq [qm] sq"

definition serialqueue_send ::
  "'d double_ops \<Rightarrow> nat \<Rightarrow> u8 list \<Rightarrow> u64 \<Rightarrow> u64 \<Rightarrow> u64 \<Rightarrow> 'd serialqueue \<Rightarrow> 'd serialqueue option" where
  "serialqueue_send fp cq msg min_clock req_clock notify_id sq =
     map_option (\<lambda>qm. serialqueue_send_one cq (qm\<lparr>qm_min_clock := min_clock, qm_req_clock := req_clock, qm_notify_id := notify_id\<rparr>) sq)
       (message_fill fp msg)"

text \<open>\<open>serialqueue_pull\<close> waits while there is no message: it then only marks that it waits.\<close>

definition serialqueue_pull :: "'d serialqueue \<Rightarrow> 'd queue_message option \<times> 'd serialqueue" where
  "serialqueue_pull sq =
     (case receive_queue sq of
        [] \<Rightarrow> if must_exit sq then (None, sq) else (None, sq\<lparr>receive_waiting := True\<rparr>)
      | qm # rest \<Rightarrow>
          let sq = sq\<lparr>receive_queue := rest\<rparr>
          in (Some qm, if qm_msg qm \<noteq> [] then sq\<lparr>old_receive := debug_queue_add qm (old_receive sq)\<rparr> else sq))"

definition serialqueue_set_wire_frequency :: "'d double_ops \<Rightarrow> 'd \<Rightarrow> 'd serialqueue \<Rightarrow> 'd serialqueue" where
  "serialqueue_set_wire_frequency fp frequency sq =
     (if serial_fd_type sq = SQT_CAN then sq\<lparr>bittime_adjust := d_div fp (d_dec fp 1 0) frequency\<rparr>
      else sq\<lparr>bittime_adjust := d_div fp (d_dec fp 10 0) frequency\<rparr>)"

definition serialqueue_set_receive_window :: "int \<Rightarrow> 'd serialqueue \<Rightarrow> 'd serialqueue" where
  "serialqueue_set_receive_window w sq = sq\<lparr>receive_window := w\<rparr>"

definition serialqueue_set_clock_est :: "'d \<Rightarrow> 'd \<Rightarrow> u64 \<Rightarrow> u64 \<Rightarrow> 'd serialqueue \<Rightarrow> 'd serialqueue" where
  "serialqueue_set_clock_est freq time cclock lclock sq =
     sq\<lparr>ce := \<lparr>last_clock = lclock, conv_clock = cclock, conv_time = time, est_freq = freq\<rparr>\<rparr>"

definition serialqueue_extract_old ::
  "'d double_ops \<Rightarrow> bool \<Rightarrow> nat \<Rightarrow> 'd serialqueue \<Rightarrow> 'd queue_message list \<times> 'd serialqueue" where
  "serialqueue_extract_old fp sentq m sq =
     (let current = (if sentq then old_sent sq else old_receive sq);
          sq = (if sentq then sq\<lparr>old_sent := debug_queue_alloc fp DEBUG_QUEUE_SENT []\<rparr>
                else sq\<lparr>old_receive := debug_queue_alloc fp DEBUG_QUEUE_RECEIVE []\<rparr>)
      in (take m (filter (\<lambda>qm. qm_msg qm \<noteq> []) current), sq))"

end
