(* ===== verification/Serial_Link.thy ===== *)
theory Serial_Link
  imports Serialqueue Command_Spec
begin

text \<open>
  The serial link between the host (\<^verbatim>\<open>serialqueue.c\<close>, \<^verbatim>\<open>msgblock.c\<close>) and the firmware
  (\<^verbatim>\<open>command.c\<close>): each side accepts the blocks of the other, and over a line that loses blocks
  the firmware accepts every block once and in order, while the host keeps to its window.
\<close>

section \<open>The two sides of the protocol agree\<close>

lemma msgblock_crc_eq: "msgblock_crc16_ccitt = crc16_ccitt"
  by (rule ext) (simp add: msgblock_crc16_ccitt_def crc16_ccitt_def msgblock_crc_step_def [abs_def] crc_step_def [abs_def])

lemma host_encode_int_eq: "host_encode_int = encode_int"
  by (rule ext) (simp add: host_encode_int_def encode_int_def)

lemma host_parse_loop_eq: "host_parse_loop buf p c v = parse_int_loop buf p c v"
  by (induction buf p c v rule: host_parse_loop.induct)
    (subst host_parse_loop.simps, subst parse_int_loop.simps, simp add: Let_def)

lemma host_parse_int_eq: "host_parse_int = parse_int"
  by (intro ext) (simp add: host_parse_int_def parse_int_def host_parse_loop_eq)

text \<open>The host accepts what the firmware would accept as a valid block.\<close>

lemma msgblock_check_valid: "valid_block buf n \<Longrightarrow> msgblock_check 0 buf = (int n, 0)"
  by (simp add: valid_block_def msgblock_check_def msgblock_crc_eq message_defs Let_def)

section \<open>Sequence numbers\<close>

text \<open>The sequence byte of block number \<open>n\<close>.\<close>

definition seq_byte :: "nat \<Rightarrow> u8" where
  "seq_byte n = of_nat (16 + n mod 16)"

lemma unat_seq_byte: "unat (seq_byte n) = 16 + n mod 16"
proof -
  have "16 + n mod 16 < 2 ^ 8"
    using mod_less_divisor [of 16 n] by (simp only: power_numeral) simp
  then show ?thesis
    by (simp only: seq_byte_def unat_of_nat) (simp add: take_bit_nat_eq_self)
qed

lemma seq_byte_eq_iff: "seq_byte m = seq_byte n \<longleftrightarrow> m mod 16 = n mod 16"
  by (simp add: word_unat_eq_iff unat_seq_byte)

lemma dest_or:
  assumes "x < 16"
  shows "MESSAGE_DEST OR of_nat x = (of_nat (16 + x) :: u8)"
proof -
  have "\<not> bit x 4"
    using assms by (simp add: bit_iff_odd)
  then have "\<not> bit (of_nat x :: u8) 4"
    by (simp add: bit_of_nat_iff)
  then have "push_bit 4 1 OR of_nat x = push_bit 4 1 + (of_nat x :: u8)"
    by (intro disjunctive_add [symmetric]) (auto simp: bit_push_bit_iff bit_1_iff simp del: push_bit_of_1 push_bit_eq_mult)
  then have "MESSAGE_DEST OR of_nat x = MESSAGE_DEST + (of_nat x :: u8)"
    by (simp add: MESSAGE_DEST_def)
  then show ?thesis
    by (simp add: MESSAGE_DEST_def)
qed

lemma nat_and_15: "(n :: nat) AND 15 = n mod 16"
  using take_bit_eq_mask [of 4 n] by (simp add: take_bit_eq_mod mask_eq_exp_minus_1)

lemma unat_and_mask:
  "unat ((x :: u8) AND 15) = unat x mod 16" "unat ((y :: u64) AND 15) = unat y mod 16"
  by (simp_all add: unsigned_and_eq nat_and_15)

lemma unat_small: "k < 256 \<Longrightarrow> unat (of_nat k :: u8) = k"
  by (simp only: unat_of_nat) (simp add: take_bit_nat_eq_self)

lemma next_seq_byte: "next_seq (seq_byte n) = seq_byte (Suc n)"
proof -
  have "seq_byte n + 1 = of_nat (17 + n mod 16)"
    by (simp add: seq_byte_def)
  then have u: "unat (seq_byte n + 1) = 17 + n mod 16"
    using unat_small [of "17 + n mod 16"] mod_less_divisor [of 16 n] by (simp only:)
  have "(17 + n mod 16) mod 16 = (Suc n + 16) mod 16"
    by (simp add: mod_simps)
  then have m: "(17 + n mod 16) mod 16 = Suc n mod 16"
    by (simp only: mod_add_self2)
  have s: "Suc n mod 16 < 16"
    by simp
  then have "unat (of_nat (Suc n mod 16) :: u8) = Suc n mod 16"
    by (intro unat_small) linarith
  then have "(seq_byte n + 1) AND 15 = of_nat (Suc n mod 16)"
    by (simp only: word_unat_eq_iff unat_and_mask u m)
  then show ?thesis
    unfolding next_seq_def MESSAGE_SEQ_MASK_def seq_byte_def
    by (simp only: or.commute [of _ MESSAGE_DEST] dest_or [OF s])
qed

lemma host_seq_byte: "MESSAGE_DEST OR ucast ((of_nat n :: u64) AND ucast MESSAGE_SEQ_MASK) = seq_byte n"
proof -
  have "(of_nat n :: u64) AND 15 = of_nat (n mod 16)"
    by (simp add: word_unat_eq_iff unat_and_mask unat_of_nat take_bit_eq_mod mod_mod_cancel)
  moreover have "ucast (of_nat (n mod 16) :: u64) = (of_nat (n mod 16) :: u8)"
    by (simp add: unsigned_of_nat take_bit_nat_eq_self)
  ultimately show ?thesis
    using dest_or [of "n mod 16"] by (simp add: MESSAGE_SEQ_MASK_def seq_byte_def)
qed

lemma seq_byte_dest: "seq_byte n AND NOT MESSAGE_SEQ_MASK = MESSAGE_DEST"
proof (rule bit_word_eqI)
  fix i
  assume i: "i < LENGTH(8)"
  have s: "seq_byte n = push_bit 4 1 OR of_nat (n mod 16)"
    using dest_or [of "n mod 16"] by (simp add: seq_byte_def MESSAGE_DEST_def)
  have low: "i < 4" if "bit (n mod 16) i"
  proof (rule ccontr)
    assume "\<not> i < 4"
    then have "n mod 16 < 2 ^ i"
      using power_increasing [of 4 i "2::nat"] mod_less_divisor [of 16 n] by simp
    then show False
      using that by (simp add: bit_iff_odd)
  qed
  have m: "MESSAGE_SEQ_MASK = mask 4"
    by (simp add: MESSAGE_SEQ_MASK_def mask_eq_exp_minus_1)
  have d: "MESSAGE_DEST = push_bit 4 1"
    by (simp add: MESSAGE_DEST_def)
  show "bit (seq_byte n AND NOT MESSAGE_SEQ_MASK) i = bit MESSAGE_DEST i"
    unfolding s m d using i low
    by (auto simp: bit_simps simp del: push_bit_of_1)
qed

text \<open>The host finds the full number of a block from the sequence byte, if it is less than 16 ahead.\<close>

lemma ack_number:
  assumes "r \<le> a" "a < r + 16"
  shows "(of_nat r :: u64) + ((ucast (seq_byte a) - of_nat r) AND ucast MESSAGE_SEQ_MASK) = of_nat a"
proof -
  let ?w = "ucast (seq_byte a) - of_nat r :: u64"
  have "ucast (seq_byte a) = (of_nat (unat (seq_byte a)) :: u64)"
    by simp
  then have "ucast (seq_byte a) = (of_int (int (16 + a mod 16)) :: u64)"
    by (simp only: unat_seq_byte of_int_of_nat_eq)
  then have "?w = of_int (int (16 + a mod 16) - int r)"
    by simp
  then have "uint ?w = (int (16 + a mod 16) - int r) mod 2 ^ 64"
    by (simp only: uint_word_of_int_eq take_bit_eq_mod) simp
  then have "uint ?w mod 16 = (int (16 + a mod 16) - int r) mod 16"
    by (simp add: mod_mod_cancel)
  also have "\<dots> = (int a - int r) mod 16"
    using mod_diff_left_eq [of "16 + int a mod 16" 16 "int r"] mod_diff_left_eq [of "int a" 16 "int r"] by (simp add: zmod_int)
  also have "\<dots> = int (a - r)"
    using assms by (simp add: of_nat_diff)
  finally have "unat ?w mod 16 = a - r"
    by (simp only: uint_nat zmod_int [of _ 16, simplified, symmetric] flip: of_nat_eq_iff)
  moreover have "unat (of_nat (a - r) :: u64) = a - r"
    using assms by (simp only: unat_of_nat) (simp add: take_bit_nat_eq_self)
  ultimately have "?w AND ucast MESSAGE_SEQ_MASK = of_nat (a - r)"
    by (simp add: MESSAGE_SEQ_MASK_def word_unat_eq_iff unat_and_mask)
  then show ?thesis
    using assms(1) by (simp add: of_nat_diff)
qed

text \<open>A block of the host is a valid block for the firmware.\<close>

lemma ucast_low_byte: "ucast ((c :: u16) AND 0xff) = (ucast c :: u8)"
proof -
  have m: "(0xff :: u16) = mask 8"
    by (simp add: mask_eq_exp_minus_1)
  show ?thesis
    unfolding m by (rule bit_word_eqI) (auto simp: bit_simps)
qed

lemma host_block_frame:
  assumes "next_sequence r = seq_byte n"
  shows "host_block (of_nat n) payload = command_add_frame payload (length payload + 5) r"
  by (simp add: host_block_def command_add_frame_def host_seq_byte assms msgblock_crc_eq ucast_low_byte message_defs Let_def add.commute)

lemma host_block_valid:
  assumes "length payload \<le> 59"
  shows "valid_block (host_block (of_nat n) payload) (length payload + 5)" "host_block (of_nat n) payload ! 1 = seq_byte n"
    "length (host_block (of_nat n) payload) = length payload + 5"
proof -
  define r :: "unit command_scheme" where "r = (command_static (quiet_env 0) 0 0 ())\<lparr>next_sequence := seq_byte n\<rparr>"
  have r: "next_sequence r = seq_byte n"
    by (simp add: r_def)
  show "valid_block (host_block (of_nat n) payload) (length payload + 5)" "host_block (of_nat n) payload ! 1 = seq_byte n"
    using frame_valid [of payload r "host_block (of_nat n) payload" "[]"] assms r seq_byte_dest host_block_frame [OF r]
    by simp_all
  show "length (host_block (of_nat n) payload) = length payload + 5"
    by (simp add: host_block_def Let_def)
qed

section \<open>The line\<close>

text \<open>
  The line carries what the host writes, cut into blocks by their length bytes; a SYNC byte between
  blocks is a piece of its own.
\<close>

function split_blocks :: "u8 list \<Rightarrow> u8 list list" where
  "split_blocks buf =
     (if buf = [] then []
      else if hd buf = MESSAGE_SYNC \<or> hd buf = 0 then [hd buf] # split_blocks (tl buf)
      else take (unat (hd buf)) buf # split_blocks (drop (unat (hd buf)) buf))"
  by pat_completeness auto
termination
proof (relation "measure length")
  fix buf :: "u8 list"
  assume "buf \<noteq> []" "\<not> (hd buf = MESSAGE_SYNC \<or> hd buf = 0)"
  then show "(drop (unat (hd buf)) buf, buf) \<in> measure length"
    using unat_gt_0 [of "hd buf"] by (simp add: diff_less)
qed auto

declare split_blocks.simps [simp del]

lemma valid_block_split:
  assumes "valid_block b (length b)"
  shows "split_blocks (b @ rest) = b # split_blocks rest"
proof -
  have v: "b \<noteq> []" "unat (b ! 0) = length b" "5 \<le> length b" "length b \<le> 64"
    using assms by (auto simp: valid_block_def message_defs)
  have b: "unat (hd b) = length b" "5 \<le> unat (hd b)" "unat (hd b) \<le> 64"
    using v by (simp_all add: hd_conv_nth [OF v(1)])
  have "hd b \<noteq> MESSAGE_SYNC" "hd b \<noteq> 0"
    using b(2,3) by (auto simp: MESSAGE_SYNC_def)
  then show ?thesis
    by (subst split_blocks.simps) (simp add: v(1) b(1))
qed

lemma split_blocks_concat:
  assumes "\<forall>b \<in> set bs. valid_block b (length b)"
  shows "split_blocks (concat bs) = bs"
  using assms by (induction bs) (simp_all add: valid_block_split, simp add: split_blocks.simps)

lemma split_blocks_sync: "split_blocks (MESSAGE_SYNC # buf) = [MESSAGE_SYNC] # split_blocks buf"
  by (subst split_blocks.simps) simp

lemma concat_can_frames: "concat (can_frames buf) = buf"
proof (induction buf rule: can_frames.induct)
  case (1 buf)
  then show ?case
    by (subst can_frames.simps) (cases "buf = []", simp_all)
qed

section \<open>Handlers of the host\<close>

text \<open>What the link needs to know of the host: the sequence numbers, the unacknowledged blocks and the input.\<close>

definition blocks :: "'d serialqueue \<Rightarrow> u8 list list" where
  "blocks sq = map qm_msg (sent_queue sq)"

definition same_link :: "'d serialqueue \<Rightarrow> 'd serialqueue \<Rightarrow> bool" where
  "same_link sq sq' \<longleftrightarrow> send_seq sq' = send_seq sq \<and> receive_seq sq' = receive_seq sq \<and> blocks sq' = blocks sq \<and>
     input_buf sq' = input_buf sq \<and> need_sync sq' = need_sync sq \<and> written sq' = written sq \<and>
     receive_window sq' = receive_window sq \<and> need_ack_bytes sq' = need_ack_bytes sq \<and> last_ack_bytes sq' = last_ack_bytes sq"

lemma same_link_refl [simp]: "same_link sq sq"
  by (simp add: same_link_def)

lemma same_link_trans: "same_link a b \<Longrightarrow> same_link b c \<Longrightarrow> same_link a c"
  by (simp add: same_link_def)

lemma scan_queues_frame:
  "scan_queues fp t p c qs stalled ready sq = (stalled', ready', sq') \<Longrightarrow> same_link sq sq'"
proof (induction fp t p c qs stalled ready sq rule: scan_queues.induct)
  case (2 fp t p c q qs stalled ready sq)
  obtain stay go st where sp: "split_upcoming c stalled (upcoming_queue (cqs sq q)) = (stay, go, st)"
    by (cases "split_upcoming c stalled (upcoming_queue (cqs sq q))")
  show ?case
    by (rule same_link_trans [OF _ "2.IH" [OF sp [symmetric] refl refl refl refl]])
      (use "2.prems" sp in \<open>simp_all add: same_link_def blocks_def Let_def\<close>)
qed simp

text \<open>The two conditions under which the host waits for an acknowledgement.\<close>

definition window_full :: "'d serialqueue \<Rightarrow> bool" where
  "window_full sq \<longleftrightarrow> send_seq sq - receive_seq sq \<ge> of_nat MAX_PENDING_BLOCKS \<and> receive_seq sq \<noteq> - 1"

definition bytes_full :: "'d serialqueue \<Rightarrow> bool" where
  "bytes_full sq \<longleftrightarrow> send_seq sq > receive_seq sq \<and> receive_window sq \<noteq> 0 \<and>
     need_ack_bytes sq + int MESSAGE_MAX + (if last_ack_seq sq < receive_seq sq then last_ack_bytes sq else 0) > receive_window sq"

lemma check_send_frame:
  assumes "check_send_command fp p t sq = (w, sq')"
  shows "same_link sq sq' \<and> (window_full sq \<or> bytes_full sq \<longrightarrow> w = PR_NEVER fp)"
proof (cases "window_full sq \<or> bytes_full sq")
  case True
  then have "check_send_command fp p t sq = (PR_NEVER fp, sq)"
    unfolding check_send_command_def window_full_def bytes_full_def by (elim disjE) (simp_all only: if_True if_cancel simp_thms)
  then show ?thesis
    using assms by simp
next
  case False
  define idle where "idle = d_add fp (if d_less fp (idle_time sq) t then t else idle_time sq) (calculate_bittime fp (of_nat (p + MESSAGE_MIN)) sq)"
  define ack where "ack = clock_from_time fp (ce sq) idle"
  obtain st rd sq1 where sc: "scan_queues fp idle (p \<noteq> 0) ack (pending_queues sq) MAX_CLOCK MAX_CLOCK sq = (st, rd, sq1)"
    by (cases "scan_queues fp idle (p \<noteq> 0) ack (pending_queues sq) MAX_CLOCK MAX_CLOCK sq")
  have no: "(send_seq sq - receive_seq sq \<ge> of_nat MAX_PENDING_BLOCKS \<and> receive_seq sq \<noteq> - 1) = False"
    "(send_seq sq > receive_seq sq \<and> receive_window sq \<noteq> 0 \<and>
       need_ack_bytes sq + int MESSAGE_MAX + (if last_ack_seq sq < receive_seq sq then last_ack_bytes sq else 0) > receive_window sq) = False"
    using False unfolding window_full_def bytes_full_def by blast+
  have "sq' = sq1 \<or> (\<exists>k. sq' = sq1\<lparr>need_kick_clock := k\<rparr>)"
    using assms unfolding check_send_command_def no if_False Let_def idle_def [symmetric] ack_def [symmetric] sc prod.case
    by (auto split: if_splits)
  moreover have "same_link sq sq1"
    using sc by (rule scan_queues_frame)
  ultimately show ?thesis
    using False by (auto simp: same_link_def blocks_def)
qed

lemma take_ready_frame: "same_link sq (take_ready q m sq)"
  by (simp add: take_ready_def same_link_def blocks_def Let_def)

lemma build_loop_frame:
  "build_loop payload sq = Some (payload', sq') \<Longrightarrow> length payload \<le> 59 \<Longrightarrow> same_link sq sq' \<and> length payload' \<le> 59"
proof (induction payload sq rule: build_loop.induct)
  case (1 payload sq)
  show ?case
  proof (cases "ready_bytes sq = 0")
    case True
    then show ?thesis
      using "1.prems" by (subst (asm) build_loop.simps) simp
  next
    case False
    then obtain q m where f: "find_ready sq (pending_queues sq) MAX_CLOCK None = Some (q, m)"
      using "1.prems" by (subst (asm) build_loop.simps) (auto split: option.splits)
    show ?thesis
    proof (cases "MESSAGE_HEADER_SIZE + length payload + length (qm_msg m) > MESSAGE_MAX - MESSAGE_TRAILER_SIZE")
      case True
      then show ?thesis
        using "1.prems" False f by (subst (asm) build_loop.simps) simp
    next
      case fits: False
      then have "build_loop (payload @ qm_msg m) (take_ready q m sq) = Some (payload', sq')"
        using "1.prems" False f by (subst (asm) build_loop.simps) simp
      then have "same_link (take_ready q m sq) sq' \<and> length payload' \<le> 59"
        using "1.IH" [OF False f refl fits] fits by (simp add: message_defs)
      then show ?thesis
        using same_link_trans [OF take_ready_frame] by blast
    qed
  qed
qed

lemma build_and_send_block:
  assumes "build_and_send_command fp p t sq = Some (b, sq')"
  obtains payload where "b = host_block (send_seq sq) payload" "length payload \<le> 59" "blocks sq' = blocks sq @ [b]"
    "send_seq sq' = send_seq sq + 1" "receive_seq sq' = receive_seq sq" "input_buf sq' = input_buf sq"
    "need_sync sq' = need_sync sq" "written sq' = written sq" "receive_window sq' = receive_window sq"
    "need_ack_bytes sq' = need_ack_bytes sq + int (length b)" "last_ack_bytes sq' = last_ack_bytes sq"
proof -
  obtain payload sq1 where l: "build_loop [] sq = Some (payload, sq1)"
    using assms by (auto simp: build_and_send_command_def)
  then have f: "same_link sq sq1" "length payload \<le> 59"
    using build_loop_frame [OF l] by simp_all
  have sq': "b = fst (the (build_and_send_command fp p t sq))" "sq' = snd (the (build_and_send_command fp p t sq))"
    using assms by simp_all
  have "blocks sq1 = blocks sq"
    using f(1) by (simp add: same_link_def)
  then have e: "sent_queue sq1 = [] \<longleftrightarrow> sent_queue sq = []"
    by (simp only: blocks_def map_is_Nil_conv [of qm_msg, symmetric])
  show ?thesis
    by (rule that [of payload])
      (use f e in \<open>simp_all add: sq' l build_and_send_command_def same_link_def blocks_def message_alloc_def Let_def\<close>)
qed

text \<open>
  The host between its handlers: \<open>r\<close> is the number of the first block that is not acknowledged, \<open>n\<close>
  that of the next block to be built. At most twelve blocks are under way, and not more bytes than
  the receiver has room for, except for a single block.
\<close>

definition host_ok :: "nat \<Rightarrow> nat \<Rightarrow> 'd serialqueue \<Rightarrow> bool" where
  "host_ok r n sq \<longleftrightarrow> r \<le> n \<and> n \<le> r + MAX_PENDING_BLOCKS \<and> receive_seq sq = of_nat r \<and> send_seq sq = of_nat n \<and>
     length (blocks sq) = n - r \<and> (\<forall>b \<in> set (blocks sq). length b \<le> MESSAGE_MAX) \<and>
     need_ack_bytes sq = sum_list (map (\<lambda>b. int (length b)) (blocks sq)) \<and> 0 \<le> last_ack_bytes sq \<and>
     (receive_window sq \<noteq> 0 \<longrightarrow> need_ack_bytes sq \<le> max (int MESSAGE_MAX) (receive_window sq)) \<and>
     input_buf sq = [] \<and> need_sync sq = 0"

lemma host_ok_same: "same_link sq sq' \<Longrightarrow> host_ok r n sq \<Longrightarrow> host_ok r n sq'"
  by (auto simp: host_ok_def same_link_def)

lemma write_blocks_written:
  obtains ws where "written (write_blocks fp t buf sq) = written sq @ ws" "concat ws = buf"
    "\<forall>r n. host_ok r n sq \<longrightarrow> host_ok r n (write_blocks fp t buf sq)" "blocks (write_blocks fp t buf sq) = blocks sq"
    "receive_window (write_blocks fp t buf sq) = receive_window sq" "need_ack_bytes (write_blocks fp t buf sq) = need_ack_bytes sq"
proof -
  let ?ws = "if buf = [] then [] else if serial_fd_type sq = SQT_CAN then can_frames buf else [buf]"
  show ?thesis
    by (rule that [of ?ws]) (auto simp: write_blocks_def do_write_def concat_can_frames host_ok_def blocks_def Let_def)
qed

lemma of_nat_diff_u64:
  assumes "r \<le> n" "n < 2 ^ 64"
  shows "unat (of_nat n - of_nat r :: u64) = n - r"
proof -
  have "of_nat n - of_nat r = (of_nat (n - r) :: u64)"
    using assms(1) by (simp add: of_nat_diff)
  then show ?thesis
    using assms by (simp only: unat_of_nat) (simp add: take_bit_nat_eq_self)
qed

lemma unat_u64: "n < 2 ^ 64 \<Longrightarrow> unat (of_nat n :: u64) = n"
  by (simp only: unat_of_nat) (simp add: take_bit_nat_eq_self)

lemma window_open:
  assumes "host_ok r n sq" "r + 16 < 2 ^ 64" "\<not> window_full sq" "\<not> bytes_full sq"
  shows "n < r + MAX_PENDING_BLOCKS"
    "receive_window sq \<noteq> 0 \<Longrightarrow> need_ack_bytes sq + int MESSAGE_MAX \<le> max (int MESSAGE_MAX) (receive_window sq)"
proof -
  have h: "r \<le> n" "n \<le> r + 12" "receive_seq sq = of_nat r" "send_seq sq = of_nat n" "length (blocks sq) = n - r"
    "need_ack_bytes sq = sum_list (map (\<lambda>b. int (length b)) (blocks sq))" "0 \<le> last_ack_bytes sq"
    using assms(1) by (auto simp: host_ok_def MAX_PENDING_BLOCKS_def)
  have n: "n < 2 ^ 64" "r < 2 ^ 64 - 1"
    using h(2) assms(2) by simp_all
  have "receive_seq sq \<noteq> - 1"
    using unat_u64 [of r] n(2) by (auto simp: h(3) word_unat_eq_iff unsigned_minus_1_eq_mask mask_eq_exp_minus_1)
  then have "\<not> of_nat MAX_PENDING_BLOCKS \<le> (of_nat n - of_nat r :: u64)"
    using assms(3) by (simp add: window_full_def h(3,4))
  then show "n < r + MAX_PENDING_BLOCKS"
    using of_nat_diff_u64 [OF h(1) n(1)] h(1) by (simp add: word_le_nat_alt MAX_PENDING_BLOCKS_def)
  assume w: "receive_window sq \<noteq> 0"
  show "need_ack_bytes sq + int MESSAGE_MAX \<le> max (int MESSAGE_MAX) (receive_window sq)"
  proof (cases "n = r")
    case True
    then show ?thesis
      using h(5,6) by simp
  next
    case False
    then have "send_seq sq > receive_seq sq"
      using h(1) unat_u64 [OF n(1)] unat_u64 [of r] n(2) by (simp add: h(3,4) word_less_nat_alt)
    then show ?thesis
      using assms(4) w h(7) by (auto simp: bytes_full_def split: if_splits)
  qed
qed

lemma host_ok_build:
  assumes "host_ok r n sq" "n < r + MAX_PENDING_BLOCKS"
    and "receive_window sq \<noteq> 0 \<longrightarrow> need_ack_bytes sq + int MESSAGE_MAX \<le> max (int MESSAGE_MAX) (receive_window sq)"
    and "build_and_send_command fp p t sq = Some (b, sq')"
  obtains payload where "b = host_block (of_nat n) payload" "length payload \<le> 59" "host_ok r (Suc n) sq'"
    "blocks sq' = blocks sq @ [b]" "written sq' = written sq"
proof -
  obtain payload where b: "b = host_block (send_seq sq) payload" "length payload \<le> 59" "blocks sq' = blocks sq @ [b]"
    "send_seq sq' = send_seq sq + 1" "receive_seq sq' = receive_seq sq" "input_buf sq' = input_buf sq"
    "need_sync sq' = need_sync sq" "written sq' = written sq" "receive_window sq' = receive_window sq"
    "need_ack_bytes sq' = need_ack_bytes sq + int (length b)" "last_ack_bytes sq' = last_ack_bytes sq"
    using assms(4) by (rule build_and_send_block)
  have s: "b = host_block (of_nat n) payload" "length b \<le> 64"
    using b(1,2) assms(1) host_block_valid(3) [OF b(2), of n] by (simp_all add: host_ok_def)
  have "host_ok r (Suc n) sq'"
    using assms(1-3) s(2) b(3-)
    by (auto simp: host_ok_def MESSAGE_MAX_def MAX_PENDING_BLOCKS_def)
  then show ?thesis
    using that s(1) b(2,3,8) by blast
qed

lemma command_loop_sends:
  assumes never: "\<not> d_eq fp (PR_NEVER fp) (PR_NOW fp)" and bound: "r + 16 < 2 ^ 64"
    and "host_ok r n sq" "command_loop fp t buf sq = Some (w, sq')"
  shows "\<exists>bs ws. host_ok r (n + length bs) sq' \<and> blocks sq' = blocks sq @ bs \<and> written sq' = written sq @ ws \<and>
    concat ws = buf @ concat bs \<and> (\<forall>k < length bs. \<exists>p. length p \<le> 59 \<and> bs ! k = host_block (of_nat (n + k)) p)"
  using assms(3,4)
proof (induction "r + MAX_PENDING_BLOCKS - n" arbitrary: n sq buf rule: less_induct)
  case less
  obtain wt sq1 where c: "check_send_command fp (length buf) t sq = (wt, sq1)"
    by fastforce
  have f: "same_link sq sq1" "window_full sq \<or> bytes_full sq \<longrightarrow> wt = PR_NEVER fp"
    using check_send_frame [OF c] by simp_all
  have ok1: "host_ok r n sq1"
    using f(1) less.prems(1) by (rule host_ok_same)
  have b1: "blocks sq1 = blocks sq" "written sq1 = written sq"
    using f(1) by (simp_all add: same_link_def)
  obtain ws where ws: "written (write_blocks fp t buf sq1) = written sq1 @ ws" "concat ws = buf"
    "\<forall>r n. host_ok r n sq1 \<longrightarrow> host_ok r n (write_blocks fp t buf sq1)" "blocks (write_blocks fp t buf sq1) = blocks sq1"
    "receive_window (write_blocks fp t buf sq1) = receive_window sq1" "need_ack_bytes (write_blocks fp t buf sq1) = need_ack_bytes sq1"
    by (rule write_blocks_written [of fp t buf sq1])
  show ?case
  proof (cases "d_eq fp wt (PR_NOW fp)")
    case False
    then have "sq' = write_blocks fp t buf sq1"
      using less.prems(2) by (subst (asm) command_loop.simps) (simp add: c)
    then show ?thesis
      using ws b1 ok1 by (intro exI [of _ "[]"] exI [of _ ws]) simp
  next
    case True
    then have open1: "n < r + MAX_PENDING_BLOCKS"
      "receive_window sq1 \<noteq> 0 \<longrightarrow> need_ack_bytes sq1 + int MESSAGE_MAX \<le> max (int MESSAGE_MAX) (receive_window sq1)"
      using never f(2) window_open [OF less.prems(1) bound] f(1) by (auto simp: same_link_def)
    define full where "full = (length buf + MESSAGE_MAX > MESSAGE_MAX * MAX_PENDING_BLOCKS)"
    define sq2 where "sq2 = (if full then write_blocks fp t buf sq1 else sq1)"
    define buf2 where "buf2 = (if full then [] else buf)"
    obtain b sq3 where b: "build_and_send_command fp (length buf2) t sq2 = Some (b, sq3)" "command_loop fp t (buf2 @ b) sq3 = Some (w, sq')"
      using less.prems(2) True by (subst (asm) command_loop.simps) (auto simp: c Let_def sq2_def buf2_def full_def split: option.splits)
    obtain ws2 where ws2: "host_ok r n sq2" "blocks sq2 = blocks sq" "written sq2 = written sq @ ws2" "buf = concat ws2 @ buf2"
      "receive_window sq2 \<noteq> 0 \<longrightarrow> need_ack_bytes sq2 + int MESSAGE_MAX \<le> max (int MESSAGE_MAX) (receive_window sq2)"
    proof (cases full)
      case True
      then show ?thesis
        using ws ok1 b1 open1(2) by (intro that [of ws]) (simp_all add: sq2_def buf2_def)
    next
      case False
      then show ?thesis
        using ok1 b1 open1(2) by (intro that [of "[]"]) (simp_all add: sq2_def buf2_def)
    qed
    obtain payload where p: "b = host_block (of_nat n) payload" "length payload \<le> 59" "host_ok r (Suc n) sq3"
      "blocks sq3 = blocks sq2 @ [b]" "written sq3 = written sq2"
      using ws2(1) open1(1) ws2(5) b(1) by (rule host_ok_build)
    obtain bs ws3 where l: "host_ok r (Suc n + length bs) sq'" "blocks sq' = blocks sq3 @ bs" "written sq' = written sq3 @ ws3"
      "concat ws3 = (buf2 @ b) @ concat bs" "\<forall>k < length bs. \<exists>p. length p \<le> 59 \<and> bs ! k = host_block (of_nat (Suc n + k)) p"
      using less.hyps [OF _ p(3) b(2)] open1(1) by (auto simp: diff_less_mono2)
    have "\<forall>k < length (b # bs). \<exists>p. length p \<le> 59 \<and> (b # bs) ! k = host_block (of_nat (n + k)) p"
      using p(1,2) l(5) by (auto simp: less_Suc_eq_0_disj simp del: of_nat_add of_nat_Suc)
    then show ?thesis
      using l ws2 p(4,5) by (intro exI [of _ "b # bs"] exI [of _ "ws2 @ ws3"]) simp
  qed
qed

text \<open>An acknowledgement removes the blocks before it.\<close>

lemma remove_sent_drop:
  assumes "r < a" "a \<le> r + length q" "r + length q < 2 ^ 64"
  shows "\<exists>rest l k. 0 \<le> k \<and> remove_sent fp (of_nat a) (of_nat r) q sq =
    sq\<lparr>need_ack_bytes := need_ack_bytes sq - sum_list (map qm_len (take (a - r) q)), sent_queue := drop (a - r) q,
       old_sent := rest, last_receive_sent_time := l, last_ack_bytes := k\<rparr>"
  using assms
proof (induction q arbitrary: r sq)
  case (Cons m q)
  let ?sq = "sq\<lparr>need_ack_bytes := need_ack_bytes sq - qm_len m, sent_queue := q, old_sent := debug_queue_add m (old_sent sq)\<rparr>"
  show ?case
  proof (cases "a = Suc r")
    case True
    then show ?thesis
      by (intro exI [of _ "debug_queue_add m (old_sent sq)"] exI [of _ "qm_receive_time m"] exI [of _ "qm_len m"]) (simp add: Let_def)
  next
    case False
    have "unat (of_nat a :: u64) \<noteq> unat (of_nat (Suc r) :: u64)"
      using False Cons.prems by (simp only: unat_u64 not_False_eq_True)
    then have "(of_nat a :: u64) \<noteq> of_nat r + 1"
      by (metis add.commute of_nat_Suc)
    moreover have "remove_sent fp (of_nat a) (of_nat r + 1) q ?sq = remove_sent fp (of_nat a) (of_nat (Suc r)) q ?sq"
      by (simp add: add.commute)
    moreover obtain rest l k where "0 \<le> k" "remove_sent fp (of_nat a) (of_nat (Suc r)) q ?sq =
        ?sq\<lparr>need_ack_bytes := need_ack_bytes ?sq - sum_list (map qm_len (take (a - Suc r) q)), sent_queue := drop (a - Suc r) q,
           old_sent := rest, last_receive_sent_time := l, last_ack_bytes := k\<rparr>"
      using Cons.IH [of "Suc r" ?sq] Cons.prems False by auto
    moreover have "a - r = Suc (a - Suc r)"
      using Cons.prems(1) by simp
    ultimately show ?thesis
      by (intro exI [of _ rest] exI [of _ l] exI [of _ k]) (simp add: Let_def algebra_simps)
  qed
qed simp

lemma update_rtt_frame: "same_link sq (update_rtt fp t a sq)"
  by (simp add: update_rtt_def same_link_def blocks_def Let_def)

lemma notify_loop_frame: "notify_loop fp t w q m sq = (m', sq') \<Longrightarrow> same_link sq sq'"
proof (induction fp t w q m sq rule: notify_loop.induct)
  case (2 fp t w qm rest m sq)
  show ?case
  proof (cases "qm_req_clock qm > w")
    case False
    then show ?thesis
      using "2.prems" by (intro same_link_trans [OF _ "2.IH" [OF False refl]]) (simp_all add: same_link_def blocks_def)
  qed (use "2.prems" in simp)
qed simp

lemma process_message_frame:
  assumes "length (input_buf sq) \<le> MESSAGE_MAX"
  obtains m' sq' where "process_message fp now a len m sq = Some (m', sq')" "same_link sq sq'"
proof (cases "len = MESSAGE_MIN")
  case True
  then show ?thesis
    by (intro that [of m "snd (the (process_message fp now a len m sq))"]) (simp_all add: process_message_def same_link_def blocks_def)
next
  case False
  obtain qm where "message_fill fp (take len (input_buf sq)) = Some qm"
    using assms by (simp add: message_fill_def)
  with False show ?thesis
    by (intro that [of True "snd (the (process_message fp now a len m sq))"])
      (simp_all add: process_message_def same_link_def blocks_def Let_def)
qed

lemma readers_frame: "same_link sq (check_fast_readers len (if m then check_wake_receive sq else sq))"
  by (simp add: check_fast_readers_def check_wake_receive_def same_link_def blocks_def split: option.splits)

lemma blocks_input [simp]: "blocks (sq\<lparr>input_buf := x\<rparr>) = blocks sq"
  by (simp add: blocks_def)

text \<open>An update of the receive sequence to block \<open>a\<close>.\<close>

lemma update_receive_seq_ack:
  assumes "host_ok r n (sq\<lparr>input_buf := []\<rparr>)" "r < a" "a \<le> n" "r + 16 < 2 ^ 64"
  shows "host_ok a n ((update_receive_seq fp t (of_nat a) sq)\<lparr>input_buf := []\<rparr>)"
    "blocks (update_receive_seq fp t (of_nat a) sq) = drop (a - r) (blocks sq)"
    "written (update_receive_seq fp t (of_nat a) sq) = written sq"
    "input_buf (update_receive_seq fp t (of_nat a) sq) = input_buf sq"
proof -
  have h: "r \<le> n" "n \<le> r + 12" "receive_seq sq = of_nat r" "length (sent_queue sq) = n - r"
    using assms(1) by (auto simp: host_ok_def MAX_PENDING_BLOCKS_def blocks_def)
  obtain rest l k where k: "0 \<le> k" and rm: "remove_sent fp (of_nat a) (receive_seq sq) (sent_queue sq) sq =
    sq\<lparr>need_ack_bytes := need_ack_bytes sq - sum_list (map qm_len (take (a - r) (sent_queue sq))), sent_queue := drop (a - r) (sent_queue sq),
       old_sent := rest, last_receive_sent_time := l, last_ack_bytes := k\<rparr>"
    using remove_sent_drop [of r a "sent_queue sq" fp sq] assms(2-4) h by auto
  define sq1 where "sq1 = (remove_sent fp (of_nat a) (receive_seq sq) (sent_queue sq) sq)\<lparr>receive_seq := of_nat a, timer_command := PR_NOW fp\<rparr>"
  define sq2 where "sq2 = update_receive_seq fp t (of_nat a) sq"
  have "same_link sq1 sq2"
    using update_rtt_frame [of sq1 fp t "of_nat a"]
    by (auto simp: sq2_def update_receive_seq_def same_link_def blocks_def sq1_def [symmetric] Let_def split: list.splits)
  then have l: "same_link (sq1\<lparr>input_buf := []\<rparr>) (sq2\<lparr>input_buf := []\<rparr>)" "blocks sq2 = blocks sq1" "written sq2 = written sq1"
    "input_buf sq2 = input_buf sq1"
    by (simp_all add: same_link_def blocks_def)
  let ?len = "\<lambda>b. int (length b)"
  have b: "blocks sq1 = drop (a - r) (blocks sq)" "written sq1 = written sq" "input_buf sq1 = input_buf sq" "receive_seq sq1 = of_nat a"
    "send_seq sq1 = send_seq sq" "last_ack_bytes sq1 = k" "receive_window sq1 = receive_window sq" "need_sync sq1 = need_sync sq"
    "need_ack_bytes sq1 = need_ack_bytes sq - sum_list (map ?len (take (a - r) (blocks sq)))"
    by (simp_all add: sq1_def rm blocks_def drop_map take_map comp_def)
  have "sum_list (map ?len (blocks sq)) = sum_list (map ?len (take (a - r) (blocks sq))) + sum_list (map ?len (drop (a - r) (blocks sq)))"
    by (metis append_take_drop_id map_append sum_list_append)
  moreover have "0 \<le> sum_list (map ?len (take (a - r) (blocks sq)))"
    by (rule sum_list_nonneg) auto
  moreover have "need_ack_bytes sq = sum_list (map ?len (blocks sq))"
    "receive_window sq \<noteq> 0 \<longrightarrow> need_ack_bytes sq \<le> max (int MESSAGE_MAX) (receive_window sq)"
    using assms(1) by (auto simp: host_ok_def)
  ultimately have bytes: "need_ack_bytes sq1 = sum_list (map ?len (blocks sq1))"
    "receive_window sq1 \<noteq> 0 \<longrightarrow> need_ack_bytes sq1 \<le> max (int MESSAGE_MAX) (receive_window sq1)"
    unfolding b by linarith+
  have "\<forall>x \<in> set (blocks sq1). length x \<le> MESSAGE_MAX"
    using assms(1) by (auto simp: b(1) host_ok_def dest: in_set_dropD)
  then have "host_ok a n (sq1\<lparr>input_buf := []\<rparr>)"
    using assms(1-3) h(1,2) k bytes by (auto simp: host_ok_def b MAX_PENDING_BLOCKS_def)
  then show "host_ok a n ((update_receive_seq fp t (of_nat a) sq)\<lparr>input_buf := []\<rparr>)"
    using host_ok_same [OF l(1)] by (simp only: sq2_def)
  show "blocks (update_receive_seq fp t (of_nat a) sq) = drop (a - r) (blocks sq)"
    "written (update_receive_seq fp t (of_nat a) sq) = written sq"
    "input_buf (update_receive_seq fp t (of_nat a) sq) = input_buf sq"
    using l(2-4) b(1-3) by (simp_all only: sq2_def)
qed

lemma same_link_input: "same_link sq sq' \<Longrightarrow> same_link (sq\<lparr>input_buf := x\<rparr>) (sq'\<lparr>input_buf := x\<rparr>)"
  by (simp add: same_link_def)

lemma handle_message_ack:
  assumes "host_ok r n (sq\<lparr>input_buf := []\<rparr>)" "length (input_buf sq) \<le> MESSAGE_MAX" "input_buf sq ! 1 = seq_byte a"
    and "r \<le> a" "a \<le> n" "r + 16 < 2 ^ 64"
  obtains sq' where "handle_message fp now t len sq = Some sq'" "host_ok a n (sq'\<lparr>input_buf := []\<rparr>)"
    "blocks sq' = drop (a - r) (blocks sq)" "written sq' = written sq"
proof -
  have h: "n \<le> r + 12" "receive_seq sq = of_nat r" "send_seq sq = of_nat n"
    using assms(1) by (auto simp: host_ok_def MAX_PENDING_BLOCKS_def)
  have rseq: "receive_seq sq + ((ucast (input_buf sq ! 1) - receive_seq sq) AND ucast MESSAGE_SEQ_MASK) = of_nat a"
    using ack_number [of r a] assms(3-5) h by simp
  have "a < 2 ^ 64" "n < 2 ^ 64" "r < 2 ^ 64"
    using assms(4-6) h(1) by linarith+
  then have u: "unat (of_nat a :: u64) = a" "unat (of_nat n :: u64) = n" "unat (of_nat r :: u64) = r"
    by (simp_all only: unat_u64)
  have le: "\<not> (of_nat a :: u64) > send_seq sq"
    using u assms(5) by (simp only: h(3) word_less_nat_alt)
  have eq: "of_nat a = receive_seq sq \<longleftrightarrow> a = r"
    using u by (metis h(2))
  define sq1 where "sq1 = (if of_nat a \<noteq> receive_seq sq then update_receive_seq fp t (of_nat a) sq else sq)"
  have 1: "host_ok a n (sq1\<lparr>input_buf := []\<rparr>)" "blocks sq1 = drop (a - r) (blocks sq)" "written sq1 = written sq" "input_buf sq1 = input_buf sq"
    using update_receive_seq_ack [OF assms(1) _ assms(5,6), of fp t] assms(1,4) by (auto simp: sq1_def eq)
  define sq2 where "sq2 = sq1\<lparr>bytes_read := bytes_read sq1 + of_nat len\<rparr>"
  obtain m sq3 where n: "notify_loop fp t (of_nat a - 1 - (if len > MESSAGE_MIN then 1 else 0)) (notify_queue sq2) False sq2 = (m, sq3)"
    by fastforce
  have 3: "same_link sq1 sq3"
    using notify_loop_frame [OF n] by (simp add: sq2_def same_link_def blocks_def)
  then have "length (input_buf sq3) \<le> MESSAGE_MAX"
    using assms(2) 1(4) by (simp add: same_link_def)
  then obtain m' sq4 where p: "process_message fp now (of_nat a) len m sq3 = Some (m', sq4)" "same_link sq3 sq4"
    by (rule process_message_frame)
  let ?sq = "check_fast_readers len (if m' then check_wake_receive sq4 else sq4)"
  have "same_link sq1 ?sq"
    using same_link_trans [OF same_link_trans [OF 3 p(2)] readers_frame] .
  moreover have "handle_message fp now t len sq = Some ?sq"
    unfolding handle_message_def Let_def rseq using le n p(1)
    by (simp add: sq1_def [symmetric] sq2_def [symmetric])
  ultimately show ?thesis
    by (intro that [of ?sq] host_ok_same [OF same_link_input 1(1)]) (simp_all add: same_link_def 1(2,3))
qed

lemma input_event_ack:
  assumes "host_ok r n sq" "valid_block f (length f)" "f ! 1 = seq_byte a" "r \<le> a" "a \<le> n" "r + 16 < 2 ^ 64"
  obtains sq' where "input_event fp now (Serial_data f) t sq = Some sq'" "host_ok a n sq'"
    "blocks sq' = drop (a - r) (blocks sq)" "written sq' = written sq"
proof -
  have f: "length f \<le> MESSAGE_MAX" "f \<noteq> []"
    using assms(2) by (auto simp: valid_block_def message_defs)
  let ?sq = "sq\<lparr>input_buf := f\<rparr>"
  have i: "input_buf sq = []" "need_sync sq = 0"
    using assms(1) by (simp_all add: host_ok_def)
  have ok: "host_ok r n (?sq\<lparr>input_buf := []\<rparr>)"
    using assms(1) i by (auto simp: host_ok_def)
  obtain sq' where h: "handle_message fp now t (length f) ?sq = Some sq'" "host_ok a n (sq'\<lparr>input_buf := []\<rparr>)"
    "blocks sq' = drop (a - r) (blocks ?sq)" "written sq' = written ?sq"
    by (rule handle_message_ack [OF ok, of a fp now t "length f"]) (use assms(3-6) f(1) in simp_all)
  have n: "?sq\<lparr>need_sync := 0\<rparr> = ?sq" "need_sync sq' = 0"
    using i h(2) by (simp_all add: host_ok_def)
  have "input_loop fp now t ?sq = input_loop fp now t (sq'\<lparr>input_buf := []\<rparr>)"
    by (subst input_loop.simps) (use i(2) msgblock_check_valid [OF assms(2)] h(1) f(2) in \<open>simp add: n(1)\<close>)
  also have "\<dots> = Some (sq'\<lparr>input_buf := []\<rparr>)"
    by (subst input_loop.simps) (simp add: n msgblock_check_def MESSAGE_MIN_def)
  finally have "input_event fp now (Serial_data f) t sq = Some (sq'\<lparr>input_buf := []\<rparr>)"
    using f(1) by (simp add: input_event_def i INPUT_BUF_SIZE_def MESSAGE_MAX_def)
  then show ?thesis
    using that h(2-4) by simp
qed

text \<open>The blocks under way fit in the buffer of a retransmission.\<close>

lemma host_ok_written [simp]: "host_ok r n (sq\<lparr>written := ws\<rparr>) = host_ok r n sq"
  by (simp add: host_ok_def blocks_def)

lemma concat_length: "\<forall>b \<in> set bs. length b \<le> k \<Longrightarrow> length (concat bs) \<le> k * length bs"
  by (induction bs) auto

lemma retransmit_event_blocks:
  assumes "host_ok r n sq"
  obtains w sq' ws where "retransmit_event fp t sq = Some (w, sq')" "host_ok r n sq'" "blocks sq' = blocks sq"
    "written sq' = written sq @ ws" "concat ws = MESSAGE_SYNC # concat (blocks sq)"
proof -
  have "length (concat (blocks sq)) \<le> MESSAGE_MAX * MAX_PENDING_BLOCKS"
  proof (rule order_trans)
    show "length (concat (blocks sq)) \<le> MESSAGE_MAX * length (blocks sq)"
      using assms by (intro concat_length) (simp add: host_ok_def)
    show "MESSAGE_MAX * length (blocks sq) \<le> MESSAGE_MAX * MAX_PENDING_BLOCKS"
      using assms by (intro mult_le_mono2) (auto simp: host_ok_def)
  qed
  then have fit: "\<not> length (MESSAGE_SYNC # concat (map qm_msg (sent_queue sq))) > MESSAGE_MAX * MAX_PENDING_BLOCKS + 1"
    by (simp add: blocks_def)
  let ?b = "MESSAGE_SYNC # concat (blocks sq)"
  let ?ws = "if serial_fd_type sq = SQT_CAN then can_frames ?b else [?b]"
  define x where "x = the (retransmit_event fp t sq)"
  have e: "retransmit_event fp t sq = Some x"
    unfolding x_def retransmit_event_def Let_def if_not_P [OF fit] by simp
  have "same_link (sq\<lparr>written := written sq @ ?ws\<rparr>) (snd x)"
    unfolding x_def retransmit_event_def Let_def if_not_P [OF fit]
    by (simp add: do_write_def same_link_def blocks_def)
  moreover have "host_ok r n (sq\<lparr>written := written sq @ ?ws\<rparr>)"
    using assms by simp
  ultimately have "host_ok r n (snd x)" "blocks (snd x) = blocks sq" "written (snd x) = written sq @ ?ws"
    by (rule host_ok_same, simp_all add: same_link_def blocks_def)
  then show ?thesis
    using that [of "fst x" "snd x" ?ws] e by (simp add: concat_can_frames)
qed

section \<open>Host and firmware, connected\<close>

text \<open>
  \<open>l_to_mcu\<close> and \<open>l_to_host\<close> is what is under way on the line, \<open>l_built\<close> are all blocks that the host
  has built and \<open>l_accepted\<close> those that the firmware has accepted.
\<close>

record ('d, 'z) link =
  l_host :: "'d serialqueue"
  l_mcu :: "'z command_scheme"
  l_to_mcu :: "u8 list list"
  l_to_host :: "u8 list list"
  l_built :: "u8 list list"
  l_accepted :: "u8 list list"

text \<open>
  The line may lose every block and every message (a damaged one fails the check and is discarded
  like a lost one); noise may change the synchronisation state of the firmware. After an accepted
  block the handlers of the firmware run, which leave the sequence number and the synchronisation
  state alone. The firmware may send a message at any time: acknowledgements and rejections are
  messages without payload.
\<close>

inductive link_step :: "'d double_ops \<Rightarrow> ('d, 'z) link \<Rightarrow> ('d, 'z) link \<Rightarrow> bool" for fp where
  queue: "link_step fp l (l\<lparr>l_host := serialqueue_send_batch cq msgs (l_host l)\<rparr>)"
| estimate: "link_step fp l (l\<lparr>l_host := serialqueue_set_clock_est freq time cclock lclock (l_host l)\<rparr>)"
| pull: "link_step fp l (l\<lparr>l_host := snd (serialqueue_pull (l_host l))\<rparr>)"
| send: "command_event fp t (l_host l) = Some (w, sq) \<Longrightarrow> written sq = written (l_host l) @ ws \<Longrightarrow>
    link_step fp l (l\<lparr>l_host := sq\<lparr>timer_command := w\<rparr>, l_built := l_built l @ split_blocks (concat ws),
                      l_to_mcu := l_to_mcu l @ split_blocks (concat ws)\<rparr>)"
| retransmit: "retransmit_event fp t (l_host l) = Some (w, sq) \<Longrightarrow> written sq = written (l_host l) @ ws \<Longrightarrow>
    link_step fp l (l\<lparr>l_host := sq\<lparr>timer_retransmit := w\<rparr>, l_to_mcu := l_to_mcu l @ split_blocks (concat ws)\<rparr>)"
| lose_block: "l_to_mcu l = xs @ b # ys \<Longrightarrow> link_step fp l (l\<lparr>l_to_mcu := xs @ ys\<rparr>)"
| lose_message: "l_to_host l = xs @ f # ys \<Longrightarrow> link_step fp l (l\<lparr>l_to_host := xs @ ys\<rparr>)"
| noise: "\<not> has f CF_NEED_SYNC \<Longrightarrow> link_step fp l (l\<lparr>l_mcu := (l_mcu l)\<lparr>sync_state := f\<rparr>\<rparr>)"
| receive: "l_to_mcu l = b # ys \<Longrightarrow> command_find_block b (l_mcu l) = (ret, k, s) \<Longrightarrow>
    next_sequence s' = next_sequence s \<Longrightarrow> sync_state s' = sync_state s \<Longrightarrow>
    link_step fp l (l\<lparr>l_to_mcu := ys, l_mcu := s', l_accepted := (if ret > 0 then l_accepted l @ [b] else l_accepted l)\<rparr>)"
| answer: "length payload \<le> 59 \<Longrightarrow>
    link_step fp l (l\<lparr>l_to_host := l_to_host l @ [command_add_frame payload (length payload + 5) (l_mcu l)]\<rparr>)"
| handle: "l_to_host l = f # ys \<Longrightarrow> input_event fp now (Serial_data f) t (l_host l) = Some sq \<Longrightarrow>
    link_step fp l (l\<lparr>l_host := sq, l_to_host := ys\<rparr>)"

text \<open>
  The numbers of the blocks on the way to the firmware (\<open>None\<close> for a SYNC byte). They are less than
  16 away from the number \<open>m\<close> of the next block of the firmware, also when it arrives there.
\<close>

fun piece :: "nat \<Rightarrow> u8 list list \<Rightarrow> nat option \<Rightarrow> u8 list" where
  "piece r0 built None = [MESSAGE_SYNC]"
| "piece r0 built (Some j) = built ! (j - r0)"

definition near :: "nat option \<Rightarrow> nat option \<Rightarrow> bool" where
  "near x y \<longleftrightarrow> (\<forall>i j. x = Some i \<longrightarrow> y = Some j \<longrightarrow> i \<le> j + 14)"

definition down_ok :: "nat \<Rightarrow> u8 list list \<Rightarrow> nat \<Rightarrow> u8 list list \<Rightarrow> bool" where
  "down_ok r0 built m line \<longleftrightarrow> (\<exists>js. line = map (piece r0 built) js \<and> sorted_wrt near js \<and>
     (\<forall>j. Some j \<in> set js \<longrightarrow> r0 \<le> j \<and> j < r0 + length built \<and> m \<le> j + 15))"

text \<open>The acknowledgements on the way to the host lie between its number \<open>r\<close> and \<open>m\<close>, in order.\<close>

definition up_ok :: "nat \<Rightarrow> nat \<Rightarrow> u8 list list \<Rightarrow> bool" where
  "up_ok r m line \<longleftrightarrow> (\<exists>as. list_all2 (\<lambda>f a. valid_block f (length f) \<and> f ! 1 = seq_byte a) line as \<and> sorted as \<and>
     (\<forall>a \<in> set as. r \<le> a \<and> a \<le> m))"

definition link_ok :: "nat \<Rightarrow> nat \<Rightarrow> nat \<Rightarrow> ('d, 'z) link \<Rightarrow> bool" where
  "link_ok r0 r m l \<longleftrightarrow> host_ok r (r0 + length (l_built l)) (l_host l) \<and> r0 \<le> r \<and> r \<le> m \<and> r0 + length (l_accepted l) = m \<and>
     blocks (l_host l) = drop (r - r0) (l_built l) \<and> take (length (l_accepted l)) (l_built l) = l_accepted l \<and>
     (\<forall>k < length (l_built l). \<exists>p. length p \<le> 59 \<and> l_built l ! k = host_block (of_nat (r0 + k)) p) \<and>
     next_sequence (l_mcu l) = seq_byte m \<and> \<not> has (sync_state (l_mcu l)) CF_NEED_SYNC \<and>
     down_ok r0 (l_built l) m (l_to_mcu l) \<and> up_ok r m (l_to_host l)"

lemma link_ok_host:
  assumes "link_ok r0 r m l" "same_link (l_host l) sq"
  shows "link_ok r0 r m (l\<lparr>l_host := sq\<rparr>)"
  using assms host_ok_same [OF assms(2)] by (simp add: link_ok_def same_link_def)

lemma built_valid:
  assumes "link_ok r0 r m l" "k < length (l_built l)"
  shows "valid_block (l_built l ! k) (length (l_built l ! k))" "l_built l ! k ! 1 = seq_byte (r0 + k)" "l_built l ! k \<noteq> [MESSAGE_SYNC]"
proof -
  obtain p where p: "length p \<le> 59" "l_built l ! k = host_block (of_nat (r0 + k)) p"
    using assms by (auto simp: link_ok_def)
  show "valid_block (l_built l ! k) (length (l_built l ! k))" "l_built l ! k ! 1 = seq_byte (r0 + k)" "l_built l ! k \<noteq> [MESSAGE_SYNC]"
    using host_block_valid [OF p(1), of "r0 + k"] unfolding p(2) by (auto dest: arg_cong [of _ _ length])
qed

text \<open>New blocks at the end of the line.\<close>

lemma down_ok_append:
  assumes "down_ok r0 built m line" "\<forall>j \<in> set js. r0 \<le> j \<and> j < r0 + length built \<and> m \<le> j + 15 \<and> r0 + length built \<le> j + 15"
    and "sorted js" "new = map (piece r0 built) (sync @ map Some js)" "set sync \<subseteq> {None}"
  shows "down_ok r0 built m (line @ new)"
proof -
  obtain qs where i: "line = map (piece r0 built) qs" "sorted_wrt near qs" "\<forall>j. Some j \<in> set qs \<longrightarrow> r0 \<le> j \<and> j < r0 + length built \<and> m \<le> j + 15"
    using assms(1) by (auto simp: down_ok_def)
  have "sorted_wrt near (map Some js)"
    using assms(3) by (auto simp: sorted_wrt_map near_def elim!: sorted_wrt_mono_rel [rotated])
  moreover have "sorted_wrt near sync"
    using assms(5) by (induction sync) (auto simp: near_def)
  ultimately have "sorted_wrt near (qs @ sync @ map Some js)"
    using i(2,3) assms(2,5) by (fastforce simp: sorted_wrt_append near_def)
  then show ?thesis
    unfolding down_ok_def using i assms(2,4,5)
    by (intro exI [of _ "qs @ sync @ map Some js"]) auto
qed

lemma down_ok_built:
  assumes "down_ok r0 built m line"
  shows "down_ok r0 (built @ bs) m line"
proof -
  obtain js where js: "line = map (piece r0 built) js" "sorted_wrt near js"
    "\<forall>j. Some j \<in> set js \<longrightarrow> r0 \<le> j \<and> j < r0 + length built \<and> m \<le> j + 15"
    using assms by (auto simp: down_ok_def)
  have "piece r0 built x = piece r0 (built @ bs) x" if "x \<in> set js" for x
    by (cases x) (use that js(3) in \<open>auto simp: nth_append\<close>)
  then have "line = map (piece r0 (built @ bs)) js"
    using js(1) by simp
  then show ?thesis
    using js(2,3) unfolding down_ok_def by (intro exI [of _ js]) auto
qed

lemma down_ok_lose: "down_ok r0 built m (xs @ b # ys) \<Longrightarrow> down_ok r0 built m (xs @ ys)"
proof -
  assume "down_ok r0 built m (xs @ b # ys)"
  then obtain js where js: "xs @ b # ys = map (piece r0 built) js" "sorted_wrt near js"
    "\<forall>j. Some j \<in> set js \<longrightarrow> r0 \<le> j \<and> j < r0 + length built \<and> m \<le> j + 15"
    by (auto simp: down_ok_def)
  then obtain js1 x js2 where s: "js = js1 @ x # js2" "xs = map (piece r0 built) js1" "ys = map (piece r0 built) js2"
    by (auto simp: append_eq_map_conv Cons_eq_map_conv)
  then show "down_ok r0 built m (xs @ ys)"
    using js unfolding down_ok_def by (intro exI [of _ "js1 @ js2"]) (auto simp: sorted_wrt_append)
qed

lemma up_ok_lose: "up_ok r m (xs @ f # ys) \<Longrightarrow> up_ok r m (xs @ ys)"
proof -
  assume "up_ok r m (xs @ f # ys)"
  then obtain as where a: "list_all2 (\<lambda>f a. valid_block f (length f) \<and> f ! 1 = seq_byte a) (xs @ f # ys) as" "sorted as"
    "\<forall>a \<in> set as. r \<le> a \<and> a \<le> m"
    by (auto simp: up_ok_def)
  then obtain as1 x as2 where "as = as1 @ x # as2" "list_all2 (\<lambda>f a. valid_block f (length f) \<and> f ! 1 = seq_byte a) xs as1"
    "list_all2 (\<lambda>f a. valid_block f (length f) \<and> f ! 1 = seq_byte a) ys as2"
    by (auto simp: list_all2_append1 list_all2_Cons1)
  then show "up_ok r m (xs @ ys)"
    using a(2,3) unfolding up_ok_def by (intro exI [of _ "as1 @ as2"]) (auto simp: sorted_append list_all2_appendI)
qed

lemma link_facts:
  assumes "link_ok r0 r m l"
  shows "m \<le> r0 + length (l_built l)" "r \<le> r0 + length (l_built l)" "r0 + length (l_built l) \<le> r + 12" "r0 \<le> r" "r \<le> m"
proof -
  have "length (take (length (l_accepted l)) (l_built l)) = length (l_accepted l)"
    using assms by (simp add: link_ok_def)
  then have "length (l_accepted l) \<le> length (l_built l)"
    by simp
  then show "m \<le> r0 + length (l_built l)" "r \<le> r0 + length (l_built l)" "r0 + length (l_built l) \<le> r + 12" "r0 \<le> r" "r \<le> m"
    using assms by (auto simp: link_ok_def host_ok_def MAX_PENDING_BLOCKS_def)
qed

lemma timer_frame_link [simp]:
  "host_ok r n (sq\<lparr>timer_command := w\<rparr>) = host_ok r n sq" "blocks (sq\<lparr>timer_command := w\<rparr>) = blocks sq"
  "host_ok r n (sq\<lparr>timer_retransmit := w\<rparr>) = host_ok r n sq" "blocks (sq\<lparr>timer_retransmit := w\<rparr>) = blocks sq"
  by (simp_all add: host_ok_def blocks_def)

lemma link_ok_send:
  assumes "\<not> d_eq fp (PR_NEVER fp) (PR_NOW fp)" "r0 + length (l_built l) + 16 < 2 ^ 64" "link_ok r0 r m l"
    and "command_event fp t (l_host l) = Some (w, sq)" "written sq = written (l_host l) @ ws"
  shows "link_ok r0 r m (l\<lparr>l_host := sq\<lparr>timer_command := w\<rparr>, l_built := l_built l @ split_blocks (concat ws),
    l_to_mcu := l_to_mcu l @ split_blocks (concat ws)\<rparr>)"
proof -
  let ?n = "r0 + length (l_built l)"
  note f = link_facts [OF assms(3)]
  have b: "r + 16 < 2 ^ 64" "host_ok r ?n (l_host l)" "blocks (l_host l) = drop (r - r0) (l_built l)"
    "r0 + length (l_accepted l) = m" "take (length (l_accepted l)) (l_built l) = l_accepted l" "down_ok r0 (l_built l) m (l_to_mcu l)"
    "\<forall>k < length (l_built l). \<exists>p. length p \<le> 59 \<and> l_built l ! k = host_block (of_nat (r0 + k)) p"
    using assms(2,3) f by (auto simp: link_ok_def)
  obtain bs ws' where s: "host_ok r (?n + length bs) sq" "blocks sq = blocks (l_host l) @ bs" "written sq = written (l_host l) @ ws'"
    "concat ws' = concat bs" and p: "\<forall>k < length bs. \<exists>p. length p \<le> 59 \<and> bs ! k = host_block (of_nat (?n + k)) p"
    using command_loop_sends [OF assms(1) b(1,2) assms(4) [unfolded command_event_def]] unfolding append_Nil by blast
  have "\<forall>x \<in> set bs. valid_block x (length x)"
  proof
    fix x
    assume "x \<in> set bs"
    then obtain k p where "x = host_block (of_nat (?n + k)) p" "length p \<le> 59"
      using p unfolding in_set_conv_nth by blast
    then show "valid_block x (length x)"
      using host_block_valid(1,3) [of p "?n + k"] by (simp only:)
  qed
  then have ws: "split_blocks (concat ws) = bs"
    using split_blocks_concat s(3,4) assms(5) by simp
  have n': "?n + length bs \<le> r + 12"
    using s(1) by (simp add: host_ok_def MAX_PENDING_BLOCKS_def)
  have "bs = map (piece r0 (l_built l @ bs)) ([] @ map Some [?n..<?n + length bs])"
    by (rule nth_equalityI) (auto simp: nth_append)
  then have "down_ok r0 (l_built l @ bs) m (l_to_mcu l @ bs)"
    using down_ok_append [OF down_ok_built [OF b(6), of bs], of "[?n..<?n + length bs]" bs "[]"] n' f by auto
  moreover have "\<forall>k < length (l_built l @ bs). \<exists>p. length p \<le> 59 \<and> (l_built l @ bs) ! k = host_block (of_nat (r0 + k)) p"
  proof (intro allI impI)
    fix k
    assume "k < length (l_built l @ bs)"
    then show "\<exists>p. length p \<le> 59 \<and> (l_built l @ bs) ! k = host_block (of_nat (r0 + k)) p"
      using b(7) p [rule_format, of "k - length (l_built l)"] by (cases "k < length (l_built l)") (auto simp: nth_append)
  qed
  moreover have "host_ok r (r0 + length (l_built l @ bs)) (sq\<lparr>timer_command := w\<rparr>)" "blocks (sq\<lparr>timer_command := w\<rparr>) = drop (r - r0) (l_built l @ bs)"
    using s(1,2) b(3) f by (simp_all add: add.assoc)
  moreover have "take (length (l_accepted l)) (l_built l @ bs) = l_accepted l"
    using b(4,5) f(1) by simp
  ultimately show ?thesis
    using assms(3) by (simp add: ws link_ok_def)
qed

text \<open>A retransmission puts all blocks that are not acknowledged on the line.\<close>

lemma retransmit_pieces:
  assumes "link_ok r0 r m l"
  obtains w sq ws where "retransmit_event fp t (l_host l) = Some (w, sq)" "written sq = written (l_host l) @ ws"
    "split_blocks (concat ws) = map (piece r0 (l_built l)) ([None] @ map Some [r..<r0 + length (l_built l)])"
    "host_ok r (r0 + length (l_built l)) sq" "blocks sq = blocks (l_host l)"
proof -
  let ?n = "r0 + length (l_built l)"
  have b: "host_ok r ?n (l_host l)" "blocks (l_host l) = drop (r - r0) (l_built l)"
    using assms by (simp_all add: link_ok_def)
  obtain w sq ws where e: "retransmit_event fp t (l_host l) = Some (w, sq)" "host_ok r ?n sq" "blocks sq = blocks (l_host l)"
    "written sq = written (l_host l) @ ws" "concat ws = MESSAGE_SYNC # concat (blocks (l_host l))"
    using b(1) by (rule retransmit_event_blocks)
  have v: "\<forall>x \<in> set (blocks (l_host l)). valid_block x (length x)"
  proof
    fix x
    assume "x \<in> set (blocks (l_host l))"
    then have "x \<in> set (l_built l)"
      unfolding b(2) by (rule in_set_dropD)
    then obtain k where "k < length (l_built l)" "x = l_built l ! k"
      unfolding in_set_conv_nth by blast
    then show "valid_block x (length x)"
      using built_valid(1) [OF assms] by simp
  qed
  have "blocks (l_host l) = map (piece r0 (l_built l)) (map Some [r..<?n])"
    unfolding b(2) using link_facts [OF assms] by (intro nth_equalityI) auto
  then have "split_blocks (concat ws) = map (piece r0 (l_built l)) ([None] @ map Some [r..<?n])"
    using split_blocks_concat [OF v] e(5) split_blocks_sync by simp
  then show ?thesis
    by (rule that [OF e(1,4) _ e(2,3)])
qed

lemma link_ok_retransmit:
  assumes "link_ok r0 r m l" "retransmit_event fp t (l_host l) = Some (w, sq)" "written sq = written (l_host l) @ ws"
  shows "link_ok r0 r m (l\<lparr>l_host := sq\<lparr>timer_retransmit := w\<rparr>, l_to_mcu := l_to_mcu l @ split_blocks (concat ws)\<rparr>)"
proof -
  let ?n = "r0 + length (l_built l)"
  obtain w' sq' ws' where e: "retransmit_event fp t (l_host l) = Some (w', sq')" "written sq' = written (l_host l) @ ws'"
    "split_blocks (concat ws') = map (piece r0 (l_built l)) ([None] @ map Some [r..<?n])" "host_ok r ?n sq'" "blocks sq' = blocks (l_host l)"
    using assms(1) by (rule retransmit_pieces)
  have s: "sq' = sq" "ws' = ws"
    using e(1,2) assms(2,3) by simp_all
  have "down_ok r0 (l_built l) m (l_to_mcu l)"
    using assms(1) by (simp add: link_ok_def)
  then have "down_ok r0 (l_built l) m (l_to_mcu l @ split_blocks (concat ws))"
    using e(3) link_facts [OF assms(1)] unfolding s by (intro down_ok_append [of _ _ _ _ "[r..<?n]" _ "[None]"]) auto
  then show ?thesis
    using assms(1) e(4,5) s(1) by (simp add: link_ok_def)
qed

text \<open>A block that arrives has the number that the firmware expects, or is not accepted.\<close>

lemma expected_number:
  assumes "seq_byte j = seq_byte m" "m \<le> j + 15" "j < m + 16"
  shows "j = m"
proof -
  have "j mod 16 = m mod 16"
    using assms(1) by (simp add: seq_byte_eq_iff)
  then have "int (j div 16) * 16 - int (m div 16) * 16 = int j - int m"
    using div_mult_mod_eq [of j 16] div_mult_mod_eq [of m 16] by linarith
  moreover define q where "q = int (j div 16) - int (m div 16)"
  ultimately have "int j - int m = 16 * q" "- 15 \<le> 16 * q" "16 * q \<le> 15"
    using assms(2,3) by (simp_all add: algebra_simps)
  moreover from this(2,3) have "q = 0"
    by presburger
  ultimately show ?thesis
    by simp
qed

lemma link_ok_receive:
  assumes "link_ok r0 r m l" "l_to_mcu l = b # ys" "command_find_block b (l_mcu l) = (ret, k, s)"
    and "next_sequence s' = next_sequence s" "sync_state s' = sync_state s"
  shows "link_ok r0 r (if ret > 0 then Suc m else m)
      (l\<lparr>l_to_mcu := ys, l_mcu := s', l_accepted := (if ret > 0 then l_accepted l @ [b] else l_accepted l)\<rparr>) \<and>
    (ret > 0 \<longleftrightarrow> b \<noteq> [MESSAGE_SYNC] \<and> b ! 1 = seq_byte m)"
proof -
  note f = link_facts [OF assms(1)]
  have mcu: "next_sequence (l_mcu l) = seq_byte m" "\<not> has (sync_state (l_mcu l)) CF_NEED_SYNC"
    using assms(1) by (simp_all add: link_ok_def)
  obtain x js where js: "b = piece r0 (l_built l) x" "ys = map (piece r0 (l_built l)) js" "sorted_wrt near (x # js)"
    "\<forall>j. Some j \<in> set (x # js) \<longrightarrow> r0 \<le> j \<and> j < r0 + length (l_built l) \<and> m \<le> j + 15"
    using assms(1,2) by (auto simp: link_ok_def down_ok_def Cons_eq_map_conv)
  have keep: "down_ok r0 (l_built l) m ys"
    using js by (auto simp: down_ok_def)
  have same: ?thesis if "\<not> ret > 0" "next_sequence s = seq_byte m" "\<not> has (sync_state s) CF_NEED_SYNC"
      "b = [MESSAGE_SYNC] \<or> b ! 1 \<noteq> seq_byte m"
    using that assms(1,4,5) keep by (simp add: link_ok_def)
  show ?thesis
  proof (cases x)
    case None
    then show ?thesis
      using assms(3) mcu js(1) by (intro same) (auto simp: command_find_block_def MESSAGE_MIN_def)
  next
    case (Some j)
    have j: "r0 \<le> j" "j < r0 + length (l_built l)" "m \<le> j + 15"
      using js(4) Some by auto
    let ?k = "j - r0"
    have v: "valid_block b (length b)" "b ! 1 = seq_byte j" "b = l_built l ! ?k" "b \<noteq> [MESSAGE_SYNC]"
      using built_valid [OF assms(1), of ?k] j js(1) Some by auto
    have n: "\<not> has (sync_state (l_mcu l) AND NOT CF_NEED_VALID) CF_NEED_SYNC"
      using mcu(2) by (auto simp: has_def CF_NEED_SYNC_def CF_NEED_VALID_def word_bits_iff bit_and_iff bit_not_iff bit_1_iff)
    show ?thesis
    proof (cases "seq_byte j = seq_byte m")
      case False
      then show ?thesis
        using find_block_valid [OF v(1) mcu(2)] assms(3) v(2) mcu(1) n
        by (intro same) (auto simp: Let_def command_sendf_def console_sendf_log_def)
    next
      case True
      then have jm: "j = m"
        using j f by (intro expected_number) auto
      have fb: "ret = 1" "next_sequence s = seq_byte (Suc m)" "\<not> has (sync_state s) CF_NEED_SYNC"
        using find_block_valid [OF v(1) mcu(2)] assms(3) v(2) mcu(1) n True by (auto simp: Let_def next_seq_byte)
      have acc: "r0 + length (l_accepted l) = m" "take (length (l_accepted l)) (l_built l) = l_accepted l"
        using assms(1) by (simp_all add: link_ok_def)
      have "take (Suc ?k) (l_built l) = take ?k (l_built l) @ [l_built l ! ?k]"
        using j by (intro take_Suc_conv_app_nth) simp
      moreover have "length (l_accepted l) = ?k"
        using acc(1) jm by simp
      ultimately have "take (length (l_accepted l @ [b])) (l_built l) = l_accepted l @ [b]"
        using acc(2) v(3) by simp
      moreover have "down_ok r0 (l_built l) (Suc m) ys"
        using js(2-4) Some jm by (auto simp: down_ok_def near_def intro!: exI [of _ js])
      moreover have "up_ok r (Suc m) (l_to_host l)"
        using assms(1) unfolding link_ok_def up_ok_def by (meson le_SucI)
      ultimately show ?thesis
        using assms(1,4,5) fb acc(1) v(2,4) True by (simp add: link_ok_def)
    qed
  qed
qed

lemma link_ok_answer:
  assumes "link_ok r0 r m l" "length payload \<le> 59"
  shows "link_ok r0 r m (l\<lparr>l_to_host := l_to_host l @ [command_add_frame payload (length payload + 5) (l_mcu l)]\<rparr>)"
proof -
  let ?f = "command_add_frame payload (length payload + 5) (l_mcu l)"
  have s: "next_sequence (l_mcu l) = seq_byte m" "r \<le> m" "up_ok r m (l_to_host l)"
    using assms(1) by (simp_all add: link_ok_def)
  have "length ?f = length payload + 5"
    by (simp add: command_add_frame_def Let_def)
  then have v: "valid_block ?f (length ?f)" "?f ! 1 = seq_byte m"
    using frame_valid [of payload "l_mcu l" ?f "[]"] assms(2) s(1) seq_byte_dest by simp_all
  obtain as where "list_all2 (\<lambda>f a. valid_block f (length f) \<and> f ! 1 = seq_byte a) (l_to_host l) as" "sorted as" "\<forall>a \<in> set as. r \<le> a \<and> a \<le> m"
    using s(3) by (auto simp: up_ok_def)
  then have "up_ok r m (l_to_host l @ [?f])"
    unfolding up_ok_def using v s(2) by (intro exI [of _ "as @ [m]"]) (auto simp: sorted_append intro: list_all2_appendI)
  then show ?thesis
    using assms(1) by (simp add: link_ok_def)
qed

lemma link_ok_handle:
  assumes "r0 + length (l_built l) + 16 < 2 ^ 64" "link_ok r0 r m l" "l_to_host l = f # ys"
    and "input_event fp now (Serial_data f) t (l_host l) = Some sq"
  shows "\<exists>r. link_ok r0 r m (l\<lparr>l_host := sq, l_to_host := ys\<rparr>)"
proof -
  note g = link_facts [OF assms(2)]
  obtain a as where a: "valid_block f (length f)" "f ! 1 = seq_byte a" "r \<le> a" "a \<le> m"
    "list_all2 (\<lambda>f a. valid_block f (length f) \<and> f ! 1 = seq_byte a) ys as" "sorted as" "\<forall>x \<in> set as. a \<le> x \<and> x \<le> m"
    using assms(2,3) by (auto simp: link_ok_def up_ok_def list_all2_Cons1)
  have h: "host_ok r (r0 + length (l_built l)) (l_host l)" "blocks (l_host l) = drop (r - r0) (l_built l)" "a \<le> r0 + length (l_built l)" "r + 16 < 2 ^ 64"
    using assms(1,2) g a(4) by (simp_all add: link_ok_def)
  obtain sq' where "input_event fp now (Serial_data f) t (l_host l) = Some sq'" "host_ok a (r0 + length (l_built l)) sq'"
    "blocks sq' = drop (a - r) (blocks (l_host l))" "written sq' = written (l_host l)"
    by (rule input_event_ack [OF h(1) a(1,2,3) h(3,4)])
  then have sq: "host_ok a (r0 + length (l_built l)) sq" "blocks sq = drop (a - r0) (l_built l)"
    using assms(4) h(2) a(3) g(4) by simp_all
  have "up_ok a m ys"
    using a(5-7) by (auto simp: up_ok_def)
  then show ?thesis
    using assms(2) sq a(3,4) g(4) by (intro exI [of _ a]) (simp add: link_ok_def)
qed

lemma queue_frame: "same_link sq (serialqueue_send_batch cq msgs sq)"
  by (simp add: serialqueue_send_batch_def kick_bg_thread_def same_link_def blocks_def Let_def)

lemma estimate_frame: "same_link sq (serialqueue_set_clock_est freq time cclock lclock sq)"
  by (simp add: serialqueue_set_clock_est_def same_link_def blocks_def)

lemma pull_frame: "same_link sq (snd (serialqueue_pull sq))"
  by (simp add: serialqueue_pull_def same_link_def blocks_def Let_def split: list.splits)

lemma link_step_ok:
  assumes "\<not> d_eq fp (PR_NEVER fp) (PR_NOW fp)" "link_step fp l l'" "r0 + length (l_built l) + 16 < 2 ^ 64" "link_ok r0 r m l"
  shows "\<exists>r m. link_ok r0 r m l'"
  using assms(2)
proof cases
  case (queue cq msgs)
  show ?thesis
    unfolding queue by (intro exI, rule link_ok_host [OF assms(4) queue_frame])
next
  case (estimate freq time cclock lclock)
  show ?thesis
    unfolding estimate by (intro exI, rule link_ok_host [OF assms(4) estimate_frame])
next
  case pull
  show ?thesis
    unfolding pull by (intro exI, rule link_ok_host [OF assms(4) pull_frame])
next
  case (send t w sq ws)
  show ?thesis
    unfolding send(1) by (intro exI, rule link_ok_send [OF assms(1,3,4) send(2,3)])
next
  case (retransmit t w sq ws)
  show ?thesis
    unfolding retransmit(1) by (intro exI, rule link_ok_retransmit [OF assms(4) retransmit(2,3)])
next
  case (lose_block xs b ys)
  have "down_ok r0 (l_built l) m (xs @ b # ys)"
    using assms(4) by (simp add: link_ok_def lose_block(2))
  then have "down_ok r0 (l_built l) m (xs @ ys)"
    by (rule down_ok_lose)
  then show ?thesis
    using assms(4) lose_block(1) by (intro exI [of _ r] exI [of _ m]) (simp add: link_ok_def)
next
  case (lose_message xs f ys)
  have "up_ok r m (xs @ f # ys)"
    using assms(4) by (simp add: link_ok_def lose_message(2))
  then have "up_ok r m (xs @ ys)"
    by (rule up_ok_lose)
  then show ?thesis
    using assms(4) lose_message(1) by (intro exI [of _ r] exI [of _ m]) (simp add: link_ok_def)
next
  case (noise f)
  then show ?thesis
    using assms(4) by (intro exI [of _ r] exI [of _ m]) (simp add: link_ok_def)
next
  case (receive b ys ret k s s')
  show ?thesis
    unfolding receive(1) by (intro exI, rule link_ok_receive [OF assms(4) receive(2-5), THEN conjunct1])
next
  case (answer payload)
  show ?thesis
    unfolding answer(1) by (intro exI, rule link_ok_answer [OF assms(4) answer(2)])
next
  case (handle f ys now t sq)
  show ?thesis
    unfolding handle(1) by (rule exE [OF link_ok_handle [OF assms(3,4) handle(2,3)]]) (intro exI)
qed

lemma link_step_built: "link_step fp l l' \<Longrightarrow> length (l_built l) \<le> length (l_built l')"
  by (induction rule: link_step.induct) simp_all

text \<open>An established connection: both sides agree on the number \<open>r0\<close> of the next block, and nothing is under way.\<close>

definition link_start :: "nat \<Rightarrow> ('d, 'z) link \<Rightarrow> bool" where
  "link_start r0 l \<longleftrightarrow> receive_seq (l_host l) = of_nat r0 \<and> send_seq (l_host l) = of_nat r0 \<and> sent_queue (l_host l) = [] \<and>
     input_buf (l_host l) = [] \<and> need_sync (l_host l) = 0 \<and> need_ack_bytes (l_host l) = 0 \<and> 0 \<le> last_ack_bytes (l_host l) \<and>
     next_sequence (l_mcu l) = seq_byte r0 \<and> \<not> has (sync_state (l_mcu l)) CF_NEED_SYNC \<and>
     l_to_mcu l = [] \<and> l_to_host l = [] \<and> l_built l = [] \<and> l_accepted l = []"

lemma link_start_ok: "link_start r0 l \<Longrightarrow> link_ok r0 r0 r0 l"
  by (auto simp: link_start_def link_ok_def host_ok_def blocks_def down_ok_def up_ok_def MESSAGE_MAX_def)

lemma link_reachable_ok:
  assumes "\<not> d_eq fp (PR_NEVER fp) (PR_NOW fp)" "link_start r0 l" "(link_step fp)\<^sup>*\<^sup>* l l'" "r0 + length (l_built l') + 16 < 2 ^ 64"
  shows "\<exists>r m. link_ok r0 r m l'"
  using assms(3,4)
proof (induction rule: rtranclp_induct)
  case base
  then show ?case
    using link_start_ok [OF assms(2)] by blast
next
  case (step l1 l2)
  have b: "r0 + length (l_built l1) + 16 < 2 ^ 64"
    using link_step_built [OF step.hyps(2)] step.prems by linarith
  then obtain r m where "link_ok r0 r m l1"
    using step.IH by blast
  then show ?case
    by (rule link_step_ok [OF assms(1) step.hyps(2) b])
qed

text \<open>Blocks that arrive one after the other, without a loss, are all accepted.\<close>

lemma receive_all:
  assumes "link_ok r0 r m l" "l_to_mcu l = map (piece r0 (l_built l)) (map Some [j..<r0 + length (l_built l)])" "j \<le> m" "r0 \<le> j"
  shows "\<exists>l'. (link_step fp)\<^sup>*\<^sup>* l l' \<and> l_built l' = l_built l \<and> l_accepted l' = l_built l"
  using assms
proof (induction "r0 + length (l_built l) - j" arbitrary: j m l)
  case 0
  have "r0 + length (l_accepted l) = m" "take (length (l_accepted l)) (l_built l) = l_accepted l"
    using "0.prems"(1) by (simp_all add: link_ok_def)
  moreover have "length (l_built l) \<le> length (l_accepted l)"
    using calculation(1) "0.hyps" "0.prems"(3) by linarith
  ultimately show ?case
    by (intro exI [of _ l]) simp
next
  case (Suc d)
  let ?b = "l_built l ! (j - r0)"
  let ?ys = "map (piece r0 (l_built l)) (map Some [Suc j..<r0 + length (l_built l)])"
  have j: "j < r0 + length (l_built l)"
    using Suc.hyps(2) by simp
  then have line: "l_to_mcu l = ?b # ?ys"
    using Suc.prems(2) by (simp add: upt_conv_Cons)
  obtain ret k s where fb: "command_find_block ?b (l_mcu l) = (ret, k, s)"
    by (cases "command_find_block ?b (l_mcu l)")
  define l1 where "l1 = l\<lparr>l_to_mcu := ?ys, l_mcu := s, l_accepted := (if ret > 0 then l_accepted l @ [?b] else l_accepted l)\<rparr>"
  have step: "link_step fp l l1"
    unfolding l1_def by (rule link_step.receive [OF line fb refl refl])
  have "link_ok r0 r (if ret > 0 then Suc m else m) l1 \<and> (ret > 0 \<longleftrightarrow> ?b \<noteq> [MESSAGE_SYNC] \<and> ?b ! 1 = seq_byte m)"
    unfolding l1_def by (rule link_ok_receive [OF Suc.prems(1) line fb refl refl])
  then have ok: "link_ok r0 r (if ret > 0 then Suc m else m) l1" and acc: "ret > 0 \<longleftrightarrow> ?b \<noteq> [MESSAGE_SYNC] \<and> ?b ! 1 = seq_byte m"
    by (rule conjunct1, rule conjunct2)
  have "Suc j \<le> (if ret > 0 then Suc m else m)"
    using acc built_valid(2,3) [OF Suc.prems(1), of "j - r0"] j Suc.prems(3,4) by (cases "j = m") auto
  moreover have "d = r0 + length (l_built l1) - Suc j" "r0 \<le> Suc j"
    "l_to_mcu l1 = map (piece r0 (l_built l1)) (map Some [Suc j..<r0 + length (l_built l1)])"
    using Suc.hyps(2) Suc.prems(4) by (simp_all add: l1_def)
  ultimately obtain l' where l': "(link_step fp)\<^sup>*\<^sup>* l1 l'" "l_built l' = l_built l1" "l_accepted l' = l_built l1"
    using Suc.hyps(1) [OF _ ok, of "Suc j"] by blast
  have "(link_step fp)\<^sup>*\<^sup>* l l'"
    using step l'(1) by (rule converse_rtranclp_into_rtranclp)
  then show ?case
    using l'(2,3) by (intro exI [of _ l']) (simp add: l1_def)
qed

lemma lose_all: "(link_step fp)\<^sup>*\<^sup>* l (l\<lparr>l_to_mcu := []\<rparr>)"
proof (induction "l_to_mcu l" arbitrary: l)
  case Nil
  then have "l\<lparr>l_to_mcu := []\<rparr> = l"
    by simp
  then show ?case
    by simp
next
  case (Cons b ys)
  have "link_step fp l (l\<lparr>l_to_mcu := [] @ ys\<rparr>)"
    by (rule link_step.lose_block [where b = b]) (simp add: Cons.hyps(2) [symmetric])
  then show ?case
    using Cons.hyps(1) [of "l\<lparr>l_to_mcu := ys\<rparr>"] by (simp add: converse_rtranclp_into_rtranclp)
qed

lemma link_ok_recovers:
  assumes "link_ok r0 r m l"
  shows "\<exists>l'. (link_step fp)\<^sup>*\<^sup>* l l' \<and> l_built l' = l_built l \<and> l_accepted l' = l_built l"
proof -
  let ?n = "r0 + length (l_built l)"
  define l1 where "l1 = l\<lparr>l_to_mcu := []\<rparr>"
  have ok1: "link_ok r0 r m l1"
    using assms by (auto simp: l1_def link_ok_def down_ok_def)
  obtain w sq ws where e: "retransmit_event fp (d_int fp 0) (l_host l1) = Some (w, sq)" "written sq = written (l_host l1) @ ws"
    "split_blocks (concat ws) = map (piece r0 (l_built l1)) ([None] @ map Some [r..<r0 + length (l_built l1)])"
    "host_ok r (r0 + length (l_built l1)) sq" "blocks sq = blocks (l_host l1)"
    using ok1 by (rule retransmit_pieces)
  define l2 where "l2 = l1\<lparr>l_host := sq\<lparr>timer_retransmit := w\<rparr>, l_to_mcu := l_to_mcu l1 @ split_blocks (concat ws)\<rparr>"
  have ok2: "link_ok r0 r m l2"
    unfolding l2_def by (rule link_ok_retransmit [OF ok1 e(1,2)])
  have s2: "link_step fp l1 l2"
    unfolding l2_def by (rule link_step.retransmit [OF e(1,2)])
  have line: "l_to_mcu l2 = [MESSAGE_SYNC] # map (piece r0 (l_built l)) (map Some [r..<?n])"
    using e(3) by (simp add: l2_def l1_def)
  define l3 where "l3 = l2\<lparr>l_to_mcu := map (piece r0 (l_built l)) (map Some [r..<?n])\<rparr>"
  have s3: "link_step fp l2 l3"
    using link_step.lose_block [of l2 "[]" "[MESSAGE_SYNC]" "l_to_mcu l3" fp] line by (simp add: l3_def)
  have "down_ok r0 (l_built l) m ([] @ [MESSAGE_SYNC] # l_to_mcu l3)"
    using ok2 line by (simp add: link_ok_def l3_def l2_def l1_def)
  then have "down_ok r0 (l_built l) m ([] @ l_to_mcu l3)"
    by (rule down_ok_lose)
  then have "link_ok r0 r m l3"
    using ok2 by (simp add: link_ok_def l3_def l2_def l1_def)
  then obtain l' where "(link_step fp)\<^sup>*\<^sup>* l3 l'" "l_built l' = l_built l" "l_accepted l' = l_built l"
    using receive_all [of r0 r m l3 r fp] link_facts [OF assms] by (auto simp: l3_def l2_def l1_def)
  then show ?thesis
    using lose_all [of fp l] s2 s3 unfolding l1_def [symmetric] by (meson converse_rtranclp_into_rtranclp rtranclp_trans)
qed

section \<open>Decoding on the host\<close>

lemma decode_loop_inside:
  assumes "valid_block f (length f)" "p \<le> length f"
  shows "decode_loop n f p (length f - 3) data \<noteq> None"
  using assms(2)
proof (induction n arbitrary: p data)
  case (Suc n)
  have q: "length f - 1 < length f" "\<not> has (f ! (length f - 1)) 0x80"
    using assms(1) by (auto simp: valid_block_def message_defs MESSAGE_SYNC_def has_def)
  show ?case
  proof (cases "p \<ge> length f - 3")
    case False
    then have "p \<le> length f - 1"
      by simp
    then obtain v p' where "parse_int f p = Some (v, p')" "p' \<le> Suc (length f - 1)"
      using parse_int_inside [OF q, of p] by blast
    then show ?thesis
      using Suc.IH [of p' "data @ [v]"] False q(1) by (simp add: host_parse_int_eq)
  qed simp
qed simp

lemma decode_loop_ints:
  assumes "f = pre @ concat (map encode_int vs) @ post"
  shows "decode_loop (length vs) f (length pre) (length (pre @ concat (map encode_int vs))) data = Some (0, data @ vs)"
  using assms
proof (induction vs arbitrary: pre data)
  case (Cons v vs)
  have "encode_int v \<noteq> []"
    using encode_int_length [of v] by auto
  moreover have "parse_int f (length pre) = Some (v, length pre + length (encode_int v))"
    using Cons.prems by (intro encode_int_roundtrip [where post = "concat (map encode_int vs) @ post"]) simp
  moreover have "decode_loop (length vs) f (length (pre @ encode_int v)) (length ((pre @ encode_int v) @ concat (map encode_int vs))) (data @ [v]) =
      Some (0, (data @ [v]) @ vs)"
    using Cons.prems by (intro Cons.IH) simp
  ultimately show ?case
    by (simp add: host_parse_int_eq)
qed simp

section \<open>An example\<close>

text \<open>Integer arithmetic in place of floating point; the host sends one block of two bytes.\<close>

definition int_ops :: "int double_ops" where
  "int_ops = \<lparr>d_int = (\<lambda>x. x), d_dec = (\<lambda>m k. m div 10 ^ k), d_trunc = (\<lambda>x. x), d_add = (+), d_sub = (-),
     d_mul = (*), d_div = (div), d_less = (<), d_eq = (=), d_abs = abs, d_sqrt = id\<rparr>"

definition link0 :: "(int, unit) link" where
  "link0 = \<lparr>l_host = (serialqueue_alloc int_ops SQT_UART 0)\<lparr>send_seq := 16, receive_seq := 16\<rparr>,
     l_mcu = command_static (quiet_env 0) 0 0 (), l_to_mcu = [], l_to_host = [], l_built = [], l_accepted = []\<rparr>"

definition host1 :: "int serialqueue" where
  "host1 = serialqueue_send_batch 0 [(message_alloc int_ops)\<lparr>qm_msg := [5, 1]\<rparr>] (l_host link0)"

lemmas host_defs = host1_def link0_def serialqueue_send_batch_def set_min_clock_def kick_bg_thread_def serialqueue_alloc_def
  message_alloc_def int_ops_def PR_NOW_def PR_NEVER_def MAX_CLOCK_def MIN_RTO_def MAX_PENDING_BLOCKS_def BACKGROUND_PRIORITY_CLOCK_def
  message_defs MESSAGE_PAYLOAD_MAX_def check_send_command_def calculate_bittime_def clock_from_time_def upd_def debug_queue_alloc_def

lemma example_never: "\<not> d_eq int_ops (PR_NEVER int_ops) (PR_NOW int_ops)"
  by (simp add: int_ops_def PR_NEVER_def PR_NOW_def)

lemma static_link: "sync_state (command_static ev start e m) = 0" "next_sequence (command_static ev start e m) = 0x10"
  by (simp_all add: command_static_def base_static_def sched_static_def board_static_def MESSAGE_DEST_def)

lemma example_start: "link_start 16 link0"
  by (simp add: link_start_def link0_def serialqueue_alloc_def static_link has_def seq_byte_def)

lemma host_block_not_Nil [simp]: "host_block n p \<noteq> []"
  by (simp add: host_block_def Let_def)

lemma example_send:
  "\<exists>w sq. command_event int_ops 5 host1 = Some (w, sq) \<and> written sq = written host1 @ [host_block 16 [5, 1]]"
  apply (simp only: command_event_def)
  apply (subst command_loop.simps)
  apply (simp add: host_defs build_and_send_command_def Let_def)
  apply (subst build_loop.simps)
  apply (simp add: host_defs take_ready_def)
  apply (subst build_loop.simps)
  apply (simp add: calculate_bittime_def)
  apply (subst command_loop.simps)
  apply (simp add: host_defs Let_def write_blocks_def do_write_def)
  done

lemma example_run:
  obtains l' where "(link_step int_ops)\<^sup>*\<^sup>* link0 l'" "l_built l' = [host_block 16 [5, 1]]" "l_accepted l' = [host_block 16 [5, 1]]"
proof -
  let ?b = "host_block 16 [5, 1]"
  have v: "valid_block ?b (length ?b)" "?b ! 1 = seq_byte 16"
    using host_block_valid [of "[5, 1]" 16] by simp_all
  obtain w sq where sq: "command_event int_ops 5 host1 = Some (w, sq)" "written sq = written host1 @ [?b]"
    using example_send by blast
  have split: "split_blocks ?b = [?b]"
    using v(1) split_blocks_concat [of "[?b]"] by simp
  define l1 where "l1 = link0\<lparr>l_host := host1\<rparr>"
  define l2 where "l2 = l1\<lparr>l_host := sq\<lparr>timer_command := w\<rparr>, l_built := l_built l1 @ split_blocks (concat [?b]),
    l_to_mcu := l_to_mcu l1 @ split_blocks (concat [?b])\<rparr>"
  have s1: "link_step int_ops link0 l1"
    unfolding l1_def host1_def by (rule link_step.queue)
  have s2: "link_step int_ops l1 l2"
    unfolding l2_def by (rule link_step.send) (use sq in \<open>simp_all add: l1_def\<close>)
  have b2: "l_to_mcu l2 = ?b # []" "l_built l2 = [?b]" "l_accepted l2 = []" "l_mcu l2 = l_mcu link0"
    by (simp_all add: l2_def l1_def split) (simp_all add: link0_def)
  obtain s where fb: "command_find_block ?b (l_mcu l2) = (1, length ?b, s)"
    using find_block_valid [OF v(1), of "l_mcu l2"] v(2) by (simp add: b2 link0_def static_link has_def Let_def seq_byte_def)
  have s3: "link_step int_ops l2 (l2\<lparr>l_to_mcu := [], l_mcu := s, l_accepted := (if (1 :: int) > 0 then l_accepted l2 @ [?b] else l_accepted l2)\<rparr>)"
    by (rule link_step.receive [OF b2(1) fb refl refl])
  have "(link_step int_ops)\<^sup>*\<^sup>* link0 l2"
    using s1 s2 by (meson r_into_rtranclp rtranclp.rtrancl_into_rtrancl)
  then have "(link_step int_ops)\<^sup>*\<^sup>* link0 (l2\<lparr>l_to_mcu := [], l_mcu := s, l_accepted := (if (1 :: int) > 0 then l_accepted l2 @ [?b] else l_accepted l2)\<rparr>)"
    using s3 by (rule rtranclp.rtrancl_into_rtrancl)
  then show ?thesis
    by (rule that) (simp_all add: b2)
qed

section \<open>Properties\<close>





text \<open>
  C18. Flow control: the host has at most twelve blocks under way, and if a receive window is set, no
  more bytes than the window, except for a single block. So the buffer of a retransmission is always
  large enough.
\<close>

theorem host_keeps_window:
  assumes "\<not> d_eq fp (PR_NEVER fp) (PR_NOW fp)" "link_start r0 l" "(link_step fp)\<^sup>*\<^sup>* l l'" "r0 + length (l_built l') + 16 < 2 ^ 64"
  shows "length (sent_queue (l_host l')) \<le> MAX_PENDING_BLOCKS \<and>
    (receive_window (l_host l') \<noteq> 0 \<longrightarrow>
       sum_list (map qm_len (sent_queue (l_host l'))) \<le> max (int MESSAGE_MAX) (receive_window (l_host l'))) \<and>
    retransmit_event fp t (l_host l') \<noteq> None"
proof -
  obtain r m where "link_ok r0 r m l'"
    using link_reachable_ok [OF assms] by blast
  then have h: "host_ok r (r0 + length (l_built l')) (l_host l')"
    by (simp add: link_ok_def)
  have "retransmit_event fp t (l_host l') \<noteq> None"
    using retransmit_event_blocks [OF h, of fp t] by blast
  then show ?thesis
    using h by (auto simp: host_ok_def blocks_def comp_def)
qed

theorem host_keeps_window_witness:
  "\<exists>l'. (link_step int_ops)\<^sup>*\<^sup>* link0 l' \<and> l_built l' \<noteq> [] \<and> length (sent_queue (l_host l')) \<le> 12 \<and> retransmit_event int_ops 7 (l_host l') \<noteq> None"
proof -
  obtain l' where l': "(link_step int_ops)\<^sup>*\<^sup>* link0 l'" "l_built l' = [host_block 16 [5, 1]]" "l_accepted l' = [host_block 16 [5, 1]]"
    by (rule example_run)
  then show ?thesis
    using host_keeps_window [OF example_never example_start l'(1), of 7] by (auto simp: MAX_PENDING_BLOCKS_def)
qed

text \<open>
  C19. What the firmware sends, the host understands: it accepts every framed message of the firmware as
  one block, decoding never reads outside of a block, and a message of integers is decoded to these.
\<close>

theorem host_decodes_messages:
  assumes "length payload \<le> 59" "next_sequence s AND NOT MESSAGE_SEQ_MASK = MESSAGE_DEST"
  shows "let f = command_add_frame payload (length payload + 5) s in
    msgblock_check 0 (f @ rest) = (int (length f), 0) \<and> msgblock_decode n f (length f) \<noteq> None \<and>
    (payload = concat (map encode_int vs) \<longrightarrow> msgblock_decode (length vs) f (length f) = Some (0, vs))"
proof -
  let ?f = "command_add_frame payload (length payload + 5) s"
  obtain a b c where f: "?f = [of_nat (length payload + 5), next_sequence s] @ payload @ [a, b, c]"
    by (simp add: command_add_frame_def Let_def)
  have len: "length ?f = length payload + 5"
    by (simp add: f)
  have "valid_block (?f @ rest) (length ?f)" "valid_block ?f (length ?f)"
    using frame_valid(1) [OF assms refl, of rest] frame_valid(1) [OF assms refl, of "[]"] by (simp_all only: len append_Nil2)
  moreover have "msgblock_decode (length vs) ?f (length ?f) = Some (0, vs)" if "payload = concat (map encode_int vs)"
    using decode_loop_ints [of ?f "[of_nat (length payload + 5), next_sequence s]" vs "[a, b, c]" "[]"] f that
    by (simp add: msgblock_decode_def message_defs len numeral_2_eq_2)
  ultimately show ?thesis
    using msgblock_check_valid decode_loop_inside [of ?f 2 n "[]"] by (simp add: msgblock_decode_def message_defs len Let_def)
qed

theorem host_decodes_messages_witness:
  "let f = command_add_frame [5, 1] 7 (command_static (quiet_env 0) 0 0 ()) in
     msgblock_check 0 (f @ [9]) = (int (length f), 0) \<and> msgblock_decode 2 f (length f) = Some (0, [5, 1])"
  using host_decodes_messages [of "[5, 1]" "command_static (quiet_env 0) 0 0 ()" "[9]" 2 "[5, 1]"]
  by (simp add: static_link MESSAGE_SEQ_MASK_def MESSAGE_DEST_def encode_int_def Let_def flip: numeral_2_eq_2)

text \<open>
  The host restores a 64-bit clock of the firmware from its low 32 bits, if it is less than half a
  period away from the last known clock.
\<close>

theorem clock32_extended:
  assumes "- (2 ^ 31) \<le> sint (c - last_clock est)" "sint (c - last_clock est) < 2 ^ 31"
  shows "clock_from_clock32 est (ucast c) = c"
proof -
  let ?d = "c - last_clock est"
  have "(ucast (ucast (ucast c :: u32) - last_clock est) :: u32) = ucast ?d"
    by (simp add: word_uint_eq_iff unsigned_ucast_eq uint_word_ariths take_bit_eq_mod mod_mod_cancel uint_mod_distrib mod_diff_left_eq)
  moreover have "scast (ucast ?d :: u32) = ?d"
  proof -
    have "sint (ucast ?d :: u32) = signed_take_bit 31 (uint ?d)"
      by (simp add: signed_ucast_eq)
    also have "\<dots> = signed_take_bit 31 (sint ?d)"
      by (simp add: sint_uint)
    also have "\<dots> = sint ?d"
      using assms by (simp add: signed_take_bit_int_eq_self)
    finally have "(word_of_int (sint (ucast ?d :: u32)) :: u64) = word_of_int (sint ?d)"
      by simp
    then show ?thesis
      by simp
  qed
  ultimately show ?thesis
    by (simp add: clock_from_clock32_def)
qed

theorem clock32_extended_witness:
  "clock_from_clock32 \<lparr>last_clock = 0xfffffffe, conv_clock = 0, conv_time = (0 :: int), est_freq = 0\<rparr> (ucast (0x100000005 :: u64)) = 0x100000005"
  using clock32_extended [of "0x100000005" "\<lparr>last_clock = 0xfffffffe, conv_clock = 0, conv_time = (0 :: int), est_freq = 0\<rparr>"] by simp

end
