(* ===== verification/Timer_Irq.thy ===== *)
theory Timer_Irq
  imports Serial
begin

text \<open>
  \<^verbatim>\<open>src/klipper/src/generic/armcm_timer.c\<close>: the SysTick interrupt that runs the due timers.

  Two functions are parameters: \<open>run\<close> is the call of a timer callback (see \<open>sched_timer_dispatch\<close>),
  and \<open>irq\<close> is what other interrupts do in the gap in which the dispatch loop enables them.
\<close>

section \<open>State\<close>

text \<open>
  \<open>systick_diff\<close> is the interval that was last written to the SysTick counter; \<open>trace_enabled\<close> and
  \<open>cyccnt_enabled\<close> are the enable bits of the cycle counter.
\<close>

record timer_state =
  timer_repeat_until :: u32
  systick_diff :: u32
  systick_enabled :: bool
  trace_enabled :: bool
  cyccnt_enabled :: bool

record timer_irq = serial +
  tirq :: timer_state

definition timer_irq_static :: "(nat \<Rightarrow> env) \<Rightarrow> nat \<Rightarrow> nat \<Rightarrow> 'z \<Rightarrow> 'z timer_irq_scheme" where
  "timer_irq_static ev start end m = serial_static ev start end (timer_irq_ext
     \<lparr>timer_repeat_until = 0, systick_diff = 0, systick_enabled = False, trace_enabled = False,
      cyccnt_enabled = False\<rparr> m)"

abbreviation upd_tirq :: "(timer_state \<Rightarrow> timer_state) \<Rightarrow> 'z timer_irq_scheme \<Rightarrow> 'z timer_irq_scheme" where
  "upd_tirq f s \<equiv> s\<lparr>tirq := f (tirq s)\<rparr>"

definition timer_set_diff :: "u32 \<Rightarrow> 'z timer_irq_scheme \<Rightarrow> 'z timer_irq_scheme" where
  "timer_set_diff v s = upd_tirq (\<lambda>x. x\<lparr>systick_diff := v\<rparr>) s"

section \<open>Delay\<close>

text \<open>A busy wait until \<open>e\<close>; \<open>None\<close> when the clock never gets there.\<close>

partial_function (option) udelay_loop :: "u32 \<Rightarrow> 'z timer_irq_scheme \<Rightarrow> 'z timer_irq_scheme option" where
  "udelay_loop e s =
     (case timer_read_time s of (t, s) \<Rightarrow> if timer_is_before t e then udelay_loop e s else Some s)"

definition udelay :: "u32 \<Rightarrow> 'z timer_irq_scheme \<Rightarrow> (unit, 'z timer_irq_scheme) res" where
  "udelay usecs s =
     (let s = (if \<not> trace_enabled (tirq s)
               then upd_tirq (\<lambda>x. x\<lparr>trace_enabled := True, cyccnt_enabled := True\<rparr>) s else s);
          (t, s) = timer_read_time s
      in case udelay_loop (t + timer_from_us usecs) s of None \<Rightarrow> Fault | Some s \<Rightarrow> Ret () s)"

section \<open>Start and shutdown\<close>

definition timer_wrap_event :: "tptr \<Rightarrow> 'z sched_scheme \<Rightarrow> (sf, 'z sched_scheme) res" where
  "timer_wrap_event t s = Ret SF_RESCHEDULE (set_waketime t (waketime_of s t + 0xffffff) s)"

definition timer_reset :: "'z sched_scheme \<Rightarrow> (unit, 'z sched_scheme) res" where
  "timer_reset s =
     (if timer_from_us 100000 \<le> 0xffffff then Ret () s else sched_add_timer WrapT FF_TIMER_UNTAGGED s)"

text \<open>Setting the cycle counter to 0 shows in the clock readings of the environment.\<close>

definition timer_init :: "'z timer_irq_scheme \<Rightarrow> (unit, 'z timer_irq_scheme) res" where
  "timer_init s =
     (let s = upd_tirq (\<lambda>x. x\<lparr>trace_enabled := True, cyccnt_enabled := True\<rparr>) s in
      bind (timer_reset s) (\<lambda>_ s.
        let s = upd_tirq (\<lambda>x. x\<lparr>systick_enabled := True\<rparr>) s in Ret () (timer_kick s)))"

section \<open>Dispatch\<close>

definition TIMER_IDLE_REPEAT_TICKS :: u32 where "TIMER_IDLE_REPEAT_TICKS = timer_from_us 500"
definition TIMER_REPEAT_TICKS :: u32 where "TIMER_REPEAT_TICKS = timer_from_us 100"
definition TIMER_MIN_TRY_TICKS :: u32 where "TIMER_MIN_TRY_TICKS = timer_from_us 2"
definition TIMER_DEFER_REPEAT_TICKS :: u32 where "TIMER_DEFER_REPEAT_TICKS = timer_from_us 5"

text \<open>The wait for the next timer: read the clock until \<open>diff\<close> is not positive.\<close>

partial_function (option) timer_wait :: "u32 \<Rightarrow> u32 \<Rightarrow> 'z timer_irq_scheme \<Rightarrow> 'z timer_irq_scheme option" where
  "timer_wait nextw diff s =
     (if sint diff > 0
      then case timer_read_time s of (t, s) \<Rightarrow> timer_wait nextw (nextw - t) s
      else Some s)"

text \<open>
  What the loop does once the clock is past \<open>tru\<close>: leave with the short interval when tasks wait,
  otherwise allow itself more time.
\<close>

definition timer_repeat_check ::
  "u32 \<Rightarrow> u32 \<Rightarrow> u32 \<Rightarrow> 'z timer_irq_scheme \<Rightarrow> (u32 option \<times> u32, 'z timer_irq_scheme) res" where
  "timer_repeat_check tru now diff s =
     (if timer_is_before tru now
      then bind (if sint diff < sint (- timer_from_us 1000)
                 then sched_try_shutdown ''Rescheduled timer in the past'' s else Ret () s) (\<lambda>_ s.
           if sched_tasks_busy s
           then Ret (Some TIMER_DEFER_REPEAT_TICKS, tru)
                  (upd_tirq (\<lambda>x. x\<lparr>timer_repeat_until := now + TIMER_REPEAT_TICKS\<rparr>) s)
           else let tru = now + TIMER_IDLE_REPEAT_TICKS
                in Ret (None, tru) (upd_tirq (\<lambda>x. x\<lparr>timer_repeat_until := tru\<rparr>) s))
      else Ret (None, tru) s)"

partial_function (option) timer_dispatch_loop ::
  "(timer_func \<Rightarrow> tptr \<Rightarrow> 'z timer_irq_scheme \<Rightarrow> (sf, 'z timer_irq_scheme) res) \<Rightarrow>
   ('z timer_irq_scheme \<Rightarrow> 'z timer_irq_scheme) \<Rightarrow> u32 \<Rightarrow> 'z timer_irq_scheme \<Rightarrow>
   (u32, 'z timer_irq_scheme) res option" where
  "timer_dispatch_loop run irq tru s =
     (case sched_timer_dispatch run s of
        Fault \<Rightarrow> Some Fault
      | Shut r s \<Rightarrow> Some (Shut r s)
      | Ret nextw s \<Rightarrow>
          (case timer_read_time s of (now, s) \<Rightarrow>
             if sint (nextw - now) > sint TIMER_MIN_TRY_TICKS then Some (Ret (nextw - now) s)
             else case timer_repeat_check tru now (nextw - now) s of
                    Fault \<Rightarrow> Some Fault
                  | Shut r s \<Rightarrow> Some (Shut r s)
                  | Ret (Some d, tru) s \<Rightarrow> Some (Ret d s)
                  | Ret (None, tru) s \<Rightarrow>
                      Option.bind (timer_wait nextw (nextw - now) (irq s))
                        (\<lambda>s. timer_dispatch_loop run irq tru s)))"

definition timer_dispatch_many ::
  "(timer_func \<Rightarrow> tptr \<Rightarrow> 'z timer_irq_scheme \<Rightarrow> (sf, 'z timer_irq_scheme) res) \<Rightarrow>
   ('z timer_irq_scheme \<Rightarrow> 'z timer_irq_scheme) \<Rightarrow> 'z timer_irq_scheme \<Rightarrow> (u32, 'z timer_irq_scheme) res" where
  "timer_dispatch_many run irq s =
     (case timer_dispatch_loop run irq (timer_repeat_until (tirq s)) s of None \<Rightarrow> Fault | Some r \<Rightarrow> r)"

definition SysTick_Handler ::
  "(timer_func \<Rightarrow> tptr \<Rightarrow> 'z timer_irq_scheme \<Rightarrow> (sf, 'z timer_irq_scheme) res) \<Rightarrow>
   ('z timer_irq_scheme \<Rightarrow> 'z timer_irq_scheme) \<Rightarrow> 'z timer_irq_scheme \<Rightarrow> (unit, 'z timer_irq_scheme) res" where
  "SysTick_Handler run irq s =
     bind (timer_dispatch_many run irq s) (\<lambda>diff s. Ret () (timer_set_diff diff s))"

definition timer_task :: "'z timer_irq_scheme \<Rightarrow> 'z timer_irq_scheme" where
  "timer_task s =
     (let (now, s) = timer_read_time s in
      if timer_is_before (timer_repeat_until (tirq s)) now
      then upd_tirq (\<lambda>x. x\<lparr>timer_repeat_until := now\<rparr>) s else s)"

end
