(* ===== verification/Trsync.thy ===== *)
theory Trsync
  imports Timer_Irq
begin

text \<open>
  \<^verbatim>\<open>src/klipper/src/trsync.c\<close>: trigger synchronisation. A trsync object waits for one trigger event,
  calls the registered signals once and reports to the host.

  An object at address \<open>a\<close> has its \<open>report_time\<close> timer at \<open>a\<close> and its \<open>expire_time\<close> timer twelve
  bytes further. A \<open>struct trsync_signal\<close> is part of a stepper and is named by the address of that
  stepper. The call of a signal handler is a parameter, because the handlers belong to the code
  that registers them.
\<close>

section \<open>State\<close>

datatype trsync_callback = CB_stepper_stop

record trsync_signal =
  sig_next :: "nat option"
  sig_func :: "trsync_callback option"

record trsync =
  report_ticks :: u32
  signals :: "nat option"
  ts_flags :: u8
  trigger_reason :: u8
  expire_reason :: u8

record trsync_state =
  tss :: "nat \<Rightarrow> trsync"
  sigs :: "nat \<Rightarrow> trsync_signal"

record trsyncs = timer_irq +
  trs :: trsync_state

definition TSF_CAN_TRIGGER :: u8 where "TSF_CAN_TRIGGER = 1"
definition TSF_REPORT :: u8 where "TSF_REPORT = 4"

definition signal_zero :: trsync_signal where
  "signal_zero = \<lparr>sig_next = None, sig_func = None\<rparr>"

definition trsync_zero :: trsync where
  "trsync_zero = \<lparr>report_ticks = 0, signals = None, ts_flags = 0, trigger_reason = 0, expire_reason = 0\<rparr>"

definition timer_zero :: timer where
  "timer_zero = \<lparr>nxt = None, func = F_NULL, waketime = 0\<rparr>"

definition trsyncs_static :: "(nat \<Rightarrow> env) \<Rightarrow> nat \<Rightarrow> nat \<Rightarrow> 'z \<Rightarrow> 'z trsyncs_scheme" where
  "trsyncs_static ev start end m = timer_irq_static ev start end (trsyncs_ext
     \<lparr>tss = (\<lambda>_. trsync_zero), sigs = (\<lambda>_. signal_zero)\<rparr> m)"

abbreviation report_time :: "nat \<Rightarrow> tptr" where "report_time a \<equiv> MemT a"
abbreviation expire_time :: "nat \<Rightarrow> tptr" where "expire_time a \<equiv> MemT (a + 12)"

abbreviation ts_of :: "'z trsyncs_scheme \<Rightarrow> nat \<Rightarrow> trsync" where
  "ts_of s a \<equiv> tss (trs s) a"

abbreviation sig_of :: "'z trsyncs_scheme \<Rightarrow> nat \<Rightarrow> trsync_signal" where
  "sig_of s a \<equiv> sigs (trs s) a"

abbreviation upd_ts :: "nat \<Rightarrow> (trsync \<Rightarrow> trsync) \<Rightarrow> 'z trsyncs_scheme \<Rightarrow> 'z trsyncs_scheme" where
  "upd_ts a f s \<equiv> s\<lparr>trs := (trs s)\<lparr>tss := upd (tss (trs s)) a f\<rparr>\<rparr>"

abbreviation upd_sig :: "nat \<Rightarrow> (trsync_signal \<Rightarrow> trsync_signal) \<Rightarrow> 'z trsyncs_scheme \<Rightarrow> 'z trsyncs_scheme" where
  "upd_sig a f s \<equiv> s\<lparr>trs := (trs s)\<lparr>sigs := upd (sigs (trs s)) a f\<rparr>\<rparr>"

section \<open>Trigger\<close>

text \<open>
  The loop over the signals of \<open>trsync_do_trigger\<close>: the first signal is unlinked and then called.
  \<open>None\<close> when the loop does not end; a null handler is a \<open>Fault\<close>.
\<close>

partial_function (option) signal_loop ::
  "(trsync_callback \<Rightarrow> nat \<Rightarrow> u8 \<Rightarrow> 'z trsyncs_scheme \<Rightarrow> (unit, 'z trsyncs_scheme) res) \<Rightarrow>
   nat \<Rightarrow> u8 \<Rightarrow> 'z trsyncs_scheme \<Rightarrow> (unit, 'z trsyncs_scheme) res option" where
  "signal_loop call ts reason s =
     (case signals (ts_of s ts) of
        None \<Rightarrow> Some (Ret () s)
      | Some sg \<Rightarrow>
          (case sig_func (sig_of s sg) of
             None \<Rightarrow> Some Fault
           | Some f \<Rightarrow>
               (case call f sg reason
                       (upd_sig sg (\<lambda>x. x\<lparr>sig_next := None, sig_func := None\<rparr>)
                         (upd_ts ts (\<lambda>x. x\<lparr>signals := sig_next (sig_of s sg)\<rparr>) s)) of
                  Fault \<Rightarrow> Some Fault
                | Shut r s \<Rightarrow> Some (Shut r s)
                | Ret _ s \<Rightarrow> signal_loop call ts reason s)))"

definition trsync_do_trigger ::
  "(trsync_callback \<Rightarrow> nat \<Rightarrow> u8 \<Rightarrow> 'z trsyncs_scheme \<Rightarrow> (unit, 'z trsyncs_scheme) res) \<Rightarrow>
   nat \<Rightarrow> u8 \<Rightarrow> 'z trsyncs_scheme \<Rightarrow> (unit, 'z trsyncs_scheme) res" where
  "trsync_do_trigger call ts reason s =
     (let flags = ts_flags (ts_of s ts) in
      if \<not> has flags TSF_CAN_TRIGGER then Ret () s
      else let s = upd_ts ts (\<lambda>x. x\<lparr>trigger_reason := reason\<rparr>) s;
               s = upd_ts ts (\<lambda>x. x\<lparr>ts_flags := (flags AND NOT TSF_CAN_TRIGGER) OR TSF_REPORT\<rparr>) s
           in case signal_loop call ts reason s of
                None \<Rightarrow> Fault
              | Some m \<Rightarrow> bind m (\<lambda>_ s. Ret () (sched_wake_task trsync_wake s)))"

text \<open>\<open>container_of\<close> for the two embedded timers.\<close>

fun report_owner :: "tptr \<Rightarrow> nat option" where
  "report_owner (MemT a) = Some a"
| "report_owner _ = None"

fun expire_owner :: "tptr \<Rightarrow> nat option" where
  "expire_owner (MemT a) = (if 12 \<le> a then Some (a - 12) else None)"
| "expire_owner _ = None"

definition trsync_expire_event ::
  "(trsync_callback \<Rightarrow> nat \<Rightarrow> u8 \<Rightarrow> 'z trsyncs_scheme \<Rightarrow> (unit, 'z trsyncs_scheme) res) \<Rightarrow>
   tptr \<Rightarrow> 'z trsyncs_scheme \<Rightarrow> (sf, 'z trsyncs_scheme) res" where
  "trsync_expire_event call t s =
     (case expire_owner t of
        None \<Rightarrow> Fault
      | Some ts \<Rightarrow> bind (trsync_do_trigger call ts (expire_reason (ts_of s ts)) s) (\<lambda>_ s. Ret SF_DONE s))"

definition trsync_report_event :: "tptr \<Rightarrow> 'z trsyncs_scheme \<Rightarrow> (sf, 'z trsyncs_scheme) res" where
  "trsync_report_event t s =
     (case report_owner t of
        None \<Rightarrow> Fault
      | Some ts \<Rightarrow>
          let s = upd_ts ts (\<lambda>x. x\<lparr>ts_flags := ts_flags x OR TSF_REPORT\<rparr>) s;
              s = sched_wake_task trsync_wake s;
              s = set_waketime t (waketime_of s t + report_ticks (ts_of s ts)) s
          in Ret SF_RESCHEDULE s)"

section \<open>Configuration and signals\<close>

definition command_config_trsync :: "u32 list \<Rightarrow> 'z trsyncs_scheme \<Rightarrow> (unit, 'z trsyncs_scheme) res" where
  "command_config_trsync args s =
     bind (oid_alloc (ucast (args ! 0)) T_config_trsync 36 s) (\<lambda>ts s.
       let s = upd_ts ts (\<lambda>_. trsync_zero) s;
           s = s\<lparr>timers := (timers s)(report_time ts := timer_zero, expire_time ts := timer_zero)\<rparr>;
           s = set_func (report_time ts) F_trsync_report_event s
       in Ret () (set_func (expire_time ts) F_trsync_expire_event s))"

definition trsync_oid_lookup :: "u8 \<Rightarrow> 'z trsyncs_scheme \<Rightarrow> (nat, 'z trsyncs_scheme) res" where
  "trsync_oid_lookup oid s = oid_lookup oid T_config_trsync s"

definition trsync_add_signal ::
  "nat \<Rightarrow> nat \<Rightarrow> trsync_callback option \<Rightarrow> 'z trsyncs_scheme \<Rightarrow> (unit, 'z trsyncs_scheme) res" where
  "trsync_add_signal ts sg f s =
     (if sig_func (sig_of s sg) \<noteq> None \<or> f = None
      then shutdown_ec FF_EC_TRSYNC_SIGNAL_ACTIVE ''Can't add signal that is already active'' s
      else let s = upd_sig sg (\<lambda>x. x\<lparr>sig_func := f\<rparr>) s;
               s = upd_sig sg (\<lambda>x. x\<lparr>sig_next := signals (ts_of s ts)\<rparr>) s
           in Ret () (upd_ts ts (\<lambda>x. x\<lparr>signals := Some sg\<rparr>) s))"

text \<open>The loop of \<open>trsync_clear\<close> over the registered signals.\<close>

partial_function (option) clear_loop ::
  "nat option \<Rightarrow> (nat \<Rightarrow> trsync_signal) \<Rightarrow> (nat \<Rightarrow> trsync_signal) option" where
  "clear_loop p sg =
     (case p of
        None \<Rightarrow> Some sg
      | Some a \<Rightarrow> clear_loop (sig_next (sg a)) (upd sg a (\<lambda>x. x\<lparr>sig_func := None, sig_next := None\<rparr>)))"

definition trsync_clear :: "nat \<Rightarrow> 'z trsyncs_scheme \<Rightarrow> (unit, 'z trsyncs_scheme) res" where
  "trsync_clear ts s =
     bind (sched_del_timer (report_time ts) s) (\<lambda>_ s.
     bind (sched_del_timer (expire_time ts) s) (\<lambda>_ s.
       case clear_loop (signals (ts_of s ts)) (sigs (trs s)) of
         None \<Rightarrow> Fault
       | Some sg \<Rightarrow>
           let s = s\<lparr>trs := (trs s)\<lparr>sigs := sg\<rparr>\<rparr>
           in Ret () (upd_ts ts (\<lambda>x. x\<lparr>signals := None, ts_flags := 0, trigger_reason := 0, expire_reason := 0\<rparr>) s)))"

section \<open>Commands\<close>

definition command_trsync_start :: "u32 list \<Rightarrow> 'z trsyncs_scheme \<Rightarrow> (unit, 'z trsyncs_scheme) res" where
  "command_trsync_start args s =
     bind (trsync_oid_lookup (ucast (args ! 0)) s) (\<lambda>ts s.
     bind (trsync_clear ts s) (\<lambda>_ s.
       let s = upd_ts ts (\<lambda>x. x\<lparr>ts_flags := TSF_CAN_TRIGGER\<rparr>) s;
           s = set_waketime (report_time ts) (args ! 1) s;
           s = upd_ts ts (\<lambda>x. x\<lparr>report_ticks := args ! 2\<rparr>) s
       in bind (if report_ticks (ts_of s ts) \<noteq> 0
                then sched_add_timer (report_time ts) FF_TIMER_TRSYNC_REPORT s else Ret () s) (\<lambda>_ s.
          Ret () (upd_ts ts (\<lambda>x. x\<lparr>expire_reason := ucast (args ! 3)\<rparr>) s))))"

definition command_trsync_set_timeout :: "u32 list \<Rightarrow> 'z trsyncs_scheme \<Rightarrow> (unit, 'z trsyncs_scheme) res" where
  "command_trsync_set_timeout args s =
     bind (trsync_oid_lookup (ucast (args ! 0)) s) (\<lambda>ts s.
       if has (ts_flags (ts_of s ts)) TSF_CAN_TRIGGER
       then bind (sched_del_timer (expire_time ts) s) (\<lambda>_ s.
              sched_add_timer (expire_time ts) FF_TIMER_TRSYNC_EXPIRE (set_waketime (expire_time ts) (args ! 1) s))
       else Ret () s)"

definition trsync_report :: "u8 \<Rightarrow> u8 \<Rightarrow> u8 \<Rightarrow> u32 \<Rightarrow> 'z trsyncs_scheme \<Rightarrow> 'z trsyncs_scheme" where
  "trsync_report oid flags reason clock s =
     sendf ''trsync_state oid=%c can_trigger=%c trigger_reason=%c clock=%u''
       [U (ucast oid), U (c_bool (has flags TSF_CAN_TRIGGER)), U (ucast reason), U clock] s"

definition command_trsync_trigger ::
  "(trsync_callback \<Rightarrow> nat \<Rightarrow> u8 \<Rightarrow> 'z trsyncs_scheme \<Rightarrow> (unit, 'z trsyncs_scheme) res) \<Rightarrow>
   u32 list \<Rightarrow> 'z trsyncs_scheme \<Rightarrow> (unit, 'z trsyncs_scheme) res" where
  "command_trsync_trigger call args s =
     (let oid = ucast (args ! 0) in
      bind (trsync_oid_lookup oid s) (\<lambda>ts s.
      bind (trsync_do_trigger call ts (ucast (args ! 1)) s) (\<lambda>_ s.
      bind (sched_del_timer (report_time ts) s) (\<lambda>_ s.
      bind (sched_del_timer (expire_time ts) s) (\<lambda>_ s.
        let s = upd_ts ts (\<lambda>x. x\<lparr>ts_flags := 0\<rparr>) s
        in Ret () (trsync_report oid 0 (trigger_reason (ts_of s ts)) 0 s))))))"

definition trsync_task :: "'z trsyncs_scheme \<Rightarrow> (unit, 'z trsyncs_scheme) res" where
  "trsync_task s =
     (let (woken, s) = sched_check_wake trsync_wake s in
      if \<not> woken then Ret () s
      else foreach_oid T_config_trsync (\<lambda>oid ts s.
             if \<not> has (ts_flags (ts_of s ts)) TSF_REPORT then Ret () s
             else let (time, s) = timer_read_time s;
                      reason = trigger_reason (ts_of s ts);
                      flags = ts_flags (ts_of s ts);
                      s = upd_ts ts (\<lambda>x. x\<lparr>ts_flags := flags AND NOT TSF_REPORT\<rparr>) s
                  in Ret () (trsync_report oid flags reason time s)) s)"

definition trsync_shutdown :: "'z trsyncs_scheme \<Rightarrow> (unit, 'z trsyncs_scheme) res" where
  "trsync_shutdown s = foreach_oid T_config_trsync (\<lambda>_ ts. trsync_clear ts) s"

end
