(* ===== verification/Stepper.thy ===== *)
theory Stepper
  imports Trsync
begin

text \<open>
  \<^verbatim>\<open>src/klipper/src/stepper.c\<close>: step generation. A stepper at address \<open>a\<close> has its timer and its
  stop signal under the same address. The configuration of the board is the one with both
  \<open>HAVE_SINGLE_SCHEDULE\<close> and \<open>HAVE_EDGE_OPTIMIZATION\<close>; the functions for AVR are not compiled in.

  The 16-bit increment \<open>add\<close> is signed: it is extended to 32 bits before it is added.
\<close>

section \<open>State\<close>

record stepper_move =
  m_interval :: u32
  m_add :: u16
  m_count :: u16
  m_flags :: u8

record stepper =
  st_interval :: u32
  st_add :: u16
  st_count :: u32
  next_step_time :: u32
  step_pulse_ticks :: u32
  step_pin :: gpio_pin
  dir_pin :: gpio_pin
  position :: u32
  st_mq :: move_queue_head
  st_flags :: u8

record stepper_state =
  stps :: "nat \<Rightarrow> stepper"
  smoves :: "nat \<Rightarrow> stepper_move"

record steppers = trsyncs +
  stp :: stepper_state

definition MF_DIR :: u8 where "MF_DIR = 1"
definition POSITION_BIAS :: u32 where "POSITION_BIAS = 0x40000000"

definition SF_LAST_DIR :: u8 where "SF_LAST_DIR = 1"
definition SF_NEXT_DIR :: u8 where "SF_NEXT_DIR = 2"
definition SF_INVERT_STEP :: u8 where "SF_INVERT_STEP = 4"
definition SF_NEED_RESET :: u8 where "SF_NEED_RESET = 8"
definition SF_SINGLE_SCHED :: u8 where "SF_SINGLE_SCHED = 16"

definition no_pin :: gpio_pin where "no_pin = \<lparr>gp_regs = 0, gp_bit = 0\<rparr>"

definition stepper_zero :: stepper where
  "stepper_zero = \<lparr>st_interval = 0, st_add = 0, st_count = 0, next_step_time = 0, step_pulse_ticks = 0,
     step_pin = no_pin, dir_pin = no_pin, position = 0, st_mq = \<lparr>first = None, mlast = None\<rparr>, st_flags = 0\<rparr>"

definition stepper_move_zero :: stepper_move where
  "stepper_move_zero = \<lparr>m_interval = 0, m_add = 0, m_count = 0, m_flags = 0\<rparr>"

definition steppers_static :: "(nat \<Rightarrow> env) \<Rightarrow> nat \<Rightarrow> nat \<Rightarrow> 'z \<Rightarrow> 'z steppers_scheme" where
  "steppers_static ev start end m = trsyncs_static ev start end (steppers_ext
     \<lparr>stps = (\<lambda>_. stepper_zero), smoves = (\<lambda>_. stepper_move_zero)\<rparr> m)"

abbreviation stp_of :: "'z steppers_scheme \<Rightarrow> nat \<Rightarrow> stepper" where
  "stp_of s a \<equiv> stps (stp s) a"

abbreviation move_of :: "'z steppers_scheme \<Rightarrow> nat \<Rightarrow> stepper_move" where
  "move_of s m \<equiv> smoves (stp s) m"

abbreviation upd_stp :: "nat \<Rightarrow> (stepper \<Rightarrow> stepper) \<Rightarrow> 'z steppers_scheme \<Rightarrow> 'z steppers_scheme" where
  "upd_stp a f s \<equiv> s\<lparr>stp := (stp s)\<lparr>stps := upd (stps (stp s)) a f\<rparr>\<rparr>"

abbreviation upd_smove :: "nat \<Rightarrow> (stepper_move \<Rightarrow> stepper_move) \<Rightarrow> 'z steppers_scheme \<Rightarrow> 'z steppers_scheme" where
  "upd_smove m f s \<equiv> s\<lparr>stp := (stp s)\<lparr>smoves := upd (smoves (stp s)) m f\<rparr>\<rparr>"

section \<open>Step events\<close>

definition stepper_load_next :: "nat \<Rightarrow> 'z steppers_scheme \<Rightarrow> (sf, 'z steppers_scheme) res" where
  "stepper_load_next a s =
     (if move_queue_empty (st_mq (stp_of s a)) then Ret SF_DONE (upd_stp a (\<lambda>x. x\<lparr>st_count := 0\<rparr>) s)
      else bind (move_queue_pop (st_mq (stp_of s a)) s) (\<lambda>(mn, mh) s.
        let s = upd_stp a (\<lambda>x. x\<lparr>st_mq := mh\<rparr>) s;
            m = move_of s mn;
            s = upd_stp a (\<lambda>x. x\<lparr>st_add := m_add m\<rparr>) s;
            s = upd_stp a (\<lambda>x. x\<lparr>st_interval := m_interval m + scast (m_add m)\<rparr>) s;
            s = (if has (st_flags (stp_of s a)) SF_SINGLE_SCHED
                 then let s = set_waketime (MemT a) (waketime_of s (MemT a) + m_interval m) s
                      in upd_stp a (\<lambda>x. x\<lparr>st_count := ucast (m_count m)\<rparr>) s
                 else let s = upd_stp a (\<lambda>x. x\<lparr>next_step_time := next_step_time x + m_interval m\<rparr>) s;
                          s = set_waketime (MemT a) (next_step_time (stp_of s a)) s
                      in upd_stp a (\<lambda>x. x\<lparr>st_count := ucast (m_count m) * 2\<rparr>) s);
            s = (if has (m_flags m) MF_DIR
                 then let s = upd_stp a (\<lambda>x. x\<lparr>position := - position x + ucast (m_count m)\<rparr>) s
                      in gpio_out_toggle_noirq (dir_pin (stp_of s a)) s
                 else upd_stp a (\<lambda>x. x\<lparr>position := position x + ucast (m_count m)\<rparr>) s)
        in Ret SF_RESCHEDULE (move_free mn s)))"

fun stepper_owner :: "tptr \<Rightarrow> nat option" where
  "stepper_owner (MemT a) = Some a"
| "stepper_owner _ = None"

definition stepper_event_edge :: "nat \<Rightarrow> 'z steppers_scheme \<Rightarrow> (sf, 'z steppers_scheme) res" where
  "stepper_event_edge a s =
     (let s = gpio_out_toggle_noirq (step_pin (stp_of s a)) s;
          count = st_count (stp_of s a) - 1
      in if count \<noteq> 0
         then let s = upd_stp a (\<lambda>x. x\<lparr>st_count := count\<rparr>) s;
                  s = set_waketime (MemT a) (waketime_of s (MemT a) + st_interval (stp_of s a)) s;
                  s = upd_stp a (\<lambda>x. x\<lparr>st_interval := st_interval x + scast (st_add x)\<rparr>) s
              in Ret SF_RESCHEDULE s
         else stepper_load_next a s)"

definition stepper_event_full :: "nat \<Rightarrow> 'z steppers_scheme \<Rightarrow> (sf, 'z steppers_scheme) res" where
  "stepper_event_full a s =
     (let s = gpio_out_toggle_noirq (step_pin (stp_of s a)) s;
          (curtime, s) = timer_read_time s;
          min_next_time = curtime + step_pulse_ticks (stp_of s a);
          s = upd_stp a (\<lambda>x. x\<lparr>st_count := st_count x - 1\<rparr>) s;
          reschedule_min = (\<lambda>s. Ret SF_RESCHEDULE (set_waketime (MemT a) min_next_time s))
      in if has (st_count (stp_of s a)) 1 then reschedule_min s
         else if st_count (stp_of s a) \<noteq> 0
         then let s = upd_stp a (\<lambda>x. x\<lparr>next_step_time := next_step_time x + st_interval x\<rparr>) s;
                  s = upd_stp a (\<lambda>x. x\<lparr>st_interval := st_interval x + scast (st_add x)\<rparr>) s
              in if timer_is_before (next_step_time (stp_of s a)) min_next_time then reschedule_min s
                 else Ret SF_RESCHEDULE (set_waketime (MemT a) (next_step_time (stp_of s a)) s)
         else bind (stepper_load_next a s) (\<lambda>ret s.
                if ret = SF_DONE \<or> \<not> timer_is_before (waketime_of s (MemT a)) min_next_time then Ret ret s
                else let diff = waketime_of s (MemT a) - min_next_time
                     in if sint diff < sint (- timer_from_us 1000)
                        then shutdown_ec FF_EC_STEPPER_TOO_FAR_PAST ''Stepper too far in past'' s
                        else reschedule_min s))"

text \<open>The entry point for a null \<open>func\<close> field.\<close>

definition stepper_event :: "tptr \<Rightarrow> 'z steppers_scheme \<Rightarrow> (sf, 'z steppers_scheme) res" where
  "stepper_event t s = (case stepper_owner t of None \<Rightarrow> Fault | Some a \<Rightarrow> stepper_event_edge a s)"

section \<open>Commands\<close>

definition command_config_stepper :: "u32 list \<Rightarrow> 'z steppers_scheme \<Rightarrow> (unit, 'z steppers_scheme) res" where
  "command_config_stepper args s =
     bind (oid_alloc (ucast (args ! 0)) T_config_stepper 72 s) (\<lambda>a s.
       let s = upd_stp a (\<lambda>_. stepper_zero) (s\<lparr>timers := (timers s)(MemT a := timer_zero)\<rparr>);
           s = upd_sig a (\<lambda>_. signal_zero) s;
           invert_step = sint (args ! 3);
           s = upd_stp a (\<lambda>x. x\<lparr>st_flags := if invert_step > 0 then SF_INVERT_STEP else 0\<rparr>) s
       in bind (gpio_out_setup (args ! 1) (ucast (st_flags (stp_of s a) AND SF_INVERT_STEP)) s) (\<lambda>g s.
          let s = upd_stp a (\<lambda>x. x\<lparr>step_pin := g\<rparr>) s
          in bind (gpio_out_setup (args ! 2) 0 s) (\<lambda>g s.
             let s = upd_stp a (\<lambda>x. x\<lparr>dir_pin := g\<rparr>) s;
                 s = upd_stp a (\<lambda>x. x\<lparr>position := - POSITION_BIAS\<rparr>) s;
                 s = upd_stp a (\<lambda>x. x\<lparr>step_pulse_ticks := args ! 4\<rparr>) s
             in bind (move_queue_setup 16 s) (\<lambda>mh s.
                let s = upd_stp a (\<lambda>x. x\<lparr>st_mq := mh\<rparr>) s
                in Ret () (if step_pulse_ticks (stp_of s a) = 0 \<and> invert_step < 0
                           then upd_stp a (\<lambda>x. x\<lparr>st_flags := st_flags x OR SF_SINGLE_SCHED\<rparr>) s
                           else set_func (MemT a) F_stepper_event_full s)))))"

definition stepper_oid_lookup :: "u8 \<Rightarrow> 'z steppers_scheme \<Rightarrow> (nat, 'z steppers_scheme) res" where
  "stepper_oid_lookup oid s = oid_lookup oid T_config_stepper s"

definition command_queue_step :: "u32 list \<Rightarrow> 'z steppers_scheme \<Rightarrow> (unit, 'z steppers_scheme) res" where
  "command_queue_step args s =
     bind (stepper_oid_lookup (ucast (args ! 0)) s) (\<lambda>a s.
     bind (move_alloc s) (\<lambda>m s.
       let s = upd_smove m (\<lambda>x. x\<lparr>m_interval := args ! 1, m_count := ucast (args ! 2)\<rparr>) s
       in if m_count (move_of s m) = 0
          then shutdown_ec FF_EC_STEPPER_BAD_COUNT ''Invalid count parameter'' s
          else let s = upd_smove m (\<lambda>x. x\<lparr>m_add := ucast (args ! 3), m_flags := 0\<rparr>) s;
                   flags = st_flags (stp_of s a);
                   (flags, s) =
                     (if has flags SF_LAST_DIR \<noteq> has flags SF_NEXT_DIR
                      then (flags XOR SF_LAST_DIR, upd_smove m (\<lambda>x. x\<lparr>m_flags := m_flags x OR MF_DIR\<rparr>) s)
                      else (flags, s));
                   push = (\<lambda>s. let (_, mh, s) = move_queue_push m (st_mq (stp_of s a)) s
                               in upd_stp a (\<lambda>x. x\<lparr>st_mq := mh\<rparr>) s)
               in if st_count (stp_of s a) \<noteq> 0
                  then Ret () (push (upd_stp a (\<lambda>x. x\<lparr>st_flags := flags\<rparr>) s))
                  else if has flags SF_NEED_RESET then Ret () (move_free m s)
                  else bind (stepper_load_next a (push (upd_stp a (\<lambda>x. x\<lparr>st_flags := flags\<rparr>) s))) (\<lambda>_ s.
                         sched_add_timer (MemT a) FF_TIMER_STEPPER_QUEUE s)))"

definition command_set_next_step_dir :: "u32 list \<Rightarrow> 'z steppers_scheme \<Rightarrow> (unit, 'z steppers_scheme) res" where
  "command_set_next_step_dir args s =
     bind (stepper_oid_lookup (ucast (args ! 0)) s) (\<lambda>a s.
       let nextdir = (if args ! 1 \<noteq> 0 then SF_NEXT_DIR else 0)
       in Ret () (upd_stp a (\<lambda>x. x\<lparr>st_flags := (st_flags x AND NOT SF_NEXT_DIR) OR nextdir\<rparr>) s))"

definition command_reset_step_clock :: "u32 list \<Rightarrow> 'z steppers_scheme \<Rightarrow> (unit, 'z steppers_scheme) res" where
  "command_reset_step_clock args s =
     bind (stepper_oid_lookup (ucast (args ! 0)) s) (\<lambda>a s.
       if st_count (stp_of s a) \<noteq> 0
       then shutdown_ec FF_EC_STEPPER_ACTIVE ''Can't reset time when stepper active'' s
       else let s = set_waketime (MemT a) (args ! 1) (upd_stp a (\<lambda>x. x\<lparr>next_step_time := args ! 1\<rparr>) s)
            in Ret () (upd_stp a (\<lambda>x. x\<lparr>st_flags := st_flags x AND NOT SF_NEED_RESET\<rparr>) s))"

definition stepper_get_position :: "stepper \<Rightarrow> u32" where
  "stepper_get_position x =
     (let pos = (if has (st_flags x) SF_SINGLE_SCHED then position x - st_count x
                 else position x - st_count x div 2)
      in if has pos 0x80000000 then - pos else pos)"

definition command_stepper_get_position :: "u32 list \<Rightarrow> 'z steppers_scheme \<Rightarrow> (unit, 'z steppers_scheme) res" where
  "command_stepper_get_position args s =
     (let oid = ucast (args ! 0) :: u8 in
      bind (stepper_oid_lookup oid s) (\<lambda>a s.
        let pos = stepper_get_position (stp_of s a)
        in Ret () (sendf ''stepper_position oid=%c pos=%i'' [U (ucast oid), U (pos - POSITION_BIAS)] s)))"

section \<open>Stopping\<close>

text \<open>The loop that returns the queued moves to the pool; \<open>None\<close> when it does not end.\<close>

partial_function (option) free_moves :: "nat \<Rightarrow> 'z steppers_scheme \<Rightarrow> 'z steppers_scheme option" where
  "free_moves a s =
     (case first (st_mq (stp_of s a)) of
        None \<Rightarrow> Some s
      | Some mn \<Rightarrow> free_moves a (move_free mn (upd_stp a (\<lambda>x. x\<lparr>st_mq := (st_mq x)\<lparr>first := mnext s mn\<rparr>\<rparr>) s)))"

definition stepper_stop :: "nat \<Rightarrow> u8 \<Rightarrow> 'z steppers_scheme \<Rightarrow> (unit, 'z steppers_scheme) res" where
  "stepper_stop a reason s =
     bind (sched_del_timer (MemT a) s) (\<lambda>_ s.
       let s = set_waketime (MemT a) 0 (upd_stp a (\<lambda>x. x\<lparr>next_step_time := 0\<rparr>) s);
           s = upd_stp a (\<lambda>x. x\<lparr>position := - stepper_get_position x\<rparr>) s;
           s = upd_stp a (\<lambda>x. x\<lparr>st_count := 0\<rparr>) s;
           s = upd_stp a (\<lambda>x. x\<lparr>st_flags := (st_flags x AND (SF_INVERT_STEP OR SF_SINGLE_SCHED)) OR SF_NEED_RESET\<rparr>) s;
           s = gpio_out_write (dir_pin (stp_of s a)) 0 s;
           s = (if \<not> has (st_flags (stp_of s a)) SF_SINGLE_SCHED
                then gpio_out_write (step_pin (stp_of s a)) (ucast (st_flags (stp_of s a) AND SF_INVERT_STEP)) s
                else s)
       in case free_moves a s of None \<Rightarrow> Fault | Some s \<Rightarrow> Ret () s)"

text \<open>The signal handlers.\<close>

fun trsync_call :: "trsync_callback \<Rightarrow> nat \<Rightarrow> u8 \<Rightarrow> 'z steppers_scheme \<Rightarrow> (unit, 'z steppers_scheme) res" where
  "trsync_call CB_stepper_stop a reason s = stepper_stop a reason s"

definition command_stepper_stop_on_trigger :: "u32 list \<Rightarrow> 'z steppers_scheme \<Rightarrow> (unit, 'z steppers_scheme) res" where
  "command_stepper_stop_on_trigger args s =
     bind (stepper_oid_lookup (ucast (args ! 0)) s) (\<lambda>a s.
     bind (trsync_oid_lookup (ucast (args ! 1)) s) (\<lambda>ts s.
       trsync_add_signal ts a (Some CB_stepper_stop) s))"

definition stepper_shutdown :: "'z steppers_scheme \<Rightarrow> (unit, 'z steppers_scheme) res" where
  "stepper_shutdown s =
     foreach_oid T_config_stepper (\<lambda>_ a s.
       stepper_stop a 0 (upd_stp a (\<lambda>x. x\<lparr>st_mq := move_queue_clear (st_mq x)\<rparr>) s)) s"

end
