(* ===== verification/Eddy.thy ===== *)
theory Eddy
  imports Stepper
begin

text \<open>
  \<^verbatim>\<open>src/klipper/src/ff_eddy.c\<close>: the eddy current bed probe, with its polling timer in
  \<^verbatim>\<open>sched.c\<close> and its host commands in \<^verbatim>\<open>basecmd.c\<close>.

  Signed C variables are words of their width, read with \<open>sint\<close>; \<open>d * d\<close> wraps to 32 bits. A
  division by zero gives 0, as on this core. Statements of the source that have two identical
  branches are translated once.
\<close>

section \<open>State\<close>

record eddy_state =
  ff_eddy_threshold :: u16
  ff_eddy_mad_limit :: u32
  ff_eddy_armed :: u8
  ff_eddy_prev_cnt :: u32
  ff_eddy_last_dev :: u32
  ff_eddy_dbg_baseline :: u32
  ff_eddy_have_filter :: u8
  ff_eddy_hard_trigger :: bool
  ff_eddy_mad :: u32
  ff_eddy_baseline :: u32
  ff_eddy_trig_acc :: u32
  ff_eddy_filter_acc :: u32
  ff_eddy_sample_ref :: u32
  ff_eddy_sample :: u32
  ff_eddy_value :: u32
  ff_eddy_sample_ready :: u32
  ff_eddy_calibrated :: u8
  ff_eddy_outrange_count :: u16
  ff_eddy_ring :: "u32 list"
  ff_eddy_ring_count :: u8
  ff_eddy_ring_pos :: u8
  ff_eddy_inrange_count :: u16
  ff_eddy_quiet_start_ms :: u32
  ff_eddy_untrig_count :: u8
  ff_eddy_offset :: u32
  ff_eddy_trig_count :: u8
  ff_eddy_peel :: u32
  ff_trigger_threshold :: u32

record eddy = steppers +
  edy :: eddy_state

definition FF_EDDY_NSAMP :: nat where "FF_EDDY_NSAMP = 11"
definition FF_EDDY_HARD_DEV :: u16 where "FF_EDDY_HARD_DEV = 150"
definition FF_EDDY_HARD_COUNT :: u16 where "FF_EDDY_HARD_COUNT = 15"
definition FF_EDDY_DRIFT_COUNT :: u16 where "FF_EDDY_DRIFT_COUNT = 100"
definition FF_EDDY_THRESH_MIN :: int where "FF_EDDY_THRESH_MIN = 20"
definition FF_EDDY_THRESH_MAX :: int where "FF_EDDY_THRESH_MAX = 60"
definition FF_EDDY_QUIET_MS :: u32 where "FF_EDDY_QUIET_MS = 2000"
definition FF_EDDY_TRIG_COUNT :: u8 where "FF_EDDY_TRIG_COUNT = 4"
definition FF_EDDY_UNTRIG_COUNT :: u8 where "FF_EDDY_UNTRIG_COUNT = 3"
definition FF_EDDY_HYSTERESIS :: u32 where "FF_EDDY_HYSTERESIS = 2"
definition FF_EDDY_SAMPLE_US :: u32 where "FF_EDDY_SAMPLE_US = 500"

definition eddy_state_static :: eddy_state where
  "eddy_state_static =
     \<lparr>ff_eddy_threshold = 25, ff_eddy_mad_limit = 2, ff_eddy_armed = 0, ff_eddy_prev_cnt = 0,
      ff_eddy_last_dev = 0, ff_eddy_dbg_baseline = 0, ff_eddy_have_filter = 0, ff_eddy_hard_trigger = False,
      ff_eddy_mad = 0, ff_eddy_baseline = 0, ff_eddy_trig_acc = 0, ff_eddy_filter_acc = 0,
      ff_eddy_sample_ref = 0, ff_eddy_sample = 0, ff_eddy_value = 0, ff_eddy_sample_ready = 0,
      ff_eddy_calibrated = 0, ff_eddy_outrange_count = 0, ff_eddy_ring = replicate FF_EDDY_NSAMP 0,
      ff_eddy_ring_count = 0, ff_eddy_ring_pos = 0, ff_eddy_inrange_count = 0, ff_eddy_quiet_start_ms = 0,
      ff_eddy_untrig_count = 0, ff_eddy_offset = 0, ff_eddy_trig_count = 0, ff_eddy_peel = 0,
      ff_trigger_threshold = 25\<rparr>"

definition eddy_static :: "(nat \<Rightarrow> env) \<Rightarrow> nat \<Rightarrow> nat \<Rightarrow> 'z \<Rightarrow> 'z eddy_scheme" where
  "eddy_static ev start end m = steppers_static ev start end (eddy_ext eddy_state_static m)"

abbreviation upd_edy :: "(eddy_state \<Rightarrow> eddy_state) \<Rightarrow> 'z eddy_scheme \<Rightarrow> 'z eddy_scheme" where
  "upd_edy f s \<equiv> s\<lparr>edy := f (edy s)\<rparr>"

section \<open>Small helpers\<close>

definition ff_eddy_now_ms :: "'z board_scheme \<Rightarrow> u32 \<times> 'z board_scheme" where
  "ff_eddy_now_ms s = (let (t, s) = timer_read_time s in (t div of_nat (CONFIG_CLOCK_FREQ div 1000), s))"

text \<open>
  Insertion sort in an array. \<open>sink tmp j key\<close> is the inner loop and the store behind it, with
  \<open>j\<close> one more than the index of the source.
\<close>

fun sink :: "u32 list \<Rightarrow> nat \<Rightarrow> u32 \<Rightarrow> u32 list" where
  "sink tmp 0 k = tmp[0 := k]"
| "sink tmp (Suc j) k = (if tmp ! j > k then sink (tmp[Suc j := tmp ! j]) j k else tmp[Suc j := k])"

definition insertion_sort :: "u32 list \<Rightarrow> u32 list" where
  "insertion_sort tmp = fold (\<lambda>i tmp. sink tmp i (tmp ! i)) [1..<FF_EDDY_NSAMP] tmp"

definition ff_eddy_median :: "u32 list \<Rightarrow> u32" where
  "ff_eddy_median ring = insertion_sort ring ! (FF_EDDY_NSAMP div 2)"

definition ff_eddy_home_reset :: "'z eddy_scheme \<Rightarrow> 'z eddy_scheme" where
  "ff_eddy_home_reset s =
     (let s = upd_edy (\<lambda>x. x\<lparr>ff_eddy_trig_acc := 0, ff_eddy_trig_count := 0, ff_eddy_untrig_count := 0\<rparr>) s;
          s = s\<lparr>ff_eddy_pin_state := True\<rparr>
      in upd_edy (\<lambda>x. x\<lparr>ff_eddy_hard_trigger := False, ff_eddy_peel := 0\<rparr>) s)"

text \<open>The loop of the square root; each round makes \<open>r\<close> smaller.\<close>

function isqrt_loop :: "u32 \<Rightarrow> u32 \<Rightarrow> u32 \<Rightarrow> u32" where
  "isqrt_loop v r n = (if n < r then isqrt_loop v n (drop_bit 1 (v div n + n)) else r)"
  by pat_completeness auto
termination
  by (relation "measure (\<lambda>(v, r, n). unat r)") (simp_all add: word_less_nat_alt)

declare isqrt_loop.simps [simp del]

definition ff_eddy_isqrt :: "u32 \<Rightarrow> u32" where
  "ff_eddy_isqrt v = (if v = 0 then 0 else isqrt_loop v v (drop_bit 1 (v + 1)))"

section \<open>Capture interrupt\<close>

text \<open>\<open>txc\<close>: the transfer complete flag; \<open>capture\<close>: the halfword that the transfer stored.\<close>

definition DMA1_Channel1_IRQHandler :: "bool \<Rightarrow> u16 \<Rightarrow> 'z eddy_scheme \<Rightarrow> 'z eddy_scheme" where
  "DMA1_Channel1_IRQHandler txc capture s =
     (if \<not> txc then s
      else let cnt = ucast capture :: u32;
               delta = ucast (ucast (cnt - ff_eddy_prev_cnt (edy s)) :: u16) :: u32;
               s = upd_edy (\<lambda>x. x\<lparr>ff_eddy_prev_cnt := cnt, ff_eddy_sample := delta,
                     ff_eddy_sample_ready := 1, ff_eddy_value := delta\<rparr>) s
           in sched_wake_task ff_eddy_wake s)"

section \<open>Sample processing\<close>

text \<open>The first part of \<open>ff_eddy_update\<close>: what goes into the ring.\<close>

definition absw :: "'a::len word \<Rightarrow> 'a word" where
  "absw x = (if sint x < 0 then - x else x)"

definition eddy_store :: "eddy_state \<Rightarrow> u32 \<times> eddy_state" where
  "eddy_store x =
     (if ff_eddy_armed x = 0
      then (ff_eddy_sample x, x\<lparr>ff_eddy_inrange_count := 0, ff_eddy_outrange_count := 0\<rparr>)
      else let adev = ucast (absw (ff_eddy_sample x - ff_eddy_sample_ref x)) :: u16;
               athr = absw (ff_eddy_threshold x)
           in if adev > athr \<and> adev \<le> FF_EDDY_HARD_DEV
              then let x = x\<lparr>ff_eddy_inrange_count := ff_eddy_inrange_count x + 1, ff_eddy_outrange_count := 0\<rparr>
                   in if ff_eddy_inrange_count x \<ge> FF_EDDY_DRIFT_COUNT
                      then (ff_eddy_sample x, x\<lparr>ff_eddy_inrange_count := 0, ff_eddy_baseline := ff_eddy_sample x,
                              ff_eddy_sample_ref := ff_eddy_sample x\<rparr>)
                      else (ff_eddy_baseline x, x)
              else if adev > FF_EDDY_HARD_DEV
              then let x = x\<lparr>ff_eddy_outrange_count := ff_eddy_outrange_count x + 1\<rparr>
                   in (ff_eddy_sample x,
                       if ff_eddy_outrange_count x \<ge> FF_EDDY_HARD_COUNT
                       then x\<lparr>ff_eddy_hard_trigger := True, ff_eddy_outrange_count := 0\<rparr> else x)
              else (ff_eddy_sample x, x\<lparr>ff_eddy_inrange_count := 0, ff_eddy_outrange_count := 0\<rparr>))"

definition eddy_push :: "u32 \<Rightarrow> eddy_state \<Rightarrow> eddy_state" where
  "eddy_push v x =
     (let x = x\<lparr>ff_eddy_sample_ready := 0\<rparr>;
          x = x\<lparr>ff_eddy_ring := (ff_eddy_ring x)[unat (ff_eddy_ring_pos x) := v]\<rparr>;
          x = x\<lparr>ff_eddy_ring_pos := ff_eddy_ring_pos x + 1\<rparr>;
          x = (if unat (ff_eddy_ring_pos x) > FF_EDDY_NSAMP - 1 then x\<lparr>ff_eddy_ring_pos := 0\<rparr> else x)
      in if unat (ff_eddy_ring_count x) < FF_EDDY_NSAMP
         then x\<lparr>ff_eddy_ring_count := ff_eddy_ring_count x + 1\<rparr> else x)"

text \<open>The median absolute deviation about \<open>center\<close>.\<close>

definition dist :: "u32 \<Rightarrow> u32 \<Rightarrow> u32" where
  "dist center v = (if v \<ge> center then v - center else center - v)"

definition eddy_mad_of :: "u32 \<Rightarrow> u32 list \<Rightarrow> u32" where
  "eddy_mad_of center ring =
     insertion_sort (map (dist center) (take FF_EDDY_NSAMP ring)) ! (FF_EDDY_NSAMP div 2)"

text \<open>The part after two seconds of quiet.\<close>

definition eddy_sigma :: "u32 \<Rightarrow> u32 \<Rightarrow> u32 list \<Rightarrow> u32" where
  "eddy_sigma center mad ring =
     (let sumsq = fold (\<lambda>i acc. let d = ring ! i - center in acc + (scast (d * d) :: u64)) [0..<FF_EDDY_NSAMP] 0;
          sd = ff_eddy_isqrt (ucast (sumsq div of_nat FF_EDDY_NSAMP));
          floor_sd = mad + mad div 2;
          floor_sd = (if floor_sd = 0 then 1 else floor_sd)
      in if sd < floor_sd then floor_sd else sd)"

definition eddy_scrub :: "u32 \<Rightarrow> u32 \<Rightarrow> eddy_state \<Rightarrow> eddy_state" where
  "eddy_scrub center mad x =
     (if ff_eddy_ring_count x = 0 then x
      else let lim = (if mad \<noteq> 0
                      then if (ucast mad * 3 :: u64) > 0xffffffff then 0xffffffff else mad * 3
                      else ff_eddy_mad_limit x)
           in x\<lparr>ff_eddy_ring := fold (\<lambda>i ring. if lim < dist center (ring ! i) then ring[i := center] else ring)
                  [0..<unat (ff_eddy_ring_count x)] (ff_eddy_ring x)\<rparr>)"

definition eddy_clamp :: "u32 \<Rightarrow> u16" where
  "eddy_clamp sd =
     (let thr = ucast (sd * 3) :: u16;
          thr = (if sint thr < FF_EDDY_THRESH_MIN then word_of_int FF_EDDY_THRESH_MIN else thr)
      in if sint thr \<ge> FF_EDDY_THRESH_MAX then word_of_int FF_EDDY_THRESH_MAX else thr)"

definition eddy_recalibrate :: "u32 \<Rightarrow> u32 \<Rightarrow> eddy_state \<Rightarrow> eddy_state" where
  "eddy_recalibrate center mad x =
     (let sd = eddy_sigma center mad (ff_eddy_ring x);
          x = eddy_scrub center mad x;
          x = x\<lparr>ff_eddy_threshold := eddy_clamp sd\<rparr>;
          x = x\<lparr>ff_eddy_baseline := ff_eddy_offset x + ff_eddy_filter_acc x div 4\<rparr>
      in x\<lparr>ff_eddy_sample_ref := ff_eddy_baseline x, ff_eddy_have_filter := 0, ff_eddy_calibrated := 1,
           ff_eddy_ring_count := 0, ff_eddy_ring_pos := 0, ff_eddy_quiet_start_ms := 0,
           ff_eddy_inrange_count := 0, ff_eddy_outrange_count := 0\<rparr>)"

definition ff_eddy_update :: "'z eddy_scheme \<Rightarrow> 'z eddy_scheme" where
  "ff_eddy_update s =
     (if ff_eddy_sample_ready (edy s) = 0 then s
      else let (v, x) = eddy_store (edy s);
               s = s\<lparr>edy := eddy_push v x\<rparr>
           in if ff_eddy_have_filter (edy s) = 0
              then if unat (ff_eddy_ring_count (edy s)) = FF_EDDY_NSAMP
                   then let s = upd_edy (\<lambda>x. x\<lparr>ff_eddy_filter_acc := ff_eddy_median (ff_eddy_ring x) * 4,
                                               ff_eddy_have_filter := 1\<rparr>) s;
                            (now, s) = ff_eddy_now_ms s
                        in upd_edy (\<lambda>x. x\<lparr>ff_eddy_quiet_start_ms := now\<rparr>) s
                   else s
              else let s = upd_edy (\<lambda>x. x\<lparr>ff_eddy_filter_acc := v + ff_eddy_filter_acc x * 3 div 4\<rparr>) s;
                       center = ff_eddy_median (ff_eddy_ring (edy s));
                       mad = eddy_mad_of center (ff_eddy_ring (edy s));
                       s = upd_edy (\<lambda>x. x\<lparr>ff_eddy_mad := mad\<rparr>) s
                   in if ff_eddy_mad_limit (edy s) < mad
                      then upd_edy (\<lambda>x. x\<lparr>ff_eddy_quiet_start_ms := 0\<rparr>) s
                      else let (now, s) = ff_eddy_now_ms s;
                               s = (if ff_eddy_quiet_start_ms (edy s) = 0
                                    then upd_edy (\<lambda>x. x\<lparr>ff_eddy_quiet_start_ms := now\<rparr>) s else s)
                           in if now - ff_eddy_quiet_start_ms (edy s) < FF_EDDY_QUIET_MS then s
                              else upd_edy (eddy_recalibrate center mad) s)"

definition ff_eddy_rebaseline :: "'z eddy_scheme \<Rightarrow> 'z eddy_scheme" where
  "ff_eddy_rebaseline s =
     (let base = ff_eddy_value (edy s) + ff_eddy_offset (edy s);
          s = upd_edy (\<lambda>x. x\<lparr>ff_eddy_baseline := base, ff_eddy_sample_ref := base, ff_eddy_ring_count := 0,
                ff_eddy_ring_pos := 0, ff_eddy_filter_acc := base * 4, ff_eddy_have_filter := 1,
                ff_eddy_quiet_start_ms := 0, ff_eddy_inrange_count := 0, ff_eddy_outrange_count := 0\<rparr>) s;
          s = upd_edy (\<lambda>x. x\<lparr>ff_eddy_trig_acc := 0, ff_eddy_untrig_count := 0, ff_eddy_trig_count := 0\<rparr>) s;
          s = s\<lparr>ff_eddy_pin_state := True\<rparr>
      in upd_edy (\<lambda>x. x\<lparr>ff_eddy_hard_trigger := False, ff_eddy_peel := 0, ff_eddy_calibrated := 1\<rparr>) s)"

section \<open>Trigger detection\<close>

definition ff_eddy_value_bad :: "u32 \<Rightarrow> bool" where
  "ff_eddy_value_bad v \<longleftrightarrow> v = 0 \<or> v > 0xffff"

text \<open>The filter of the deviation, with arithmetic shifts.\<close>

definition eddy_filter :: "u32 \<Rightarrow> u32 \<Rightarrow> u32" where
  "eddy_filter adiff acc = acc + signed_drop_bit 2 (push_bit 4 adiff - acc)"

text \<open>The measurement: deviation from the baseline and its filtered value.\<close>

definition eddy_dev :: "eddy_state \<Rightarrow> u32" where
  "eddy_dev x = ucast (ucast (absw (ff_eddy_value x - ff_eddy_baseline x)) :: u16)"

definition eddy_measure :: "eddy_state \<Rightarrow> eddy_state" where
  "eddy_measure x = x\<lparr>ff_eddy_peel := ff_eddy_value x - ff_eddy_baseline x, ff_eddy_last_dev := eddy_dev x,
     ff_eddy_trig_acc := eddy_filter (eddy_dev x) (ff_eddy_trig_acc x)\<rparr>"

definition eddy_filtered :: "eddy_state \<Rightarrow> int" where
  "eddy_filtered x = sint (signed_drop_bit 4 (ff_eddy_trig_acc x))"

text \<open>At or above the threshold, and clearly below it.\<close>

definition eddy_above :: "'z eddy_scheme \<Rightarrow> 'z eddy_scheme" where
  "eddy_above s =
     (let s = upd_edy (\<lambda>x. x\<lparr>ff_eddy_untrig_count := 0, ff_eddy_trig_count := ff_eddy_trig_count x + 1\<rparr>) s
      in if ff_eddy_trig_count (edy s) < FF_EDDY_TRIG_COUNT then s
         else let s = (if ff_eddy_pin_state s then s\<lparr>ff_eddy_pin_state := False\<rparr> else s)
              in upd_edy (\<lambda>x. x\<lparr>ff_eddy_trig_count := FF_EDDY_TRIG_COUNT\<rparr>) s)"

definition eddy_below :: "'z eddy_scheme \<Rightarrow> 'z eddy_scheme" where
  "eddy_below s =
     (let s = upd_edy (\<lambda>x. x\<lparr>ff_eddy_trig_count := 0, ff_eddy_untrig_count := ff_eddy_untrig_count x + 1\<rparr>) s
      in if ff_eddy_untrig_count (edy s) < FF_EDDY_UNTRIG_COUNT then s
         else let s = (if \<not> ff_eddy_pin_state s then s\<lparr>ff_eddy_pin_state := True\<rparr> else s)
              in upd_edy (\<lambda>x. x\<lparr>ff_eddy_untrig_count := FF_EDDY_UNTRIG_COUNT\<rparr>) s)"

definition eddy_hard :: "'z eddy_scheme \<Rightarrow> 'z eddy_scheme" where
  "eddy_hard s =
     (let s = upd_edy (\<lambda>x. x\<lparr>ff_eddy_hard_trigger := False\<rparr>) s
      in if ff_eddy_value_bad (ff_eddy_value (edy s)) then s
         else let s = (if ff_eddy_pin_state s then s\<lparr>ff_eddy_pin_state := False\<rparr> else s)
              in upd_edy (\<lambda>x. x\<lparr>ff_eddy_trig_count := 0, ff_eddy_untrig_count := 0\<rparr>) s)"

definition ff_eddy_check_trigger :: "'z eddy_scheme \<Rightarrow> 'z eddy_scheme" where
  "ff_eddy_check_trigger s =
     (if ff_eddy_hard_trigger (edy s) then eddy_hard s
      else if ff_eddy_value_bad (ff_eddy_value (edy s)) then s
      else let thr = ff_eddy_threshold (edy s);
               s = upd_edy eddy_measure s;
               filtered = eddy_filtered (edy s)
           in if sint thr \<le> filtered then eddy_above s
              else if sint (ucast (scast thr - FF_EDDY_HYSTERESIS) :: u16) > filtered then eddy_below s
              else if ff_eddy_pin_state s then upd_edy (\<lambda>x. x\<lparr>ff_eddy_trig_count := 0\<rparr>) s
              else upd_edy (\<lambda>x. x\<lparr>ff_eddy_untrig_count := 0\<rparr>) s)"

section \<open>Polling timer and host commands\<close>

definition ff_eddy_timer_event :: "tptr \<Rightarrow> 'z eddy_scheme \<Rightarrow> (sf, 'z eddy_scheme) res" where
  "ff_eddy_timer_event t s =
     (let s = ff_eddy_update s;
          s = (if ff_eddy_calibrated (edy s) = 1 \<and> ff_eddy_armed (edy s) = 0
               then upd_edy (\<lambda>x. x\<lparr>ff_eddy_armed := 1, ff_eddy_sample_ref := ff_eddy_baseline x,
                      ff_eddy_dbg_baseline := ff_eddy_baseline x\<rparr>) s
               else s);
          s = set_waketime t (waketime_of s t + timer_from_us FF_EDDY_SAMPLE_US) s
      in Ret SF_RESCHEDULE s)"

definition ff_eddy_timer_init :: "'z eddy_scheme \<Rightarrow> (unit, 'z eddy_scheme) res" where
  "ff_eddy_timer_init s =
     (let s = set_func EddyT F_ff_eddy_timer_event s;
          (now, s) = timer_read_time s;
          s = set_waketime EddyT (now + timer_from_us FF_EDDY_SAMPLE_US) s;
          s = set_next EddyT None s
      in sched_add_timer EddyT FF_TIMER_EDDY_POLL s)"

definition command_remove_peel :: "u32 list \<Rightarrow> 'z eddy_scheme \<Rightarrow> 'z eddy_scheme" where
  "command_remove_peel args s =
     (let peel = ff_eddy_peel (edy s);
          s = upd_edy (\<lambda>x. x\<lparr>ff_eddy_baseline := ff_eddy_value x\<rparr>) s
      in sendf ''peel_data value=%i'' [U peel] s)"

definition command_get_basic_param :: "u32 list \<Rightarrow> 'z eddy_scheme \<Rightarrow> 'z eddy_scheme" where
  "command_get_basic_param args s =
     (let baseline = ff_eddy_baseline (edy s);
          v = ff_eddy_value (edy s);
          s = ff_eddy_rebaseline s
      in sendf ''param_value value=%u reserve=%u'' [U baseline, U (absw (v - baseline))] s)"

definition command_set_trigger_threshold :: "u32 list \<Rightarrow> 'z eddy_scheme \<Rightarrow> 'z eddy_scheme" where
  "command_set_trigger_threshold args s =
     (let s = upd_edy (\<lambda>x. x\<lparr>ff_trigger_threshold := args ! 0\<rparr>) s;
          s = upd_edy (\<lambda>x. x\<lparr>ff_eddy_threshold := ucast (ff_trigger_threshold x)\<rparr>) s
      in sendf ''trigger_threshold threshold=%i'' [U (ff_trigger_threshold (edy s))] s)"

end
