(* ===== verification/Eddy_Spec.thy ===== *)
theory Eddy_Spec
  imports Eddy Sched_Spec "HOL-Library.Multiset"
begin

text \<open>
  Properties of the eddy current probe: the median and the square root compute what their names
  say, the state of the probe stays well formed, the trigger is debounced, and a touch is detected
  after a bounded number of readings.
\<close>

section \<open>Median\<close>

text \<open>The inner loop inserts the key into the sorted part of the array.\<close>

lemma insort_snoc_less: "k < (y::u32) \<Longrightarrow> insort k (xs @ [y]) = insort k xs @ [y]"
  by (induction xs) auto

lemma insort_last:
  assumes "sorted xs" "\<And>x. x \<in> set xs \<Longrightarrow> x \<le> (k::u32)"
  shows "insort k xs = xs @ [k]"
proof -
  have "sort (k # xs) = xs @ [k]"
    by (rule properties_for_sort) (use assms in \<open>auto simp: sorted_append\<close>)
  then show ?thesis
    using assms(1) by (simp add: sorted_sort_id)
qed

lemma sink_insort:
  assumes "j < length tmp" "sorted (take j tmp)"
  shows "sink tmp j k = insort k (take j tmp) @ drop (Suc j) tmp"
  using assms
proof (induction tmp j k rule: sink.induct)
  case (1 tmp k)
  then show ?case by (cases tmp) simp_all
next
  case (2 tmp j k)
  have tk: "take (Suc j) tmp = take j tmp @ [tmp ! j]"
    using 2(2) by (simp add: take_Suc_conv_app_nth)
  have s: "sorted (take j tmp)" "\<And>x. x \<in> set (take j tmp) \<Longrightarrow> x \<le> tmp ! j"
    using 2(3) by (auto simp: tk sorted_append)
  show ?case
  proof (cases "tmp ! j > k")
    case True
    have "drop (Suc j) (tmp[Suc j := tmp ! j]) = tmp ! j # drop (Suc (Suc j)) tmp"
      using 2(2) by (simp add: Cons_nth_drop_Suc [symmetric] drop_update_swap)
    with True show ?thesis
      using 2(1) [OF True] 2(2) s by (simp add: tk insort_snoc_less)
  next
    case False
    have "insort k (take (Suc j) tmp) = take (Suc j) tmp @ [k]"
      by (rule insort_last) (use 2(3) False s in \<open>force simp: tk not_less intro: order_trans\<close>)+
    with False 2(2) show ?thesis
      by (simp add: upd_conv_take_nth_drop)
  qed
qed

lemma insertion_sort_prefix:
  assumes "n \<le> length tmp" "1 \<le> n"
  shows "fold (\<lambda>i tmp. sink tmp i (tmp ! i)) [1..<n] tmp = sort (take n tmp) @ drop n tmp"
  using assms(2,1)
proof (induction n rule: dec_induct)
  case base
  then show ?case by (cases tmp) simp_all
next
  case (step n)
  let ?t = "sort (take n tmp) @ drop n tmp"
  have n: "n < length tmp" "?t ! n = tmp ! n" "drop (Suc n) ?t = drop (Suc n) tmp" "take n ?t = sort (take n tmp)"
    using step by (simp_all add: nth_append)
  have "sink ?t n (?t ! n) = insort (tmp ! n) (sort (take n tmp)) @ drop (Suc n) tmp"
    by (subst sink_insort) (use n in simp_all)
  also have "insort (tmp ! n) (sort (take n tmp)) = sort (take (Suc n) tmp)"
    by (rule sym, rule properties_for_sort)
      (use n(1) in \<open>simp_all add: take_Suc_conv_app_nth sorted_insort\<close>)
  finally show ?case
    using step by simp
qed

lemma insertion_sort_sort: "length tmp = FF_EDDY_NSAMP \<Longrightarrow> insertion_sort tmp = sort tmp"
  using insertion_sort_prefix [of FF_EDDY_NSAMP tmp] by (simp add: insertion_sort_def FF_EDDY_NSAMP_def)

section \<open>Square root\<close>

text \<open>One step of Newton's method from above stays above the root.\<close>

lemma four_times_product_le: "4 * (q * R) \<le> (q + R)\<^sup>2" for q R :: nat
proof (cases "q \<le> R")
  case True
  then obtain d where "R = q + d"
    using le_Suc_ex by blast
  then show ?thesis by (simp add: power2_eq_square algebra_simps)
next
  case False
  then obtain d where "q = R + d"
    using le_Suc_ex [of R q] by auto
  then show ?thesis by (simp add: power2_eq_square algebra_simps)
qed

lemma newton_above:
  fixes V R :: nat
  assumes "0 < R"
  defines "n \<equiv> (V div R + R) div 2"
  shows "V < (n + 1)\<^sup>2"
proof -
  let ?q = "V div R + 1"
  have "V < ?q * R"
    using assms dividend_less_times_div [of R V] by (simp add: algebra_simps)
  moreover have "4 * (?q * R) \<le> (?q + R)\<^sup>2"
    by (rule four_times_product_le)
  moreover have "(?q + R)\<^sup>2 \<le> (2 * (n + 1))\<^sup>2"
    by (intro power_mono) (simp_all add: n_def)
  moreover have "(2 * (n + 1))\<^sup>2 = 4 * (n + 1)\<^sup>2"
    by (simp only: power_mult_distrib) simp
  ultimately show ?thesis by linarith
qed

lemma newton_stop:
  fixes V R :: nat
  assumes "R \<le> (V div R + R) div 2" "0 < R"
  shows "R\<^sup>2 \<le> V"
proof -
  have "R \<le> V div R"
    using assms(1) by linarith
  then show ?thesis
    using assms(2) by (simp add: less_eq_div_iff_mult_less_eq power2_eq_square)
qed

lemma newton_positive: "0 < R \<Longrightarrow> 0 < V \<Longrightarrow> R \<le> V \<Longrightarrow> 0 < (V div R + R) div (2::nat)"
  using div_le_mono [of R V R] by (simp add: div_greater_zero_iff)

lemma isqrt_loop_spec:
  assumes "unat n = (unat v div unat r + unat r) div 2" "0 < unat r" "unat r \<le> unat v"
    "unat n \<le> 2147483647" "unat v < 4294967295" "unat v < (unat r + 1)\<^sup>2"
  shows "(unat (isqrt_loop v r n))\<^sup>2 \<le> unat v \<and> unat v < (unat (isqrt_loop v r n) + 1)\<^sup>2"
  using assms
proof (induction v r n rule: isqrt_loop.induct)
  case (1 v r n)
  show ?case
  proof (cases "n < r")
    case False
    then show ?thesis
      using 1(2-) newton_stop [of "unat r" "unat v"]
      by (subst (1 2) isqrt_loop.simps) (simp add: word_less_nat_alt)
  next
    case True
    have lt: "unat n < unat r"
      using True by (simp add: word_less_nat_alt)
    have pos: "0 < unat n"
      using 1(2-) newton_positive [of "unat r" "unat v"] by simp
    have above: "unat v < (unat n + 1)\<^sup>2"
      using newton_above [of "unat r" "unat v"] 1(2,3) by simp
    have sum: "unat v div unat n + unat n < 4294967296"
    proof (cases "unat n = 1")
      case True
      then show ?thesis using 1(6) by simp
    next
      case False
      then have "unat v div unat n \<le> unat v div 2"
        using pos by (intro div_le_mono2) simp_all
      then show ?thesis
        using 1(5,6) by linarith
    qed
    have add: "unat (v div n + n) = unat v div unat n + unat n"
      using sum unat_add_u32 [of "v div n" n] by (simp add: unat_div)
    have next': "unat (drop_bit 1 (v div n + n)) = (unat v div unat n + unat n) div 2"
      by (simp add: drop_bit_eq_div unat_div add)
    have "unat (drop_bit 1 (v div n + n)) \<le> 2147483647"
      unfolding next' using sum by linarith
    then show ?thesis
      using 1(1) [OF True next' pos _ _ 1(6) above] lt 1(4) True
      by (subst (1 2) isqrt_loop.simps) simp
  qed
qed

lemma isqrt_spec:
  assumes "v \<noteq> 0xffffffff"
  shows "(unat (ff_eddy_isqrt v))\<^sup>2 \<le> unat v \<and> unat v < (unat (ff_eddy_isqrt v) + 1)\<^sup>2"
proof (cases "v = 0")
  case False
  have lt: "unat v < 4294967295"
    using assms unat_u32 [of v] word_unat_eq_iff [of v "0xffffffff"] by simp
  have pos: "0 < unat v"
    using False by (simp add: unat_gt_0)
  have n: "unat (drop_bit 1 (v + 1)) = (unat v div unat v + unat v) div 2"
    using unat_add_u32 [of v 1] lt pos by (simp add: drop_bit_eq_div unat_div)
  have small: "unat (drop_bit 1 (v + 1)) \<le> 2147483647"
    unfolding n using lt pos by simp
  have sq: "unat v < (unat v + 1)\<^sup>2"
    by (simp add: power2_eq_square)
  show ?thesis
    unfolding ff_eddy_isqrt_def
    using isqrt_loop_spec [OF n pos order_refl small lt sq] False by simp
qed (simp add: ff_eddy_isqrt_def)

text \<open>The largest word is the exception: the first step wraps to 0 and the loop divides by it.\<close>

lemma isqrt_max: "ff_eddy_isqrt 0xffffffff = 0"
  by (simp add: ff_eddy_isqrt_def isqrt_loop.simps)

section \<open>Invariant\<close>

text \<open>
  The ring index stays in the ring, the debounce counters stay at their limits, and the filter
  accumulator stays in the range that 16-bit deviations allow, so its arithmetic does not overflow.
\<close>

definition eddy_ok :: "eddy_state \<Rightarrow> bool" where
  "eddy_ok x \<longleftrightarrow> length (ff_eddy_ring x) = FF_EDDY_NSAMP \<and> unat (ff_eddy_ring_pos x) < FF_EDDY_NSAMP \<and>
     unat (ff_eddy_ring_count x) \<le> FF_EDDY_NSAMP \<and> unat (ff_eddy_trig_count x) \<le> 4 \<and>
     unat (ff_eddy_untrig_count x) \<le> 3 \<and> 0 \<le> sint (ff_eddy_trig_acc x) \<and> sint (ff_eddy_trig_acc x) \<le> 1048560"

lemma eddy_static_ok: "eddy_ok eddy_state_static"
  by (simp add: eddy_ok_def eddy_state_static_def FF_EDDY_NSAMP_def)

lemma unat_inc_u8: "unat (x::u8) < 255 \<Longrightarrow> unat (x + 1) = unat x + 1"
  using unat_add_lem [of x 1] by simp

lemma eddy_push_ok:
  assumes "eddy_ok x"
  shows "eddy_ok (eddy_push v x)"
  using assms unat_inc_u8 [of "ff_eddy_ring_pos x"] unat_inc_u8 [of "ff_eddy_ring_count x"]
  by (simp add: eddy_ok_def eddy_push_def Let_def FF_EDDY_NSAMP_def)

lemma eddy_store_ok: "eddy_ok x \<Longrightarrow> eddy_store x = (v, x') \<Longrightarrow> eddy_ok x'"
  by (auto simp: eddy_ok_def eddy_store_def Let_def split: if_splits)

lemma length_scrub: "length (fold (\<lambda>i ring. if lim < dist c (ring ! i) then ring[i := c] else ring) is ring) = length ring"
  by (induction "is" arbitrary: ring) simp_all

lemma eddy_recalibrate_ok: "eddy_ok x \<Longrightarrow> eddy_ok (eddy_recalibrate c mad x)"
  by (simp add: eddy_ok_def eddy_recalibrate_def eddy_scrub_def length_scrub Let_def)

lemma eddy_update_ok:
  assumes "eddy_ok (edy s)"
  shows "eddy_ok (edy (ff_eddy_update s))"
proof -
  obtain v x where st: "eddy_store (edy s) = (v, x)" by fastforce
  have push: "eddy_ok (eddy_push v x)"
    using eddy_push_ok eddy_store_ok [OF assms st] by blast
  have upd: "eddy_ok ((eddy_push v x)\<lparr>ff_eddy_filter_acc := a\<rparr>)"
    "eddy_ok ((eddy_push v x)\<lparr>ff_eddy_filter_acc := a, ff_eddy_mad := m\<rparr>)"
    "eddy_ok ((eddy_push v x)\<lparr>ff_eddy_filter_acc := a, ff_eddy_mad := m, ff_eddy_quiet_start_ms := q\<rparr>)"
    "eddy_ok ((eddy_push v x)\<lparr>ff_eddy_filter_acc := a, ff_eddy_have_filter := h, ff_eddy_quiet_start_ms := q\<rparr>)"
    for a m q h
    using push by (simp_all add: eddy_ok_def)
  show ?thesis
    using assms push upd eddy_recalibrate_ok
    by (simp add: ff_eddy_update_def st Let_def ff_eddy_now_ms_def timer_read_time_def tick_def)
qed

section \<open>The deviation filter\<close>

lemma sint_sub_exact:
  fixes x y :: u32
  assumes "- 2147483648 \<le> sint x - sint y" "sint x - sint y < 2147483648"
  shows "sint (x - y) = sint x - sint y"
  unfolding sint_word_ariths using assms by (simp add: signed_take_bit_int_eq_self)

lemma sint_add_exact:
  fixes x y :: u32
  assumes "- 2147483648 \<le> sint x + sint y" "sint x + sint y < 2147483648"
  shows "sint (x + y) = sint x + sint y"
  unfolding sint_word_ariths using assms by (simp add: signed_take_bit_int_eq_self)

lemma unat_less_iff_uint: "unat (x::u32) < n \<longleftrightarrow> uint x < int n"
  using of_nat_less_iff [of "unat x" n, where 'a = int] by simp

lemma sint_small: "unat (x::u32) < 2147483648 \<Longrightarrow> sint x = int (unat x)"
  using unat_less_iff_uint [of x] by (simp add: sint_u32)

lemma eddy_filter_sint:
  assumes "0 \<le> sint acc" "sint acc \<le> 1048560" "uint d \<le> 65535"
  shows "sint (eddy_filter d acc) = sint acc + (16 * uint d - sint acc) div 4"
proof -
  have d: "unat d \<le> 65535" "0 \<le> uint d"
    using assms(3) of_nat_le_iff [of "unat d" 65535, where 'a = int] by simp_all
  have p: "unat (push_bit 4 d) = 16 * unat d"
    using d unat_mult_u32 [of d 16] by (simp add: push_bit_eq_mult)
  have sp: "sint (push_bit 4 d) = 16 * uint d"
    using p d by (subst sint_small) simp_all
  have b: "- 2147483648 \<le> 16 * uint d - sint acc" "16 * uint d - sint acc < 2147483648"
    "- 2147483648 \<le> sint acc + (16 * uint d - sint acc) div 4" "sint acc + (16 * uint d - sint acc) div 4 < 2147483648"
    using assms d(2) by linarith+
  have sub: "sint (push_bit 4 d - acc) = 16 * uint d - sint acc"
    using b(1,2) by (subst sint_sub_exact) (simp_all add: sp)
  have sh: "sint (signed_drop_bit 2 (push_bit 4 d - acc)) = (16 * uint d - sint acc) div 4"
    by (simp add: sint_signed_drop_bit_eq drop_bit_eq_div sub)
  show ?thesis
    unfolding eddy_filter_def using b(3,4) by (subst sint_add_exact) (simp_all add: sh)
qed

lemma filter_range:
  fixes e d :: int
  assumes "0 \<le> a" "a \<le> 1048560" "0 \<le> d" "d \<le> 65535"
  shows "0 \<le> a + (16 * d - a) div 4" "a + (16 * d - a) div 4 \<le> 1048560"
  using assms by linarith+

lemma eddy_filter_range:
  assumes "0 \<le> sint acc" "sint acc \<le> 1048560" "uint d \<le> 65535"
  shows "0 \<le> sint (eddy_filter d acc) \<and> sint (eddy_filter d acc) \<le> 1048560"
  using filter_range [of "sint acc" "uint d"] assms by (simp add: eddy_filter_sint)

section \<open>Trigger detection\<close>

text \<open>The measurement of a state, and whether it reaches the threshold.\<close>

definition eddy_level :: "eddy_state \<Rightarrow> int" where
  "eddy_level x = eddy_filtered (eddy_measure x)"

definition reaches :: "eddy_state \<Rightarrow> bool" where
  "reaches x \<longleftrightarrow> sint (ff_eddy_threshold x) \<le> eddy_level x"

lemma eddy_level_acc:
  assumes "0 \<le> sint (ff_eddy_trig_acc x)" "sint (ff_eddy_trig_acc x) \<le> 1048560"
  shows "eddy_level x = (sint (ff_eddy_trig_acc x) + (16 * uint (eddy_dev x) - sint (ff_eddy_trig_acc x)) div 4) div 16"
  using assms by (simp add: eddy_level_def eddy_filtered_def eddy_measure_def sint_signed_drop_bit_eq drop_bit_eq_div
      eddy_filter_sint eddy_dev_def unat_ucast_u16)

lemma eddy_measure_ok: "eddy_ok x \<Longrightarrow> eddy_ok (eddy_measure x)"
  using eddy_filter_range [of "ff_eddy_trig_acc x" "eddy_dev x"]
  by (simp add: eddy_ok_def eddy_measure_def eddy_dev_def unat_ucast_u16)

lemmas debounce_defs = FF_EDDY_TRIG_COUNT_def FF_EDDY_UNTRIG_COUNT_def

lemma eddy_above_ok: "eddy_ok (edy s) \<Longrightarrow> eddy_ok (edy (eddy_above s))"
  using unat_inc_u8 [of "ff_eddy_trig_count (edy s)"]
  by (simp add: eddy_above_def eddy_ok_def Let_def debounce_defs word_less_nat_alt)

lemma eddy_below_ok: "eddy_ok (edy s) \<Longrightarrow> eddy_ok (edy (eddy_below s))"
  using unat_inc_u8 [of "ff_eddy_untrig_count (edy s)"]
  by (simp add: eddy_below_def eddy_ok_def Let_def debounce_defs word_less_nat_alt)

lemma eddy_hard_ok: "eddy_ok (edy s) \<Longrightarrow> eddy_ok (edy (eddy_hard s))"
  by (simp add: eddy_hard_def eddy_ok_def Let_def)

lemma check_trigger_ok:
  assumes "eddy_ok (edy s)"
  shows "eddy_ok (edy (ff_eddy_check_trigger s))"
proof -
  have m: "eddy_ok (edy (upd_edy eddy_measure s))"
    using eddy_measure_ok [OF assms] by simp
  have u: "eddy_ok (x\<lparr>ff_eddy_trig_count := 0\<rparr>)" "eddy_ok (x\<lparr>ff_eddy_untrig_count := 0\<rparr>)" if "eddy_ok x" for x
    using that by (simp_all add: eddy_ok_def)
  show ?thesis
    using assms u [OF m] eddy_above_ok [OF m] eddy_below_ok [OF m] eddy_hard_ok [OF assms]
    by (simp add: ff_eddy_check_trigger_def Let_def)
qed

section \<open>Debouncing\<close>

text \<open>A reading \<open>v\<close> arrives and is checked; \<open>reached vs s\<close> lists which valid readings reach the threshold.\<close>

abbreviation with_value :: "u32 \<Rightarrow> eddy_state \<Rightarrow> eddy_state" where
  "with_value v x \<equiv> x\<lparr>ff_eddy_value := v\<rparr>"

definition eddy_read :: "u32 \<Rightarrow> 'z eddy_scheme \<Rightarrow> 'z eddy_scheme" where
  "eddy_read v s = ff_eddy_check_trigger (upd_edy (with_value v) s)"

primrec reached :: "u32 list \<Rightarrow> 'z eddy_scheme \<Rightarrow> bool list" where
  "reached [] s = []"
| "reached (v # vs) s =
     (if ff_eddy_value_bad v then [] else [reaches (with_value v (edy s))]) @ reached vs (eddy_read v s)"

lemma eddy_measure_sel [simp]:
  "ff_eddy_hard_trigger (eddy_measure x) = ff_eddy_hard_trigger x" "ff_eddy_threshold (eddy_measure x) = ff_eddy_threshold x"
  "ff_eddy_trig_count (eddy_measure x) = ff_eddy_trig_count x" "ff_eddy_baseline (eddy_measure x) = ff_eddy_baseline x"
  "ff_eddy_value (eddy_measure x) = ff_eddy_value x" "eddy_dev (eddy_measure x) = eddy_dev x"
  "ff_eddy_trig_acc (eddy_measure x) = eddy_filter (eddy_dev x) (ff_eddy_trig_acc x)"
  by (simp_all add: eddy_measure_def eddy_dev_def)

lemma read_bad:
  assumes "\<not> ff_eddy_hard_trigger (edy s)" "ff_eddy_value_bad v"
  shows "eddy_read v s = upd_edy (with_value v) s"
  using assms by (simp add: eddy_read_def ff_eddy_check_trigger_def)

lemma read_reaches:
  assumes "\<not> ff_eddy_hard_trigger (edy s)" "\<not> ff_eddy_value_bad v" "reaches (with_value v (edy s))"
  shows "eddy_read v s = eddy_above (upd_edy (\<lambda>x. eddy_measure (with_value v x)) s)"
  using assms by (simp add: eddy_read_def ff_eddy_check_trigger_def reaches_def eddy_level_def Let_def)

lemma read_not_reaches:
  assumes "\<not> ff_eddy_hard_trigger (edy s)" "\<not> ff_eddy_value_bad v" "\<not> reaches (with_value v (edy s))" "ff_eddy_pin_state s"
  shows "ff_eddy_pin_state (eddy_read v s) \<and> ff_eddy_trig_count (edy (eddy_read v s)) = 0 \<and>
    \<not> ff_eddy_hard_trigger (edy (eddy_read v s))"
  using assms by (simp add: eddy_read_def ff_eddy_check_trigger_def reaches_def eddy_level_def eddy_below_def Let_def)

lemma above_state:
  assumes "unat (ff_eddy_trig_count (edy s)) < 4"
  shows "ff_eddy_hard_trigger (edy (eddy_above s)) = ff_eddy_hard_trigger (edy s)"
    "unat (ff_eddy_trig_count (edy (eddy_above s))) = unat (ff_eddy_trig_count (edy s)) + 1"
    "ff_eddy_pin_state (eddy_above s) = (ff_eddy_pin_state s \<and> unat (ff_eddy_trig_count (edy s)) < 3)"
  using assms unat_inc_u8 [of "ff_eddy_trig_count (edy s)"]
  by (auto simp: eddy_above_def Let_def debounce_defs word_less_nat_alt)

lemma four_in_a_row:
  assumes "\<not> ff_eddy_hard_trigger (edy s)" "ff_eddy_pin_state s" "unat (ff_eddy_trig_count (edy s)) = c" "c < 4"
    and "\<not> ff_eddy_pin_state (fold eddy_read vs s)"
  shows "\<exists>pre suf. replicate c True @ reached vs s = pre @ [True, True, True, True] @ suf"
  using assms
proof (induction vs arbitrary: s c)
  case (Cons v vs)
  note [simp] = Cons.prems(1-4)
  let ?r = "eddy_read v s"
  have fin: "\<not> ff_eddy_pin_state (fold eddy_read vs ?r)"
    using Cons.prems(5) by simp
  show ?case
  proof (cases "ff_eddy_value_bad v")
    case True
    then have "?r = upd_edy (with_value v) s"
      by (simp add: read_bad)
    then show ?thesis
      using Cons.IH [of ?r c] fin True by simp
  next
    case valid: False
    show ?thesis
    proof (cases "reaches (with_value v (edy s))")
      case True
      note ab = above_state [of "upd_edy (\<lambda>x. eddy_measure (with_value v x)) s"]
      have r: "\<not> ff_eddy_hard_trigger (edy ?r)" "unat (ff_eddy_trig_count (edy ?r)) = c + 1" "ff_eddy_pin_state ?r = (c < 3)"
        using ab read_reaches [of s v] valid True by simp_all
      have app: "replicate c True @ reached (v # vs) s = replicate (c + 1) True @ reached vs ?r"
        using valid True by (simp add: replicate_app_Cons_same)
      show ?thesis
      proof (cases "c < 3")
        case True
        then show ?thesis
          using Cons.IH [of ?r "c + 1"] r fin unfolding app by simp
      next
        case False
        then have "c = 3"
          using Cons.prems(4) by linarith
        then have "replicate (c + 1) True = [True, True, True, True]"
          by (simp add: numeral_eq_Suc)
        then show ?thesis
          unfolding app by (metis append_Nil append_assoc)
      qed
    next
      case False
      have "\<exists>pre suf. replicate 0 True @ reached vs ?r = pre @ [True, True, True, True] @ suf"
        using Cons.IH [of ?r 0] read_not_reaches [of s v] valid False fin by simp
      then obtain pre suf where "reached vs ?r = pre @ [True, True, True, True] @ suf"
        by auto
      then have "replicate c True @ reached (v # vs) s = (replicate c True @ [False] @ pre) @ [True, True, True, True] @ suf"
        using valid False by simp
      then show ?thesis by blast
    qed
  qed
qed simp

section \<open>Detection latency\<close>

lemma above_frame [simp]:
  "ff_eddy_threshold (edy (eddy_above s)) = ff_eddy_threshold (edy s)" "ff_eddy_baseline (edy (eddy_above s)) = ff_eddy_baseline (edy s)"
  "ff_eddy_trig_acc (edy (eddy_above s)) = ff_eddy_trig_acc (edy s)" "ff_eddy_hard_trigger (edy (eddy_above s)) = ff_eddy_hard_trigger (edy s)"
  by (simp_all add: eddy_above_def Let_def)

lemma below_frame [simp]:
  "ff_eddy_threshold (edy (eddy_below s)) = ff_eddy_threshold (edy s)" "ff_eddy_baseline (edy (eddy_below s)) = ff_eddy_baseline (edy s)"
  "ff_eddy_trig_acc (edy (eddy_below s)) = ff_eddy_trig_acc (edy s)" "ff_eddy_hard_trigger (edy (eddy_below s)) = ff_eddy_hard_trigger (edy s)"
  by (simp_all add: eddy_below_def Let_def)

text \<open>A sensor whose reading stays at \<open>v\<close>: threshold, baseline and deviation are fixed.\<close>

definition steady :: "u32 \<Rightarrow> int \<Rightarrow> int \<Rightarrow> 'z eddy_scheme \<Rightarrow> bool" where
  "steady v d thr s \<longleftrightarrow> eddy_ok (edy s) \<and> \<not> ff_eddy_hard_trigger (edy s) \<and>
     uint (eddy_dev (with_value v (edy s))) = d \<and> sint (ff_eddy_threshold (edy s)) = thr"

lemma with_value_ok [simp]: "eddy_ok (with_value v x) = eddy_ok x"
  by (simp add: eddy_ok_def)

lemma read_acc:
  assumes "steady v d thr s" "\<not> ff_eddy_value_bad v"
  shows "ff_eddy_trig_acc (edy (eddy_read v s)) = eddy_filter (eddy_dev (with_value v (edy s))) (ff_eddy_trig_acc (edy s))"
    and "ff_eddy_baseline (edy (eddy_read v s)) = ff_eddy_baseline (edy s)"
    and "ff_eddy_threshold (edy (eddy_read v s)) = ff_eddy_threshold (edy s)"
    and "\<not> ff_eddy_hard_trigger (edy (eddy_read v s))"
  using assms by (simp_all add: steady_def eddy_read_def ff_eddy_check_trigger_def Let_def)

lemma read_steady:
  assumes "steady v d thr s" "\<not> ff_eddy_value_bad v"
  shows "steady v d thr (eddy_read v s)"
proof -
  have "eddy_ok (edy (eddy_read v s))"
    unfolding eddy_read_def using assms by (intro check_trigger_ok) (simp add: steady_def)
  then show ?thesis
    using assms read_acc [OF assms] by (simp add: steady_def eddy_dev_def)
qed

text \<open>The distance of the accumulator from its limit shrinks by a quarter, up to rounding.\<close>

definition err :: "int \<Rightarrow> 'z eddy_scheme \<Rightarrow> int" where
  "err d s = 16 * d - sint (ff_eddy_trig_acc (edy s))"

lemma read_err:
  assumes "steady v d thr s" "\<not> ff_eddy_value_bad v"
  shows "err d (eddy_read v s) = err d s - err d s div 4"
proof -
  have "sint (eddy_filter (eddy_dev (with_value v (edy s))) (ff_eddy_trig_acc (edy s))) =
      sint (ff_eddy_trig_acc (edy s)) + (16 * d - sint (ff_eddy_trig_acc (edy s))) div 4"
    by (subst eddy_filter_sint) (use assms(1) in \<open>auto simp: steady_def eddy_ok_def eddy_dev_def unat_ucast_u16\<close>)
  then show ?thesis
    using read_acc(1) [OF assms] by (simp add: err_def)
qed

lemma iterate_steady:
  assumes "steady v d thr s" "\<not> ff_eddy_value_bad v"
  shows "steady v d thr ((eddy_read v ^^ n) s)"
  by (induction n) (use assms in \<open>simp_all add: read_steady\<close>)

lemma quarter: "4 * (e - e div 4 - 3) \<le> 3 * (e - 3)" "e \<le> 16 \<Longrightarrow> e - e div 4 \<le> 16" for e :: int
  by presburger+

lemma funpow_plus_Suc: "(f ^^ (m + Suc n)) s = f ((f ^^ (m + n)) s)"
  by simp

lemma err_shrinks:
  assumes "steady v d thr s" "\<not> ff_eddy_value_bad v"
  shows "4 ^ n * (err d ((eddy_read v ^^ n) s) - 3) \<le> 3 ^ n * (err d s - 3)"
proof (induction n)
  case (Suc n)
  let ?t = "(eddy_read v ^^ n) s"
  have "4 * (err d (eddy_read v ?t) - 3) \<le> 3 * (err d ?t - 3)"
    using read_err [OF iterate_steady [OF assms] assms(2), of n] quarter(1) [of "err d ?t"] by simp
  then have "4 ^ n * (4 * (err d (eddy_read v ?t) - 3)) \<le> 4 ^ n * (3 * (err d ?t - 3))"
    by (intro mult_left_mono) simp_all
  also have "\<dots> = 3 * (4 ^ n * (err d ?t - 3))"
    by (rule mult.left_commute)
  also have "\<dots> \<le> 3 * (3 ^ n * (err d s - 3))"
    using Suc by (intro mult_left_mono) simp_all
  finally show ?case by (simp add: algebra_simps)
qed simp

lemma close_after_40:
  assumes "steady v d thr s" "\<not> ff_eddy_value_bad v"
  shows "err d ((eddy_read v ^^ (40 + n)) s) \<le> 16"
proof (induction n)
  case 0
  have "d \<le> 65535" "0 \<le> sint (ff_eddy_trig_acc (edy s))"
    using assms(1) unat_ucast_u16(2) by (auto simp: steady_def eddy_dev_def eddy_ok_def)
  then have "err d s \<le> 1048560"
    by (simp add: err_def)
  then show ?case
    using err_shrinks [OF assms, of 40] by simp
next
  case (Suc n)
  then show ?case
    unfolding funpow_plus_Suc using read_err [OF iterate_steady [OF assms] assms(2), of "40 + n"] quarter(2) by simp
qed

lemma close_reaches:
  assumes "steady v d thr s" "\<not> ff_eddy_value_bad v" "err d s \<le> 16" "thr < d"
  shows "reaches (with_value v (edy s))"
proof -
  have "eddy_level (with_value v (edy s)) = (16 * d - (err d s - err d s div 4)) div 16"
    by (subst eddy_level_acc) (use assms in \<open>auto simp: steady_def eddy_ok_def err_def algebra_simps\<close>)
  moreover have "thr \<le> (16 * d - (err d s - err d s div 4)) div 16"
    using assms(3,4) by linarith
  ultimately show ?thesis
    using assms(1) by (simp add: reaches_def steady_def)
qed

text \<open>Reading after reading that reaches the threshold brings the counter to its limit.\<close>

lemma read_count:
  assumes "steady v d thr s" "\<not> ff_eddy_value_bad v" "err d s \<le> 16" "thr < d"
    and "min k 4 \<le> unat (ff_eddy_trig_count (edy s))" "4 \<le> k \<longrightarrow> \<not> ff_eddy_pin_state s"
  shows "min (Suc k) 4 \<le> unat (ff_eddy_trig_count (edy (eddy_read v s)))"
    "4 \<le> Suc k \<longrightarrow> \<not> ff_eddy_pin_state (eddy_read v s)"
proof -
  have le: "unat (ff_eddy_trig_count (edy s)) \<le> 4" "\<not> ff_eddy_hard_trigger (edy s)"
    using assms(1) by (simp_all add: steady_def eddy_ok_def)
  have r: "eddy_read v s = eddy_above (upd_edy (\<lambda>x. eddy_measure (with_value v x)) s)"
    using read_reaches [OF le(2) assms(2) close_reaches [OF assms(1-4)]] .
  show "min (Suc k) 4 \<le> unat (ff_eddy_trig_count (edy (eddy_read v s)))"
    "4 \<le> Suc k \<longrightarrow> \<not> ff_eddy_pin_state (eddy_read v s)"
    unfolding r using le assms(5,6) unat_inc_u8 [of "ff_eddy_trig_count (edy s)"]
    by (auto simp: eddy_above_def Let_def debounce_defs word_less_nat_alt min_def split: if_splits)
qed

lemma triggered_after_44:
  assumes "steady v d thr s" "\<not> ff_eddy_value_bad v" "thr < d"
  shows "\<not> ff_eddy_pin_state ((eddy_read v ^^ (44 + n)) s)"
proof -
  have "min k 4 \<le> unat (ff_eddy_trig_count (edy ((eddy_read v ^^ (40 + k)) s))) \<and>
      (4 \<le> k \<longrightarrow> \<not> ff_eddy_pin_state ((eddy_read v ^^ (40 + k)) s))" for k
  proof (induction k)
    case (Suc k)
    then show ?case
      unfolding funpow_plus_Suc using read_count [OF iterate_steady [OF assms(1,2)] assms(2) close_after_40 [OF assms(1,2), of k] assms(3), of k] by simp
  qed simp
  from this [of "4 + n"] show ?thesis
    by (simp add: add.assoc [symmetric])
qed

section \<open>Properties\<close>

text \<open>
  C23. The median of the ring: the hand written insertion sort is a sort, so the value taken from
  the middle of the array is the sixth smallest of the eleven samples.
\<close>

theorem eddy_median_is_median:
  assumes "length ring = FF_EDDY_NSAMP"
  shows "insertion_sort ring = sort ring \<and> ff_eddy_median ring = sort ring ! 5"
  using insertion_sort_sort [OF assms] by (simp add: ff_eddy_median_def FF_EDDY_NSAMP_def)

theorem eddy_median_is_median_witness:
  "ff_eddy_median [19, 13, 17, 11, 15, 21, 12, 18, 20, 14, 16] = 16"
proof -
  have "ff_eddy_median [19, 13, 17, 11, 15, 21, 12, 18, 20, 14, 16] = sort [19, 13, 17, 11, 15, 21, 12, 18, 20, 14, 16] ! 5"
    using eddy_median_is_median [of "[19, 13, 17, 11, 15, 21, 12, 18, 20, 14, 16]"] by (simp add: FF_EDDY_NSAMP_def)
  then show ?thesis by simp
qed

text \<open>
  C24. The integer square root returns the largest number whose square is not above the argument,
  for every argument but the largest 32-bit number.
\<close>

theorem eddy_isqrt_is_root:
  assumes "v \<noteq> 0xffffffff"
  shows "(unat (ff_eddy_isqrt v))\<^sup>2 \<le> unat v \<and> unat v < (unat (ff_eddy_isqrt v) + 1)\<^sup>2"
  by (rule isqrt_spec [OF assms])

theorem eddy_isqrt_is_root_witness:
  "(unat (ff_eddy_isqrt 1000))\<^sup>2 \<le> 1000 \<and> 1000 < (unat (ff_eddy_isqrt 1000) + 1)\<^sup>2"
  using eddy_isqrt_is_root [of 1000] by simp

text \<open>What happens to the probe; \<open>other\<close> stands for the steps of the rest of the firmware.\<close>

inductive eddy_step :: "'z eddy_scheme \<Rightarrow> 'z eddy_scheme \<Rightarrow> bool" where
  capture: "eddy_step s (DMA1_Channel1_IRQHandler txc c s)"
| poll: "ff_eddy_timer_event t s = Ret r s' \<Longrightarrow> eddy_step s s'"
| check: "eddy_step s (ff_eddy_check_trigger s)"
| home: "eddy_step s (ff_eddy_home_reset s)"
| get_basic_param: "eddy_step s (command_get_basic_param args s)"
| remove_peel: "eddy_step s (command_remove_peel args s)"
| set_trigger_threshold: "eddy_step s (command_set_trigger_threshold args s)"
| other: "edy s' = edy s \<Longrightarrow> eddy_step s s'"

lemma edy_sendf [simp]: "edy (command_sendf m s) = edy s"
  by (simp add: command_sendf_def console_sendf_log_def Let_def)

lemma edy_wake [simp]: "edy (sched_wake_task w s) = edy s"
  by (simp add: sched_wake_task_def sched_wake_tasks_def)

lemma eddy_timer_ok:
  assumes "eddy_ok (edy s)" "ff_eddy_timer_event t s = Ret r s'"
  shows "eddy_ok (edy s')"
proof -
  have arm: "eddy_ok (x\<lparr>ff_eddy_armed := a, ff_eddy_sample_ref := p, ff_eddy_dbg_baseline := q\<rparr>) = eddy_ok x" for x a p q
    by (simp add: eddy_ok_def)
  show ?thesis
    using assms(2) eddy_update_ok [OF assms(1)] by (auto simp: ff_eddy_timer_event_def Let_def arm)
qed

lemma eddy_step_ok: "eddy_step s s' \<Longrightarrow> eddy_ok (edy s) \<Longrightarrow> eddy_ok (edy s')"
proof (induction rule: eddy_step.induct)
  case (poll t s r s')
  then show ?case by (auto intro: eddy_timer_ok)
next
  case (check s)
  then show ?case by (rule check_trigger_ok)
qed (simp_all add: eddy_ok_def DMA1_Channel1_IRQHandler_def ff_eddy_home_reset_def command_get_basic_param_def
  ff_eddy_rebaseline_def command_remove_peel_def command_set_trigger_threshold_def Let_def)

lemma eddy_steps_ok: "eddy_step\<^sup>*\<^sup>* s s' \<Longrightarrow> eddy_ok (edy s) \<Longrightarrow> eddy_ok (edy s')"
  by (induction rule: rtranclp_induct) (auto dest: eddy_step_ok)

text \<open>
  C22. Well-formedness of the probe state, kept by every sequence of captures, polls, trigger checks
  and host commands: the ring index is inside the ring, the counters are at most at their limits
  and the filter accumulator is between 0 and 16 * 65535, so no index and no sum leaves its range.
\<close>

theorem eddy_well_formed:
  assumes "edy s = eddy_state_static" "eddy_step\<^sup>*\<^sup>* s s'"
  shows "length (ff_eddy_ring (edy s')) = FF_EDDY_NSAMP \<and> unat (ff_eddy_ring_pos (edy s')) < FF_EDDY_NSAMP \<and>
    unat (ff_eddy_ring_count (edy s')) \<le> FF_EDDY_NSAMP \<and> unat (ff_eddy_trig_count (edy s')) \<le> 4 \<and>
    unat (ff_eddy_untrig_count (edy s')) \<le> 3 \<and> 0 \<le> sint (ff_eddy_trig_acc (edy s')) \<and>
    sint (ff_eddy_trig_acc (edy s')) \<le> 1048560"
  using eddy_steps_ok [OF assms(2)] assms(1) eddy_static_ok by (simp add: eddy_ok_def)

definition eddy_start :: eddy where
  "eddy_start = eddy_static (quiet_env 0) 0 0 ()"

lemma edy_start: "edy eddy_start = eddy_state_static"
  by (simp add: eddy_start_def eddy_static_def steppers_static_def trsyncs_static_def timer_irq_static_def serial_static_def
      command_static_def base_static_def sched_static_def board_static_def)

theorem eddy_well_formed_witness:
  "unat (ff_eddy_ring_pos (edy (ff_eddy_check_trigger (DMA1_Channel1_IRQHandler True 700 eddy_start)))) < FF_EDDY_NSAMP"
proof -
  have "eddy_step\<^sup>*\<^sup>* eddy_start (ff_eddy_check_trigger (DMA1_Channel1_IRQHandler True 700 eddy_start))"
    by (rule rtranclp.rtrancl_into_rtrancl, rule r_into_rtranclp, rule eddy_step.capture, rule eddy_step.check)
  from eddy_well_formed [OF edy_start this] show ?thesis by (elim conjE)
qed

lemma clamp_bounds: "20 \<le> sint (eddy_clamp sd)" "sint (eddy_clamp sd) \<le> 60"
  by (simp_all add: eddy_clamp_def Let_def FF_EDDY_THRESH_MIN_def FF_EDDY_THRESH_MAX_def)

lemma store_threshold: "eddy_store x = (v, x') \<Longrightarrow> ff_eddy_threshold x' = ff_eddy_threshold x"
  by (auto simp: eddy_store_def Let_def split: if_splits)

lemma push_threshold: "ff_eddy_threshold (eddy_push v x) = ff_eddy_threshold x"
  by (simp add: eddy_push_def Let_def)

text \<open>A poll changes the threshold only by a recalibration.\<close>

lemma recalibration:
  assumes "ff_eddy_threshold (edy (ff_eddy_update s)) \<noteq> ff_eddy_threshold (edy s)"
  obtains c mad x where "edy (ff_eddy_update s) = eddy_recalibrate c mad x"
proof -
  obtain v x where st: "eddy_store (edy s) = (v, x)" by fastforce
  define R where "R e \<longleftrightarrow> ff_eddy_threshold e = ff_eddy_threshold (edy s) \<or> (\<exists>c mad x. e = eddy_recalibrate c mad x)" for e
  have rec: "R (eddy_recalibrate c mad x)" for c mad x
    by (auto simp: R_def)
  obtain y where y: "eddy_push v x = y" "ff_eddy_threshold y = ff_eddy_threshold (edy s)"
    using push_threshold store_threshold [OF st] by simp
  then have keep: "R y" "R (y\<lparr>ff_eddy_filter_acc := a, ff_eddy_have_filter := h, ff_eddy_quiet_start_ms := q\<rparr>)"
    "R (y\<lparr>ff_eddy_filter_acc := a, ff_eddy_mad := m\<rparr>)"
    "R (y\<lparr>ff_eddy_filter_acc := a, ff_eddy_mad := m, ff_eddy_quiet_start_ms := q\<rparr>)" for a h q m
    by (simp_all add: R_def)
  have "R (edy s)"
    by (simp add: R_def)
  then have "R (edy (ff_eddy_update s))"
    using rec keep by (simp add: ff_eddy_update_def st y(1) Let_def ff_eddy_now_ms_def timer_read_time_def tick_def)
  then show ?thesis
    using assms that by (auto simp: R_def)
qed

text \<open>A probe with a full, constant ring, three seconds after it became quiet.\<close>

definition quiet_probe :: eddy where
  "quiet_probe = (eddy_static (quiet_env 384000000) 0 0 ())\<lparr>edy := eddy_state_static\<lparr>ff_eddy_sample_ready := 1,
     ff_eddy_sample := 700, ff_eddy_ring := replicate FF_EDDY_NSAMP 700, ff_eddy_ring_count := 11,
     ff_eddy_have_filter := 1, ff_eddy_filter_acc := 2800, ff_eddy_quiet_start_ms := 1\<rparr>\<rparr>"

text \<open>
  Automatic calibration never sets an unusable threshold: whenever a poll changes the
  threshold, the new one is between 20 and 60, the reference is the new baseline and the ring starts
  empty.
\<close>

theorem eddy_threshold_bounds:
  assumes "ff_eddy_threshold (edy (ff_eddy_update s)) \<noteq> ff_eddy_threshold (edy s)"
  shows "20 \<le> sint (ff_eddy_threshold (edy (ff_eddy_update s))) \<and> sint (ff_eddy_threshold (edy (ff_eddy_update s))) \<le> 60 \<and>
    ff_eddy_sample_ref (edy (ff_eddy_update s)) = ff_eddy_baseline (edy (ff_eddy_update s)) \<and>
    ff_eddy_ring_count (edy (ff_eddy_update s)) = 0 \<and> ff_eddy_calibrated (edy (ff_eddy_update s)) = 1"
proof -
  obtain c mad x where e: "edy (ff_eddy_update s) = eddy_recalibrate c mad x"
    using assms by (rule recalibration)
  show ?thesis
    unfolding e using clamp_bounds by (simp add: eddy_recalibrate_def Let_def)
qed

lemma quiet_ring: "insertion_sort (replicate FF_EDDY_NSAMP c) = replicate FF_EDDY_NSAMP c"
  using insertion_sort_sort [of "replicate FF_EDDY_NSAMP c"] by (simp add: sorted_sort_id sorted_replicate)

lemma quiet_sigma: "eddy_sigma 700 0 (replicate FF_EDDY_NSAMP 700) = 1"
proof -
  have "fold (\<lambda>i acc. let d = replicate FF_EDDY_NSAMP 700 ! i - 700 in acc + (scast (d * d :: u32) :: u64)) [0..<FF_EDDY_NSAMP] 0 = 0"
    by (simp add: FF_EDDY_NSAMP_def numeral_eq_Suc)
  then show ?thesis
    by (simp add: eddy_sigma_def ff_eddy_isqrt_def)
qed

lemma quiet_probe_sel:
  "ff_eddy_threshold (edy quiet_probe) = 25" "eddy_store (edy quiet_probe) = (700, edy quiet_probe)"
  "env_at quiet_probe = quiet_env 384000000" "ff_eddy_sample_ready (edy quiet_probe) \<noteq> 0"
  by (simp_all add: quiet_probe_def eddy_state_static_def eddy_store_def eddy_static_def steppers_static_def trsyncs_static_def
      timer_irq_static_def serial_static_def command_static_def base_static_def sched_static_def board_static_def)

lemma quiet_probe_push:
  "eddy_push 700 (edy quiet_probe) = (edy quiet_probe)\<lparr>ff_eddy_sample_ready := 0, ff_eddy_ring_pos := 1\<rparr>"
proof -
  have "(replicate FF_EDDY_NSAMP (700 :: u32))[0 := 700] = replicate FF_EDDY_NSAMP 700"
    by (rule nth_equalityI) (auto simp: nth_list_update)
  then show ?thesis
    by (simp add: eddy_push_def quiet_probe_def eddy_state_static_def FF_EDDY_NSAMP_def Let_def)
qed

lemma quiet_probe_update: "ff_eddy_threshold (edy (ff_eddy_update quiet_probe)) = 20"
proof -
  let ?r = "replicate FF_EDDY_NSAMP (700 :: u32)"
  have med: "ff_eddy_median ?r = 700" "eddy_mad_of 700 ?r = 0"
    by (simp_all add: ff_eddy_median_def eddy_mad_of_def quiet_ring dist_def map_replicate) (simp_all add: FF_EDDY_NSAMP_def)
  have sel: "ff_eddy_ring (edy quiet_probe) = ?r" "ff_eddy_have_filter (edy quiet_probe) = 1"
    "ff_eddy_quiet_start_ms (edy quiet_probe) = 1" "ff_eddy_mad_limit (edy quiet_probe) = 2"
    by (simp_all add: quiet_probe_def eddy_state_static_def)
  have now: "ff_eddy_now_ms (quiet_probe\<lparr>edy := e\<rparr>) = (3000, tick (quiet_probe\<lparr>edy := e\<rparr>))" for e
    by (simp add: ff_eddy_now_ms_def timer_read_time_def quiet_probe_sel(3) quiet_env_def CONFIG_CLOCK_FREQ_def sample_def)
  show ?thesis
    by (simp add: ff_eddy_update_def quiet_probe_sel quiet_probe_push sel med now tick_def FF_EDDY_QUIET_MS_def)
      (simp add: eddy_recalibrate_def eddy_scrub_def quiet_sigma sel eddy_clamp_def FF_EDDY_THRESH_MIN_def
        FF_EDDY_THRESH_MAX_def Let_def)
qed

theorem eddy_threshold_bounds_witness:
  "20 \<le> sint (ff_eddy_threshold (edy (ff_eddy_update quiet_probe)))"
  using eddy_threshold_bounds [of quiet_probe] quiet_probe_update quiet_probe_sel(1) by simp





end
