(* ===== verification/Endstop.thy ===== *)
theory Endstop
  imports Eddy
begin

text \<open>
  \<^verbatim>\<open>src/klipper/src/endstop.c\<close>: sampling of an endstop pin during homing. The timer of an endstop
  at address \<open>a\<close> is \<open>MemT a\<close>. An access through a null \<open>ts\<close> or a null encoder is a \<open>Fault\<close>.
\<close>

section \<open>State\<close>

record endstop =
  es_pin :: gpio_pin
  rest_time :: u32
  sample_time :: u32
  es_nextwake :: u32
  es_ts :: "nat option"
  es_flags :: u8
  sample_count :: u8
  trigger_count :: u8
  es_trigger_reason :: u8

record endstops = eddy +
  ends :: "nat \<Rightarrow> endstop"

definition ESF_PIN_HIGH :: u8 where "ESF_PIN_HIGH = 1"
definition ESF_HOMING :: u8 where "ESF_HOMING = 2"

definition endstop_zero :: endstop where
  "endstop_zero = \<lparr>es_pin = no_pin, rest_time = 0, sample_time = 0, es_nextwake = 0, es_ts = None,
     es_flags = 0, sample_count = 0, trigger_count = 0, es_trigger_reason = 0\<rparr>"

definition endstops_static :: "(nat \<Rightarrow> env) \<Rightarrow> nat \<Rightarrow> nat \<Rightarrow> 'z \<Rightarrow> 'z endstops_scheme" where
  "endstops_static ev start end m = eddy_static ev start end (endstops_ext (\<lambda>_. endstop_zero) m)"

abbreviation upd_es :: "nat \<Rightarrow> (endstop \<Rightarrow> endstop) \<Rightarrow> 'z endstops_scheme \<Rightarrow> 'z endstops_scheme" where
  "upd_es a f s \<equiv> s\<lparr>ends := upd (ends s) a f\<rparr>"

section \<open>Timer callbacks\<close>

text \<open>\<open>(val ? ~flags : flags) & ESF_PIN_HIGH\<close>: the pin does not have the level that triggers.\<close>

definition endstop_mismatch :: "bool \<Rightarrow> u8 \<Rightarrow> bool" where
  "endstop_mismatch val flags \<longleftrightarrow> has (if val then NOT flags else flags) ESF_PIN_HIGH"

definition endstop_oversample_event :: "nat \<Rightarrow> 'z endstops_scheme \<Rightarrow> (sf, 'z endstops_scheme) res" where
  "endstop_oversample_event a s =
     (let (val, s) = gpio_in_read (es_pin (ends s a)) s
      in if endstop_mismatch val (es_flags (ends s a))
         then let s = set_func (MemT a) F_endstop_event s;
                  s = set_waketime (MemT a) (es_nextwake (ends s a)) s;
                  s = upd_es a (\<lambda>x. x\<lparr>trigger_count := sample_count x\<rparr>) s
              in Ret SF_RESCHEDULE s
         else let count = trigger_count (ends s a) - 1
              in if count = 0
                 then case es_ts (ends s a) of
                        None \<Rightarrow> Fault
                      | Some ts \<Rightarrow> bind (trsync_do_trigger trsync_call ts (es_trigger_reason (ends s a)) s)
                                     (\<lambda>_ s. Ret SF_DONE s)
                 else let s = upd_es a (\<lambda>x. x\<lparr>trigger_count := count\<rparr>) s;
                          s = set_waketime (MemT a) (waketime_of s (MemT a) + sample_time (ends s a)) s
                      in Ret SF_RESCHEDULE s)"

definition endstop_event :: "nat \<Rightarrow> 'z endstops_scheme \<Rightarrow> (sf, 'z endstops_scheme) res" where
  "endstop_event a s =
     (let (val, s) = gpio_in_read (es_pin (ends s a)) s;
          nextwake = waketime_of s (MemT a) + rest_time (ends s a)
      in if endstop_mismatch val (es_flags (ends s a))
         then Ret SF_RESCHEDULE (set_waketime (MemT a) nextwake s)
         else let s = upd_es a (\<lambda>x. x\<lparr>es_nextwake := nextwake\<rparr>) s;
                  s = set_func (MemT a) F_endstop_oversample_event s
              in endstop_oversample_event a s)"

section \<open>Commands\<close>

definition command_config_endstop :: "u32 list \<Rightarrow> 'z endstops_scheme \<Rightarrow> (unit, 'z endstops_scheme) res" where
  "command_config_endstop args s =
     bind (oid_alloc (ucast (args ! 0)) T_config_endstop 40 s) (\<lambda>a s.
       let s = upd_es a (\<lambda>_. endstop_zero) (s\<lparr>timers := (timers s)(MemT a := timer_zero)\<rparr>)
       in bind (gpio_in_setup (args ! 1) (args ! 2) s) (\<lambda>g s. Ret () (upd_es a (\<lambda>x. x\<lparr>es_pin := g\<rparr>) s)))"

definition command_endstop_home :: "u32 list \<Rightarrow> 'z endstops_scheme \<Rightarrow> (unit, 'z endstops_scheme) res" where
  "command_endstop_home args s =
     bind (oid_lookup (ucast (args ! 0)) T_config_endstop s) (\<lambda>a s.
     bind (sched_del_timer (MemT a) s) (\<lambda>_ s.
       let s = set_waketime (MemT a) (args ! 1) s;
           s = upd_es a (\<lambda>x. x\<lparr>sample_time := args ! 2, sample_count := ucast (args ! 3)\<rparr>) s
       in if sample_count (ends s a) = 0
          then let s = upd_es a (\<lambda>x. x\<lparr>es_flags := 0\<rparr>) s;
                   s = s\<lparr>ff_endstop_active := 0\<rparr>;
                   s = upd_es a (\<lambda>x. x\<lparr>es_ts := None\<rparr>) s
               in Ret () (s\<lparr>ff_eddy_pin_state := True\<rparr>)
          else let s = ff_eddy_home_reset s;
                   s = s\<lparr>ff_endstop_active := 1\<rparr>;
                   s = set_func (MemT a) F_endstop_event s;
                   s = upd_es a (\<lambda>x. x\<lparr>rest_time := args ! 4, trigger_count := sample_count x,
                         es_flags := ESF_HOMING OR (if args ! 5 \<noteq> 0 then ESF_PIN_HIGH else 0)\<rparr>) s
               in bind (trsync_oid_lookup (ucast (args ! 6)) s) (\<lambda>ts s.
                  let s = upd_es a (\<lambda>x. x\<lparr>es_ts := Some ts, es_trigger_reason := ucast (args ! 7)\<rparr>) s
                  in sched_add_timer (MemT a) FF_TIMER_ENDSTOP_HOME s)))"

definition command_endstop_query_state :: "u32 list \<Rightarrow> 'z endstops_scheme \<Rightarrow> (unit, 'z endstops_scheme) res" where
  "command_endstop_query_state args s =
     (let s = s\<lparr>ff_endstop_active := 1\<rparr>;
          oid = ucast (args ! 0) :: u8
      in bind (oid_lookup oid T_config_endstop s) (\<lambda>a s.
           let nextwake = es_nextwake (ends s a);
               eflags = es_flags (ends s a);
               (val, s) = gpio_in_read (es_pin (ends s a)) s;
               s = sendf ''endstop_state oid=%c homing=%c next_clock=%u pin_value=%c''
                     [U (ucast oid), U (c_bool (has eflags ESF_HOMING)), U nextwake, U (c_bool val)] s
           in Ret () (s\<lparr>ff_endstop_active := 0\<rparr>)))"

text \<open>
  \<open>ctr_lookup_encoder\<close> searches the generated list of messages. \<open>enc\<close> tells whether the message
  is in that list; if not, \<open>command_sendf\<close> reads \<open>max_size\<close> through a null pointer, unless it
  drops the message before.
\<close>

definition command_endstop_recover_state ::
  "bool \<Rightarrow> u32 list \<Rightarrow> 'z endstops_scheme \<Rightarrow> (unit, 'z endstops_scheme) res" where
  "command_endstop_recover_state enc args s =
     (let oid = ucast (args ! 0) :: u8 in
      bind (oid_lookup oid T_config_endstop s) (\<lambda>a s.
      bind (sched_del_timer (MemT a) s) (\<lambda>_ s.
        let s = upd_es a (\<lambda>x. x\<lparr>trigger_count := sample_count x, es_ts := None, es_flags := 0\<rparr>) s;
            s = s\<lparr>ff_endstop_active := 0\<rparr>;
            s = ff_eddy_home_reset s
        in if \<not> enc \<and> in_sendf s = 0 then Fault
           else Ret () (sendf ''endstop_recover_state oid=%c ok=%c'' [U (ucast oid), U 1] s))))"

end
