(* ===== verification/Stepper_Spec.thy ===== *)
theory Stepper_Spec
  imports Stepper Basecmd_Spec
begin

text \<open>
  Properties of the steppers and of trigger synchronisation: a stepper makes exactly the steps that
  were queued, at the requested times, and reports its position after each; a trigger stops every
  registered stepper once, without losing its position or a move.
\<close>

section \<open>Step pulses\<close>

text \<open>
  What the host asks for, as a list of pulses (time, position): a move makes \<open>count\<close> steps, the
  first one \<open>interval\<close> ticks after the last step before, and every further distance is longer by \<open>add\<close>.
\<close>

primrec pulses :: "u32 \<Rightarrow> u32 \<Rightarrow> u32 \<Rightarrow> u32 \<Rightarrow> u32 \<Rightarrow> nat \<Rightarrow> (u32 \<times> u32) list" where
  "pulses t i d x dx 0 = []"
| "pulses t i d x dx (Suc n) = (t, x + dx) # pulses (t + i) (i + d) d (x + dx) dx n"

abbreviation step_of :: "bool \<Rightarrow> u32" where
  "step_of up \<equiv> (if up then 1 else - 1)"

definition move_pulses :: "u32 \<Rightarrow> bool \<Rightarrow> u32 \<Rightarrow> stepper_move \<Rightarrow> (u32 \<times> u32) list" where
  "move_pulses t up x m = pulses (t + m_interval m) (m_interval m + scast (m_add m)) (scast (m_add m)) x (step_of up)
     (unat (m_count m))"

primrec queue_pulses :: "u32 \<Rightarrow> bool \<Rightarrow> u32 \<Rightarrow> stepper_move list \<Rightarrow> (u32 \<times> u32) list" where
  "queue_pulses t up x [] = []"
| "queue_pulses t up x (m # ms) =
     (let up = (up \<noteq> has (m_flags m) MF_DIR); ps = move_pulses t up x m
      in ps @ queue_pulses (fst (last ps)) up (snd (last ps)) ms)"

text \<open>The closed form of a pulse time.\<close>

lemma length_pulses [simp]: "length (pulses t i d x dx n) = n"
  by (induction n arbitrary: t i x) simp_all

lemma pulses_nth:
  "k < n \<Longrightarrow> pulses t i d x dx n ! k = (t + of_nat k * i + of_nat (k * (k - 1) div 2) * d, x + of_nat (Suc k) * dx)"
proof (induction n arbitrary: t i x k)
  case (Suc n)
  show ?case
  proof (cases k)
    case (Suc j)
    have "Suc j * j div 2 = j * (j - 1) div 2 + j"
      by (cases j) (simp_all add: algebra_simps)
    then show ?thesis
      using Suc.IH [of j "t + i" "i + d" "x + dx"] Suc.prems Suc by (simp add: algebra_simps)
  qed simp
qed simp

text \<open>
  What the stepper does: its timer events until it has no work, with the time of each event and the
  position that it would report after it.
\<close>

primrec play :: "nat \<Rightarrow> nat \<Rightarrow> 'z steppers_scheme \<Rightarrow> ((u32 \<times> u32) list \<times> 'z steppers_scheme) option" where
  "play 0 a s = None"
| "play (Suc n) a s =
     (case stepper_event_edge a s of
        Ret r s' \<Rightarrow>
          let p = (waketime_of s (MemT a), stepper_get_position (stp_of s' a))
          in if r = SF_DONE then Some ([p], s') else map_option (\<lambda>(ps, s''). (p # ps, s'')) (play n a s')
      | _ \<Rightarrow> None)"

text \<open>The sign of \<open>position - count\<close> is the direction; its magnitude is the position.\<close>

abbreviation signed_pos :: "bool \<Rightarrow> u32 \<Rightarrow> u32" where
  "signed_pos up x \<equiv> (if up then x else - x)"

definition pos_ok :: "u32 \<Rightarrow> bool" where
  "pos_ok x \<longleftrightarrow> 0 < unat x \<and> unat x < 0x80000000"

lemma get_position_coded:
  assumes "has (st_flags x) SF_SINGLE_SCHED" "position x - st_count x = signed_pos up p" "pos_ok p"
  shows "stepper_get_position x = p"
proof -
  have "unat (- p) = 0x100000000 - unat p"
    using assms(3) unat_word_diff [of 0 p] by (simp add: pos_ok_def)
  then show ?thesis
    using assms by (auto simp: stepper_get_position_def has_top pos_ok_def Let_def)
qed
text \<open>A step event in the middle of a move, and loading the next move.\<close>

definition same_queue :: "nat \<Rightarrow> 'z steppers_scheme \<Rightarrow> 'z steppers_scheme \<Rightarrow> bool" where
  "same_queue a s s' \<longleftrightarrow> st_mq (stp_of s' a) = st_mq (stp_of s a) \<and> mnext s' = mnext s \<and> smoves (stp s') = smoves (stp s) \<and>
     st_flags (stp_of s' a) = st_flags (stp_of s a)"

lemma toggle_frame [simp]:
  "stp (gpio_out_toggle_noirq g s) = stp s" "timers (gpio_out_toggle_noirq g s) = timers s"
  "mnext (gpio_out_toggle_noirq g s) = mnext s" "move_free_list (gpio_out_toggle_noirq g s) = move_free_list s"
  by (simp_all add: gpio_out_toggle_noirq_def write_module_def Let_def)

lemma edge_inside:
  assumes "st_count (stp_of s a) - 1 \<noteq> 0"
  obtains s' where "stepper_event_edge a s = Ret SF_RESCHEDULE s'" "same_queue a s s'"
    "waketime_of s' (MemT a) = waketime_of s (MemT a) + st_interval (stp_of s a)"
    "st_interval (stp_of s' a) = st_interval (stp_of s a) + scast (st_add (stp_of s a))"
    "st_add (stp_of s' a) = st_add (stp_of s a)" "st_count (stp_of s' a) = st_count (stp_of s a) - 1"
    "position (stp_of s' a) = position (stp_of s a)"
  using assms that by (simp add: stepper_event_edge_def same_queue_def Let_def)

lemma load_more:
  assumes "queue_rep (mnext s) (st_mq (stp_of s a)) (n # ns)" "has (st_flags (stp_of s a)) SF_SINGLE_SCHED"
    and "position (stp_of s a) = signed_pos up x"
  obtains s' where "stepper_load_next a s = Ret SF_RESCHEDULE s'" "queue_rep (mnext s') (st_mq (stp_of s' a)) ns"
    "smoves (stp s') = smoves (stp s)" "st_flags (stp_of s' a) = st_flags (stp_of s a)"
    "waketime_of s' (MemT a) = waketime_of s (MemT a) + m_interval (move_of s n)"
    "st_interval (stp_of s' a) = m_interval (move_of s n) + scast (m_add (move_of s n))"
    "st_add (stp_of s' a) = m_add (move_of s n)" "st_count (stp_of s' a) = ucast (m_count (move_of s n))"
    "position (stp_of s' a) - st_count (stp_of s' a) = signed_pos (up \<noteq> has (m_flags (move_of s n)) MF_DIR) x"
proof -
  obtain mh where pop: "move_queue_pop (st_mq (stp_of s a)) s = Ret (n, mh) s" and mh: "queue_rep (mnext s) mh ns"
    using assms(1) by (rule move_queue_pop_rep)
  have ne: "\<not> move_queue_empty (st_mq (stp_of s a))" and n: "n \<notin> set ns"
    using assms(1) by (auto simp: move_queue_empty_def queue_rep_def)
  show ?thesis
    using that assms(2,3) mh n by (simp add: stepper_load_next_def ne pop Let_def move_free_def)
qed

lemma load_none:
  assumes "queue_rep (mnext s) (st_mq (stp_of s a)) []"
  shows "stepper_load_next a s = Ret SF_DONE (upd_stp a (\<lambda>x. x\<lparr>st_count := 0\<rparr>) s)"
  using assms queue_rep_empty by (auto simp: stepper_load_next_def move_queue_empty_def)


text \<open>
  \<open>plan\<close>: the pulses still to come when \<open>c\<close> steps of the current move remain; \<open>working\<close>: the
  stepper is at such a point.
\<close>

definition plan :: "nat \<Rightarrow> bool \<Rightarrow> u32 \<Rightarrow> nat \<Rightarrow> nat list \<Rightarrow> 'z steppers_scheme \<Rightarrow> (u32 \<times> u32) list" where
  "plan a up x c ns s =
     (let ps = pulses (waketime_of s (MemT a)) (st_interval (stp_of s a)) (scast (st_add (stp_of s a))) x (step_of up) c
      in ps @ queue_pulses (fst (last ps)) up (snd (last ps)) (map (move_of s) ns))"

definition working :: "nat \<Rightarrow> bool \<Rightarrow> u32 \<Rightarrow> nat \<Rightarrow> nat list \<Rightarrow> 'z steppers_scheme \<Rightarrow> bool" where
  "working a up x c ns s \<longleftrightarrow> queue_rep (mnext s) (st_mq (stp_of s a)) ns \<and> has (st_flags (stp_of s a)) SF_SINGLE_SCHED \<and>
     unat (st_count (stp_of s a)) = c \<and> position (stp_of s a) - st_count (stp_of s a) = signed_pos up x \<and>
     (\<forall>n \<in> set ns. m_count (move_of s n) \<noteq> 0)"

lemma signed_pos_step: "signed_pos up x + 1 = signed_pos up (x + step_of up)"
  by simp

lemma working_inside:
  assumes "working a up x (Suc (Suc c)) ns s" "pos_ok (x + step_of up)"
  obtains s' where "stepper_event_edge a s = Ret SF_RESCHEDULE s'" "working a up (x + step_of up) (Suc c) ns s'"
    "plan a up x (Suc (Suc c)) ns s = (waketime_of s (MemT a), x + step_of up) # plan a up (x + step_of up) (Suc c) ns s'"
    "stepper_get_position (stp_of s' a) = x + step_of up"
proof -
  have c: "unat (st_count (stp_of s a)) = Suc (Suc c)" "position (stp_of s a) - st_count (stp_of s a) = signed_pos up x"
    using assms(1) by (simp_all add: working_def)
  have d: "unat (st_count (stp_of s a) - 1) = Suc c"
    using c unat_word_diff [of "st_count (stp_of s a)" 1] by simp
  then have "st_count (stp_of s a) - 1 \<noteq> 0"
    by (auto simp del: right_minus_eq)
  then obtain s' where s': "stepper_event_edge a s = Ret SF_RESCHEDULE s'" "same_queue a s s'"
    "waketime_of s' (MemT a) = waketime_of s (MemT a) + st_interval (stp_of s a)"
    "st_interval (stp_of s' a) = st_interval (stp_of s a) + scast (st_add (stp_of s a))"
    "st_add (stp_of s' a) = st_add (stp_of s a)" "st_count (stp_of s' a) = st_count (stp_of s a) - 1"
    "position (stp_of s' a) = position (stp_of s a)"
    by (rule edge_inside)
  have pos: "position (stp_of s' a) - st_count (stp_of s' a) = signed_pos up (x + step_of up)"
    using c(2) signed_pos_step [of up x] by (simp only: s'(6,7)) (simp add: algebra_simps)
  have w: "working a up (x + step_of up) (Suc c) ns s'"
    unfolding working_def pos using assms(1) s'(2,6) d by (simp add: working_def same_queue_def)
  show ?thesis
  proof (rule that [OF s'(1) w])
    show "plan a up x (Suc (Suc c)) ns s = (waketime_of s (MemT a), x + step_of up) # plan a up (x + step_of up) (Suc c) ns s'"
      using s'(2) by (simp add: plan_def s'(3,4,5) same_queue_def Let_def)
    show "stepper_get_position (stp_of s' a) = x + step_of up"
      by (rule get_position_coded [OF _ pos assms(2)]) (use w in \<open>simp add: working_def\<close>)
  qed
qed

lemma working_end:
  assumes "working a up x 1 ns s"
  shows "stepper_event_edge a s = stepper_load_next a (gpio_out_toggle_noirq (step_pin (stp_of s a)) s)"
    "position (stp_of s a) = signed_pos up (x + step_of up)"
proof -
  have one: "st_count (stp_of s a) = 1" and pos: "position (stp_of s a) - st_count (stp_of s a) = signed_pos up x"
    using assms by (auto simp: working_def word_unat_eq_iff)
  show "stepper_event_edge a s = stepper_load_next a (gpio_out_toggle_noirq (step_pin (stp_of s a)) s)"
    by (simp add: stepper_event_edge_def one Let_def)
  show "position (stp_of s a) = signed_pos up (x + step_of up)"
    using pos signed_pos_step [of up x] by (simp only: one) (simp add: algebra_simps)
qed

lemma working_next:
  assumes "working a up x 1 (n # ns) s" "pos_ok (x + step_of up)"
  obtains s' up' c where "stepper_event_edge a s = Ret SF_RESCHEDULE s'" "working a up' (x + step_of up) (Suc c) ns s'"
    "plan a up x 1 (n # ns) s = (waketime_of s (MemT a), x + step_of up) # plan a up' (x + step_of up) (Suc c) ns s'"
    "stepper_get_position (stp_of s' a) = x + step_of up"
proof -
  let ?g = "gpio_out_toggle_noirq (step_pin (stp_of s a)) s"
  have w: "queue_rep (mnext ?g) (st_mq (stp_of ?g a)) (n # ns)" "has (st_flags (stp_of ?g a)) SF_SINGLE_SCHED"
    "position (stp_of ?g a) = signed_pos up (x + step_of up)"
    using assms(1) working_end(2) [OF assms(1)] by (simp_all add: working_def)
  obtain s' where s': "stepper_load_next a ?g = Ret SF_RESCHEDULE s'" "queue_rep (mnext s') (st_mq (stp_of s' a)) ns"
    "smoves (stp s') = smoves (stp ?g)" "st_flags (stp_of s' a) = st_flags (stp_of ?g a)"
    "waketime_of s' (MemT a) = waketime_of ?g (MemT a) + m_interval (move_of ?g n)"
    "st_interval (stp_of s' a) = m_interval (move_of ?g n) + scast (m_add (move_of ?g n))"
    "st_add (stp_of s' a) = m_add (move_of ?g n)" "st_count (stp_of s' a) = ucast (m_count (move_of ?g n))"
    "position (stp_of s' a) - st_count (stp_of s' a) = signed_pos (up \<noteq> has (m_flags (move_of ?g n)) MF_DIR) (x + step_of up)"
    using w by (rule load_more)
  obtain c where c: "unat (m_count (move_of s n)) = Suc c"
    using assms(1) by (cases "unat (m_count (move_of s n))") (auto simp: working_def unat_eq_zero)
  let ?up = "up \<noteq> has (m_flags (move_of s n)) MF_DIR"
  have w': "working a ?up (x + step_of up) (Suc c) ns s'"
    unfolding working_def s'(9) using assms(1) s'(2,3,4,8) c by (simp add: working_def unat_ucast_u16(1))
  show ?thesis
  proof (rule that [OF _ w'])
    show "stepper_event_edge a s = Ret SF_RESCHEDULE s'"
      using working_end(1) [OF assms(1)] s'(1) by simp
    show "plan a up x 1 (n # ns) s = (waketime_of s (MemT a), x + step_of up) # plan a ?up (x + step_of up) (Suc c) ns s'"
      by (simp add: plan_def s'(3,5,6,7) move_pulses_def c Let_def)
    show "stepper_get_position (stp_of s' a) = x + step_of up"
      by (rule get_position_coded [OF _ s'(9) assms(2)]) (use w(2) s'(4) in simp)
  qed
qed

lemma working_done:
  assumes "working a up x 1 [] s" "pos_ok (x + step_of up)"
  obtains s' where "stepper_event_edge a s = Ret SF_DONE s'" "plan a up x 1 [] s = [(waketime_of s (MemT a), x + step_of up)]"
    "stepper_get_position (stp_of s' a) = x + step_of up" "st_count (stp_of s' a) = 0"
proof -
  let ?g = "gpio_out_toggle_noirq (step_pin (stp_of s a)) s"
  let ?s = "upd_stp a (\<lambda>x. x\<lparr>st_count := 0\<rparr>) ?g"
  have "stepper_event_edge a s = Ret SF_DONE ?s"
    using working_end(1) [OF assms(1)] load_none [of ?g a] assms(1) by (simp add: working_def)
  moreover have "stepper_get_position (stp_of ?s a) = x + step_of up"
    by (rule get_position_coded [OF _ _ assms(2), of _ up]) (use assms(1) working_end(2) [OF assms(1)] in \<open>simp_all add: working_def\<close>)
  ultimately show ?thesis
    using that [of ?s] by (simp add: plan_def)
qed

lemma play_plan:
  assumes "working a up x (Suc c) ns s" "\<forall>(t, y) \<in> set (plan a up x (Suc c) ns s). pos_ok y"
  shows "\<exists>s'. play (length (plan a up x (Suc c) ns s)) a s = Some (plan a up x (Suc c) ns s, s') \<and> st_count (stp_of s' a) = 0"
  using assms
proof (induction "length (plan a up x (Suc c) ns s)" arbitrary: up x c ns s rule: less_induct)
  case less
  have p: "pos_ok (x + step_of up)"
    using less.prems(2) by (auto simp: plan_def Let_def)
  have step: ?case if "stepper_event_edge a s = Ret SF_RESCHEDULE s'" "working a up' (x + step_of up) (Suc c') ns' s'"
    "plan a up x (Suc c) ns s = (waketime_of s (MemT a), x + step_of up) # plan a up' (x + step_of up) (Suc c') ns' s'"
    "stepper_get_position (stp_of s' a) = x + step_of up" for s' up' c' ns'
  proof -
    note ev = that
    let ?rest = "plan a up' (x + step_of up) (Suc c') ns' s'"
    have "\<forall>(t, y) \<in> set ?rest. pos_ok y"
      using less.prems(2) unfolding ev(3) by simp
    then obtain s'' where "play (length ?rest) a s' = Some (?rest, s'')" "st_count (stp_of s'' a) = 0"
      using less.hyps [OF _ ev(2)] unfolding ev(3) by auto
    then show ?thesis
      unfolding ev(3) by (simp add: ev(1,4))
  qed
  show ?case
  proof (cases c)
    case (Suc c')
    have "working a up x (Suc (Suc c')) ns s"
      using less.prems(1) Suc by simp
    then obtain s' where "stepper_event_edge a s = Ret SF_RESCHEDULE s'" "working a up (x + step_of up) (Suc c') ns s'"
      "plan a up x (Suc (Suc c')) ns s = (waketime_of s (MemT a), x + step_of up) # plan a up (x + step_of up) (Suc c') ns s'"
      "stepper_get_position (stp_of s' a) = x + step_of up"
      using p by (rule working_inside)
    then show ?thesis
      using step [of s' up c' ns] Suc by simp
  next
    case 0
    then have w: "working a up x 1 ns s"
      using less.prems(1) by simp
    show ?thesis
    proof (cases ns)
      case Nil
      obtain s' where "stepper_event_edge a s = Ret SF_DONE s'" "plan a up x 1 [] s = [(waketime_of s (MemT a), x + step_of up)]"
        "stepper_get_position (stp_of s' a) = x + step_of up" "st_count (stp_of s' a) = 0"
        using w p unfolding Nil by (rule working_done)
      then show ?thesis
        using 0 Nil by simp
    next
      case (Cons n ns')
      obtain s' up' c' where "stepper_event_edge a s = Ret SF_RESCHEDULE s'" "working a up' (x + step_of up) (Suc c') ns' s'"
        "plan a up x 1 (n # ns') s = (waketime_of s (MemT a), x + step_of up) # plan a up' (x + step_of up) (Suc c') ns' s'"
        "stepper_get_position (stp_of s' a) = x + step_of up"
        using w p unfolding Cons by (rule working_next)
      then show ?thesis
        using step [of s' up' c' ns'] 0 Cons by simp
    qed
  qed
qed

section \<open>Stopping\<close>

text \<open>
  Removing timers from the pending ones, as the stop code needs it: \<open>pending s T\<close> says that the
  timer list of \<open>s\<close> is sound and holds the timers \<open>T\<close>, \<open>removable\<close> are the timers that may be
  deleted. The two instances are a command, and a timer callback, whose own timer is at the head of
  the list.
\<close>

locale timer_removal =
  fixes pending :: "'z steppers_scheme \<Rightarrow> tptr set \<Rightarrow> bool"
    and removable :: "tptr \<Rightarrow> bool"
  assumes del: "pending s T \<Longrightarrow> removable u \<Longrightarrow>
      outcome (sched_del_timer u s) (\<lambda>_ s'. sched_only s s' \<and> pending s' (T - {u})) (\<lambda>_ _. False)"
    and park: "pending s T \<Longrightarrow> u \<notin> T \<Longrightarrow> removable u \<Longrightarrow> timers s' = upd (timers s) u (\<lambda>x. x\<lparr>waketime := w\<rparr>) \<Longrightarrow>
      timer_list s' = timer_list s \<Longrightarrow> last_insert s' = last_insert s \<Longrightarrow> pending s' T"
    and keep: "pending s T \<Longrightarrow> timers s' = timers s \<Longrightarrow> timer_list s' = timer_list s \<Longrightarrow> last_insert s' = last_insert s \<Longrightarrow> pending s' T"

lemma position_negated:
  assumes "p = stepper_get_position x" "position y = - p" "st_count y = 0"
  shows "stepper_get_position y = p"
proof -
  have le: "unat p \<le> 0x80000000"
    using assms(1) unat_word_diff [of 0] by (auto simp: stepper_get_position_def has_top Let_def)
  have "stepper_get_position y = (if 0x80000000 \<le> unat (- p) then p else - p)"
    using assms(2,3) by (simp add: stepper_get_position_def has_top)
  also have "\<dots> = p"
    using le unat_word_diff [of 0 p] by (cases "p = 0") (auto simp: unat_eq_zero)
  finally show ?thesis .
qed

text \<open>The loop that frees the queued moves ends and puts all of them on the free list.\<close>

lemma free_moves_all:
  assumes "npath (mnext s) (first (st_mq (stp_of s a))) ns" "npath (mnext s) (move_free_list s) free" "distinct (ns @ free)"
  obtains mh nx fl where "free_moves a s = Some (upd_stp a (\<lambda>x. x\<lparr>st_mq := mh\<rparr>) (s\<lparr>mnext := nx, move_free_list := fl\<rparr>))"
    "first mh = None" "npath nx fl (rev ns @ free)" "\<forall>x. x \<notin> set ns \<longrightarrow> nx x = mnext s x"
  using assms
proof (induction ns arbitrary: s free thesis)
  case Nil
  have "upd_stp a (\<lambda>x. x\<lparr>st_mq := st_mq (stp_of s a)\<rparr>) (s\<lparr>mnext := mnext s, move_free_list := move_free_list s\<rparr>) = s"
    by (simp add: upd_def)
  then show ?case
    by (intro Nil.prems(1) [where mh = "st_mq (stp_of s a)" and nx = "mnext s" and fl = "move_free_list s"])
      (use Nil.prems in \<open>simp_all add: free_moves.simps [of a s]\<close>)
next
  case (Cons n ns)
  let ?s = "move_free n (upd_stp a (\<lambda>x. x\<lparr>st_mq := (st_mq x)\<lparr>first := mnext s n\<rparr>\<rparr>) s)"
  have "npath (mnext ?s) (first (st_mq (stp_of ?s a))) ns" "npath (mnext ?s) (move_free_list ?s) (n # free)" "distinct (ns @ n # free)"
    using Cons.prems by (auto simp: move_free_def)
  then obtain mh nx fl where r: "free_moves a ?s = Some (upd_stp a (\<lambda>x. x\<lparr>st_mq := mh\<rparr>) (?s\<lparr>mnext := nx, move_free_list := fl\<rparr>))"
    "first mh = None" "npath nx fl (rev ns @ n # free)" "\<forall>x. x \<notin> set ns \<longrightarrow> nx x = mnext ?s x"
    by (rule Cons.IH [rotated])
  have "free_moves a s = Some (upd_stp a (\<lambda>x. x\<lparr>st_mq := mh\<rparr>) (s\<lparr>mnext := nx, move_free_list := fl\<rparr>))"
    using Cons.prems(2) r(1) by (simp add: free_moves.simps [of a s] move_free_def upd_def)
  then show ?case
    by (rule Cons.prems(1)) (use r in \<open>auto simp: move_free_def\<close>)
qed

lemma write_frame [simp]:
  "stp (gpio_out_write g v s) = stp s" "timers (gpio_out_write g v s) = timers s" "trs (gpio_out_write g v s) = trs s"
  "mnext (gpio_out_write g v s) = mnext s" "move_free_list (gpio_out_write g v s) = move_free_list s"
  "timer_list (gpio_out_write g v s) = timer_list s" "last_insert (gpio_out_write g v s) = last_insert s"
  by (simp_all add: gpio_out_write_def write_module_def)

text \<open>The state of a stepper after it was stopped.\<close>

definition stopped :: "stepper \<Rightarrow> stepper \<Rightarrow> bool" where
  "stopped x y \<longleftrightarrow> st_count y = 0 \<and> first (st_mq y) = None \<and> has (st_flags y) SF_NEED_RESET \<and>
     stepper_get_position y = stepper_get_position x"

lemma sched_only_sel:
  fixes s s' :: "'z steppers_scheme"
  assumes "sched_only s s'"
  shows "stp s' = stp s" "trs s' = trs s" "mnext s' = mnext s" "move_free_list s' = move_free_list s"
  by (rule sched_only_frame [OF assms], simp)+

text \<open>Stopping without the deletion of the timer and the freeing of the moves.\<close>

definition halted :: "stepper \<Rightarrow> stepper" where
  "halted x = x\<lparr>next_step_time := 0, position := - stepper_get_position x, st_count := 0,
     st_flags := (st_flags x AND (SF_INVERT_STEP OR SF_SINGLE_SCHED)) OR SF_NEED_RESET\<rparr>"

lemma stopped_halted: "first mh = None \<Longrightarrow> stopped x ((halted x)\<lparr>st_mq := mh\<rparr>)"
  using position_negated [of "stepper_get_position x" x "(halted x)\<lparr>st_mq := mh\<rparr>"]
  by (simp add: stopped_def halted_def has_or) (simp add: has_def SF_NEED_RESET_def)

lemma stepper_stop_halts:
  assumes "sched_del_timer (MemT a) s = Ret () s1"
  obtains s2 where "stepper_stop a reason s = (case free_moves a s2 of None \<Rightarrow> Fault | Some s \<Rightarrow> Ret () s)"
    "stp s2 = (stp s1)\<lparr>stps := upd (stps (stp s1)) a halted\<rparr>" "mnext s2 = mnext s1" "move_free_list s2 = move_free_list s1"
    "trs s2 = trs s1" "timers s2 = upd (timers s1) (MemT a) (\<lambda>x. x\<lparr>waketime := 0\<rparr>)" "timer_list s2 = timer_list s1"
    "last_insert s2 = last_insert s1"
proof -
  let ?h = "upd_stp a halted (set_waketime (MemT a) 0 s1)"
  let ?d = "gpio_out_write (dir_pin (stp_of ?h a)) 0 ?h"
  define s2 where "s2 = (if \<not> has (st_flags (stp_of ?d a)) SF_SINGLE_SCHED
      then gpio_out_write (step_pin (stp_of ?d a)) (ucast (st_flags (stp_of ?d a) AND SF_INVERT_STEP)) ?d else ?d)"
  have h: "upd_stp a (\<lambda>x. x\<lparr>st_flags := (st_flags x AND (SF_INVERT_STEP OR SF_SINGLE_SCHED)) OR SF_NEED_RESET\<rparr>)
      (upd_stp a (\<lambda>x. x\<lparr>st_count := 0\<rparr>) (upd_stp a (\<lambda>x. x\<lparr>position := - stepper_get_position x\<rparr>)
        (set_waketime (MemT a) 0 (upd_stp a (\<lambda>x. x\<lparr>next_step_time := 0\<rparr>) s1)))) = ?h"
    by (simp add: halted_def upd_def stepper_get_position_def)
  have stop: "stepper_stop a reason s = (case free_moves a s2 of None \<Rightarrow> Fault | Some s \<Rightarrow> Ret () s)"
    unfolding stepper_stop_def assms bind.simps Let_def h s2_def ..
  show ?thesis
    by (rule that [OF stop]) (simp_all add: s2_def)
qed

context timer_removal
begin

lemma stop_one:
  fixes s :: "'z steppers_scheme"
  assumes "pending s T" "removable (MemT a)" "npath (mnext s) (first (st_mq (stp_of s a))) ns"
    and "npath (mnext s) (move_free_list s) free" "distinct (ns @ free)"
  obtains s' where "stepper_stop a reason s = Ret () s'" "pending s' (T - {MemT a})" "stopped (stp_of s a) (stp_of s' a)"
    "npath (mnext s') (move_free_list s') (rev ns @ free)" "trs s' = trs s" "\<And>b. b \<noteq> a \<Longrightarrow> stp_of s' b = stp_of s b"
    "\<And>x. x \<notin> set ns \<Longrightarrow> mnext s' x = mnext s x"
proof -
  have "outcome (sched_del_timer (MemT a) s) (\<lambda>_ s'. sched_only s s' \<and> pending s' (T - {MemT a})) (\<lambda>_ _. False)"
    using assms(1,2) by (rule del)
  then obtain s1 where s1: "sched_del_timer (MemT a) s = Ret () s1" "sched_only s s1" "pending s1 (T - {MemT a})"
    by (cases "sched_del_timer (MemT a) s") auto
  note eq = sched_only_sel [OF s1(2)]
  obtain s2 where s2: "stepper_stop a reason s = (case free_moves a s2 of None \<Rightarrow> Fault | Some s \<Rightarrow> Ret () s)"
    "stp s2 = (stp s1)\<lparr>stps := upd (stps (stp s1)) a halted\<rparr>" "mnext s2 = mnext s1" "move_free_list s2 = move_free_list s1"
    "trs s2 = trs s1" "timers s2 = upd (timers s1) (MemT a) (\<lambda>x. x\<lparr>waketime := 0\<rparr>)" "timer_list s2 = timer_list s1"
    "last_insert s2 = last_insert s1"
    using s1(1) by (rule stepper_stop_halts)
  have "npath (mnext s2) (first (st_mq (stp_of s2 a))) ns" "npath (mnext s2) (move_free_list s2) free"
    using assms(3,4) by (simp_all add: s2(2,3,4) eq halted_def)
  then obtain mh nx fl where f: "free_moves a s2 = Some (upd_stp a (\<lambda>x. x\<lparr>st_mq := mh\<rparr>) (s2\<lparr>mnext := nx, move_free_list := fl\<rparr>))"
    "first mh = None" "npath nx fl (rev ns @ free)" "\<forall>x. x \<notin> set ns \<longrightarrow> nx x = mnext s2 x"
    using assms(5) by (rule free_moves_all)
  let ?s = "upd_stp a (\<lambda>x. x\<lparr>st_mq := mh\<rparr>) (s2\<lparr>mnext := nx, move_free_list := fl\<rparr>)"
  have "pending s2 (T - {MemT a})"
    by (rule park [OF s1(3) _ assms(2) s2(6-8)]) simp
  then have p: "pending ?s (T - {MemT a})"
    by (rule keep) simp_all
  show ?thesis
  proof (rule that [of ?s])
    show "stopped (stp_of s a) (stp_of ?s a)"
      using stopped_halted [OF f(2)] by (simp add: s2(2) eq)
  qed (use p f s2 eq in simp_all)
qed

end

text \<open>
  The steppers \<open>as\<close> are registered with the trsync object \<open>ts\<close>, and \<open>Q\<close> gives the queued moves of
  each; all moves are distinct from each other and from those on the free list.
\<close>

definition registered :: "nat \<Rightarrow> nat list \<Rightarrow> 'z steppers_scheme \<Rightarrow> bool" where
  "registered ts as s \<longleftrightarrow> npath (\<lambda>a. sig_next (sig_of s a)) (signals (ts_of s ts)) as \<and> distinct as \<and>
     (\<forall>a \<in> set as. sig_func (sig_of s a) = Some CB_stepper_stop)"

definition move_owner :: "nat list \<Rightarrow> (nat \<Rightarrow> nat list) \<Rightarrow> nat list \<Rightarrow> 'z steppers_scheme \<Rightarrow> bool" where
  "move_owner as Q free s \<longleftrightarrow> (\<forall>a \<in> set as. npath (mnext s) (first (st_mq (stp_of s a))) (Q a)) \<and>
     npath (mnext s) (move_free_list s) free \<and> distinct (concat (map Q as) @ free)"

text \<open>The effect of a trigger on the steppers, the pool of moves and the trsync object.\<close>

definition all_stopped :: "nat list \<Rightarrow> (nat \<Rightarrow> nat list) \<Rightarrow> nat list \<Rightarrow> 'z steppers_scheme \<Rightarrow> 'z steppers_scheme \<Rightarrow> bool" where
  "all_stopped as Q free s s' \<longleftrightarrow> (\<forall>a \<in> set as. stopped (stp_of s a) (stp_of s' a)) \<and>
     (\<forall>a. a \<notin> set as \<longrightarrow> stp_of s' a = stp_of s a) \<and>
     (\<exists>free'. npath (mnext s') (move_free_list s') free' \<and> mset free' = mset (concat (map Q as) @ free))"

lemma registered_unlink:
  assumes "registered ts (a # as) s"
    and s': "s' = upd_sig a (\<lambda>x. x\<lparr>sig_next := None, sig_func := None\<rparr>) (upd_ts ts (\<lambda>x. x\<lparr>signals := sig_next (sig_of s a)\<rparr>) s)"
  shows "registered ts as s'"
proof -
  have "(\<lambda>b. sig_next (sig_of s' b)) = (\<lambda>b. sig_next (sig_of s b))(a := None)"
    by (auto simp: s' upd_def)
  then show ?thesis
    using assms by (auto simp: registered_def upd_def)
qed

lemma move_owner_stop:
  assumes "move_owner (a # as) Q free s" "distinct (a # as)" "npath (mnext s') (move_free_list s') (rev (Q a) @ free)"
    and "\<And>b. b \<noteq> a \<Longrightarrow> stp_of s' b = stp_of s b" "\<And>x. x \<notin> set (Q a) \<Longrightarrow> mnext s' x = mnext s x"
  shows "move_owner as Q (rev (Q a) @ free) s'"
proof -
  have "npath (mnext s') (first (st_mq (stp_of s' b))) (Q b)" if b: "b \<in> set as" for b
  proof -
    have "set (Q b) \<inter> set (Q a) = {}"
      using assms(1) b by (auto simp: move_owner_def)
    then have "npath (mnext s') p (Q b) = npath (mnext s) p (Q b)" for p
      using assms(5) by (intro npath_cong) auto
    moreover have "b \<noteq> a"
      using assms(2) b by auto
    ultimately show ?thesis
      using assms(1,4) b by (simp add: move_owner_def)
  qed
  then show ?thesis
    using assms(1,3) by (auto simp: move_owner_def)
qed

context timer_removal
begin

lemma signal_loop_all:
  fixes s :: "'z steppers_scheme"
  assumes "registered ts as s" "move_owner as Q free s" "pending s T" "\<forall>a \<in> set as. removable (MemT a)"
  shows "\<exists>s'. signal_loop trsync_call ts reason s = Some (Ret () s') \<and> pending s' (T - MemT ` set as) \<and>
    all_stopped as Q free s s' \<and> signals (ts_of s' ts) = None \<and> ts_flags (ts_of s' ts) = ts_flags (ts_of s ts) \<and>
    trigger_reason (ts_of s' ts) = trigger_reason (ts_of s ts)"
  using assms
proof (induction as arbitrary: s T free)
  case Nil
  then show ?case
    by (auto simp: signal_loop.simps [of _ ts reason s] registered_def move_owner_def all_stopped_def)
next
  case (Cons a as)
  have sg: "signals (ts_of s ts) = Some a" "sig_func (sig_of s a) = Some CB_stepper_stop" and dist: "distinct (a # as)"
    using Cons.prems(1) by (simp_all add: registered_def)
  define s1 where "s1 = upd_sig a (\<lambda>x. x\<lparr>sig_next := None, sig_func := None\<rparr>) (upd_ts ts (\<lambda>x. x\<lparr>signals := sig_next (sig_of s a)\<rparr>) s)"
  have s1: "stp s1 = stp s" "mnext s1 = mnext s" "move_free_list s1 = move_free_list s" "timers s1 = timers s"
    "timer_list s1 = timer_list s" "last_insert s1 = last_insert s" "ts_flags (ts_of s1 ts) = ts_flags (ts_of s ts)"
    "trigger_reason (ts_of s1 ts) = trigger_reason (ts_of s ts)"
    by (simp_all add: s1_def)
  have reg: "registered ts as s1"
    using Cons.prems(1) s1_def by (rule registered_unlink)
  have own: "move_owner (a # as) Q free s1"
    using Cons.prems(2) by (simp add: move_owner_def s1)
  have pend: "pending s1 T"
    using Cons.prems(3) s1(4-6) by (rule keep)
  obtain s2 where s2: "stepper_stop a reason s1 = Ret () s2" "pending s2 (T - {MemT a})" "stopped (stp_of s1 a) (stp_of s2 a)"
    "npath (mnext s2) (move_free_list s2) (rev (Q a) @ free)" "trs s2 = trs s1" "\<And>b. b \<noteq> a \<Longrightarrow> stp_of s2 b = stp_of s1 b"
    "\<And>x. x \<notin> set (Q a) \<Longrightarrow> mnext s2 x = mnext s1 x"
    by (rule stop_one [OF pend, where a = a and ns = "Q a" and free = free and reason = reason])
      (use Cons.prems(4) own in \<open>auto simp: move_owner_def\<close>)
  have "registered ts as s2"
    using reg by (simp add: registered_def s2(5))
  moreover have "move_owner as Q (rev (Q a) @ free) s2"
    using own dist s2(4,6,7) by (rule move_owner_stop)
  ultimately obtain s' where s': "signal_loop trsync_call ts reason s2 = Some (Ret () s')"
    "pending s' (T - {MemT a} - MemT ` set as)" "all_stopped as Q (rev (Q a) @ free) s2 s'" "signals (ts_of s' ts) = None"
    "ts_flags (ts_of s' ts) = ts_flags (ts_of s2 ts)" "trigger_reason (ts_of s' ts) = trigger_reason (ts_of s2 ts)"
    using Cons.IH [of s2 "rev (Q a) @ free" "T - {MemT a}"] s2(2) Cons.prems(4) by auto
  have "signal_loop trsync_call ts reason s = Some (Ret () s')"
    using sg s2(1) s'(1) by (simp add: signal_loop.simps [of _ ts reason s] s1_def)
  moreover have "stp_of s2 b = stp_of s b" if "b \<in> set as" for b
    using s2(6) [of b] dist that by (auto simp: s1)
  then have "all_stopped (a # as) Q free s s'"
    using s'(3) s2(3,6) dist by (auto simp: all_stopped_def s1)
  moreover have "T - {MemT a} - MemT ` set as = T - MemT ` set (a # as)"
    by auto
  ultimately show ?case
    using s'(2,4,5,6) by (simp add: s2(5) s1)
qed

lemma trigger_stops:
  fixes s :: "'z steppers_scheme"
  assumes "registered ts as s" "move_owner as Q free s" "pending s T" "\<forall>a \<in> set as. removable (MemT a)"
    and "has (ts_flags (ts_of s ts)) TSF_CAN_TRIGGER"
  obtains s' where "trsync_do_trigger trsync_call ts reason s = Ret () s'" "pending s' (T - MemT ` set as)"
    "all_stopped as Q free s s'" "signals (ts_of s' ts) = None" "\<not> has (ts_flags (ts_of s' ts)) TSF_CAN_TRIGGER"
    "has (ts_flags (ts_of s' ts)) TSF_REPORT" "trigger_reason (ts_of s' ts) = reason" "wake s' trsync_wake = 1"
proof -
  let ?f = "(ts_flags (ts_of s ts) AND NOT TSF_CAN_TRIGGER) OR TSF_REPORT"
  let ?s = "upd_ts ts (\<lambda>x. x\<lparr>ts_flags := ?f\<rparr>) (upd_ts ts (\<lambda>x. x\<lparr>trigger_reason := reason\<rparr>) s)"
  have r: "registered ts as ?s" "move_owner as Q free ?s" and p: "pending ?s T"
    using assms(1,2) keep [OF assms(3), of ?s] by (simp_all add: registered_def move_owner_def)
  obtain s1 where s1: "signal_loop trsync_call ts reason ?s = Some (Ret () s1)" "pending s1 (T - MemT ` set as)"
    "all_stopped as Q free ?s s1" "signals (ts_of s1 ts) = None" "ts_flags (ts_of s1 ts) = ?f" "trigger_reason (ts_of s1 ts) = reason"
    using signal_loop_all [OF r p assms(4), of reason] by auto
  let ?w = "sched_wake_task trsync_wake s1"
  have w: "stp ?w = stp s1" "trs ?w = trs s1" "mnext ?w = mnext s1" "move_free_list ?w = move_free_list s1" "timers ?w = timers s1"
    "timer_list ?w = timer_list s1" "last_insert ?w = last_insert s1" "wake ?w trsync_wake = 1"
    by (simp_all add: sched_wake_task_def sched_wake_tasks_def)
  have f: "\<not> has ?f TSF_CAN_TRIGGER" "has ?f TSF_REPORT"
    by (simp_all add: has_or) (simp_all add: has_def TSF_CAN_TRIGGER_def TSF_REPORT_def and.assoc)
  show ?thesis
  proof (rule that [of ?w])
    show "trsync_do_trigger trsync_call ts reason s = Ret () ?w"
      using assms(5) s1(1) by (simp add: trsync_do_trigger_def Let_def)
    show "pending ?w (T - MemT ` set as)"
      by (rule keep [OF s1(2) w(5-7)])
    show "all_stopped as Q free s ?w"
      using s1(3) by (simp add: all_stopped_def w)
  qed (use s1(4-6) f w in simp_all)
qed

end

text \<open>The two instances.\<close>

definition list_pending :: "'z sched_scheme \<Rightarrow> tptr set \<Rightarrow> bool" where
  "list_pending s T \<longleftrightarrow> (\<exists>b qs. sched_inv b s qs \<and> T = set (live qs))"

definition run_pending :: "u32 \<Rightarrow> tptr \<Rightarrow> 'z sched_scheme \<Rightarrow> tptr set \<Rightarrow> bool" where
  "run_pending b t s T \<longleftrightarrow> (\<exists>qs. running_inv b t s qs \<and> T = set qs)"

interpretation idle: timer_removal list_pending user_timer
proof unfold_locales
  fix s :: "'z steppers_scheme" and T u
  assume "list_pending s T" "user_timer u"
  then obtain b qs where inv: "sched_inv b s qs" and T: "T = set (live qs)"
    by (auto simp: list_pending_def)
  have "outcome (sched_del_timer u s) (\<lambda>_ s'. timer_frame s s' \<and> (\<exists>qs'. sched_inv b s' qs' \<and> live qs' = removeAll u (live qs))) (\<lambda>_ _. False)"
    using inv \<open>user_timer u\<close> by (rule sched_del_timer_inv)
  then obtain s1 qs' where d: "sched_del_timer u s = Ret () s1" "sched_inv b s1 qs'" "live qs' = removeAll u (live qs)"
    by (cases "sched_del_timer u s") auto
  have "list_pending s1 (T - {u})"
    unfolding list_pending_def by (rule exI [of _ b], rule exI [of _ qs']) (simp add: d(2,3) T)
  then show "outcome (sched_del_timer u s) (\<lambda>_ s'. sched_only s s' \<and> list_pending s' (T - {u})) (\<lambda>_ _. False)"
    using sched_del_timer_only [OF d(1)] by (simp add: d(1))
next
  fix s s' :: "'z steppers_scheme" and T u w
  assume "list_pending s T" and u: "u \<notin> T" "user_timer u" and tm: "timers s' = upd (timers s) u (\<lambda>x. x\<lparr>waketime := w\<rparr>)"
    and l: "timer_list s' = timer_list s" "last_insert s' = last_insert s"
  then obtain b qs where inv: "sched_inv b s qs" and T: "T = set (live qs)"
    by (auto simp: list_pending_def)
  have "sched_inv b s' qs"
    by (rule sched_inv_same [OF inv l]) (use u T in \<open>auto simp: tm park_waketime user_timer_def live_def intro!: park_waketime(1)\<close>)
  then show "list_pending s' T"
    using T by (auto simp: list_pending_def)
next
  fix s s' :: "'z steppers_scheme" and T
  assume "list_pending s T" and eq: "timers s' = timers s" "timer_list s' = timer_list s" "last_insert s' = last_insert s"
  then obtain b qs where inv: "sched_inv b s qs" and T: "T = set (live qs)"
    by (auto simp: list_pending_def)
  have "sched_inv b s' qs"
    by (rule sched_inv_same [OF inv eq(2,3)]) (simp_all add: eq)
  then show "list_pending s' T"
    using T by (auto simp: list_pending_def)
qed

interpretation callback: timer_removal "run_pending b t" "\<lambda>u. user_timer u \<and> u \<noteq> t" for b t
proof unfold_locales
  fix s :: "'z steppers_scheme" and T u
  assume "run_pending b t s T" and u: "user_timer u \<and> u \<noteq> t"
  then obtain qs where inv: "running_inv b t s qs" and T: "T = set qs"
    by (auto simp: run_pending_def)
  have "outcome (sched_del_timer u s) (\<lambda>_ s'. timer_frame s s' \<and> running_inv b t s' (removeAll u qs)) (\<lambda>_ _. False)"
    using inv u by (intro sched_del_timer_running) simp_all
  then obtain s1 where d: "sched_del_timer u s = Ret () s1" "running_inv b t s1 (removeAll u qs)"
    by (cases "sched_del_timer u s") auto
  have "run_pending b t s1 (T - {u})"
    unfolding run_pending_def by (rule exI [of _ "removeAll u qs"]) (simp add: d(2) T)
  then show "outcome (sched_del_timer u s) (\<lambda>_ s'. sched_only s s' \<and> run_pending b t s' (T - {u})) (\<lambda>_ _. False)"
    using sched_del_timer_only [OF d(1)] by (simp add: d(1))
next
  fix s s' :: "'z steppers_scheme" and T u w
  assume "run_pending b t s T" and u: "u \<notin> T" "user_timer u \<and> u \<noteq> t" and tm: "timers s' = upd (timers s) u (\<lambda>x. x\<lparr>waketime := w\<rparr>)"
    and l: "timer_list s' = timer_list s" "last_insert s' = last_insert s"
  then obtain qs where inv: "running_inv b t s qs" and T: "T = set qs"
    by (auto simp: run_pending_def)
  have "running_inv b t s' qs"
    by (rule running_inv_same [OF inv l]) (use u T in \<open>auto simp: tm park_waketime user_timer_def intro!: park_waketime(1)\<close>)
  then show "run_pending b t s' T"
    using T by (auto simp: run_pending_def)
next
  fix s s' :: "'z steppers_scheme" and T
  assume "run_pending b t s T" and eq: "timers s' = timers s" "timer_list s' = timer_list s" "last_insert s' = last_insert s"
  then obtain qs where inv: "running_inv b t s qs" and T: "T = set qs"
    by (auto simp: run_pending_def)
  have "running_inv b t s' qs"
    by (rule running_inv_same [OF inv eq(2,3)]) (simp_all add: eq)
  then show "run_pending b t s' T"
    using T by (auto simp: run_pending_def)
qed

lemma load_working:
  assumes "queue_rep (mnext s) (st_mq (stp_of s a)) (n # ns)" "has (st_flags (stp_of s a)) SF_SINGLE_SCHED"
    and "position (stp_of s a) = signed_pos up x" "\<forall>m \<in> set (n # ns). m_count (move_of s m) \<noteq> 0"
  obtains s1 up' c where "stepper_load_next a s = Ret SF_RESCHEDULE s1" "working a up' x (Suc c) ns s1"
    "queue_pulses (waketime_of s (MemT a)) up x (map (move_of s) (n # ns)) = plan a up' x (Suc c) ns s1"
proof -
  obtain s' where s': "stepper_load_next a s = Ret SF_RESCHEDULE s'" "queue_rep (mnext s') (st_mq (stp_of s' a)) ns"
    "smoves (stp s') = smoves (stp s)" "st_flags (stp_of s' a) = st_flags (stp_of s a)"
    "waketime_of s' (MemT a) = waketime_of s (MemT a) + m_interval (move_of s n)"
    "st_interval (stp_of s' a) = m_interval (move_of s n) + scast (m_add (move_of s n))"
    "st_add (stp_of s' a) = m_add (move_of s n)" "st_count (stp_of s' a) = ucast (m_count (move_of s n))"
    "position (stp_of s' a) - st_count (stp_of s' a) = signed_pos (up \<noteq> has (m_flags (move_of s n)) MF_DIR) x"
    using assms(1-3) by (rule load_more)
  obtain c where c: "unat (m_count (move_of s n)) = Suc c"
    using assms(4) by (cases "unat (m_count (move_of s n))") (auto simp: unat_eq_zero)
  let ?up = "up \<noteq> has (m_flags (move_of s n)) MF_DIR"
  show ?thesis
  proof (rule that [OF s'(1), of ?up c])
    show "working a ?up x (Suc c) ns s'"
      unfolding working_def s'(9) using assms(2,4) s'(2,3,4,8) c by (simp add: unat_ucast_u16)
    show "queue_pulses (waketime_of s (MemT a)) up x (map (move_of s) (n # ns)) = plan a ?up x (Suc c) ns s'"
      by (simp add: plan_def s'(3,5,6,7) move_pulses_def c Let_def)
  qed
qed

section \<open>Properties\<close>


text \<open>A stepper at address 64 with two moves, the second one in the other direction.\<close>

definition two_moves :: steppers where
  "two_moves = (let s = steppers_static (quiet_env 0) 0 0 ();
       s = s\<lparr>mnext := (mnext s)(200 := Some 216, 216 := None)\<rparr>;
       s = upd_smove 200 (\<lambda>_. \<lparr>m_interval = 1000, m_add = 5, m_count = 3, m_flags = MF_DIR\<rparr>) s;
       s = upd_smove 216 (\<lambda>_. \<lparr>m_interval = 800, m_add = 0, m_count = 2, m_flags = MF_DIR\<rparr>) s
     in upd_stp 64 (\<lambda>x. x\<lparr>st_flags := SF_SINGLE_SCHED, position := - POSITION_BIAS,
          st_mq := \<lparr>first = Some 200, mlast = Some 216\<rparr>\<rparr>) s)"

lemma two_moves_sel:
  "mnext two_moves 200 = Some 216" "mnext two_moves 216 = None" "waketime_of two_moves (MemT 64) = 0"
  "move_of two_moves 200 = \<lparr>m_interval = 1000, m_add = 5, m_count = 3, m_flags = MF_DIR\<rparr>"
  "move_of two_moves 216 = \<lparr>m_interval = 800, m_add = 0, m_count = 2, m_flags = MF_DIR\<rparr>"
  "st_flags (stp_of two_moves 64) = SF_SINGLE_SCHED" "position (stp_of two_moves 64) = - POSITION_BIAS"
  "st_mq (stp_of two_moves 64) = \<lparr>first = Some 200, mlast = Some 216\<rparr>" "st_count (stp_of two_moves 64) = 0"
  by (simp_all add: two_moves_def Let_def stepper_zero_def steppers_static_def trsyncs_static_def timer_irq_static_def serial_static_def
      command_static_def base_static_def sched_static_def board_static_def timers_static_def)

lemma pulses_2: "pulses t i d x dx 2 = [(t, x + dx), (t + i, x + dx + dx)]"
  by (simp add: numeral_2_eq_2)

lemma pulses_3: "pulses t i d x dx 3 = [(t, x + dx), (t + i, x + dx + dx), (t + i + (i + d), x + dx + dx + dx)]"
  by (simp add: numeral_3_eq_3)


text \<open>
  C5. A trigger is total and fires once. When a trsync object that can trigger is triggered, the loop
  over its signals ends, with every registered stepper stopped: no step left to do, its timer off the
  timer list, its queued moves back on the free list, the reported position unchanged, and a clock
  reset required before it moves again. No other stepper is touched, the timer list stays sound,
  the host is going to be told the reason, and a second trigger has no effect.
\<close>

theorem trigger_stops_steppers:
  assumes "sched_inv b s qs" "registered ts as s" "move_owner as Q free s" "has (ts_flags (ts_of s ts)) TSF_CAN_TRIGGER"
  shows "\<exists>s' b' qs'. trsync_do_trigger trsync_call ts reason s = Ret () s' \<and> sched_inv b' s' qs' \<and>
    set (live qs') = set (live qs) - MemT ` set as \<and> all_stopped as Q free s s' \<and>
    has (ts_flags (ts_of s' ts)) TSF_REPORT \<and> trigger_reason (ts_of s' ts) = reason \<and> wake s' trsync_wake = 1 \<and>
    (\<forall>r. trsync_do_trigger trsync_call ts r s' = Ret () s')"
proof -
  have p: "list_pending s (set (live qs))"
    using assms(1) by (auto simp: list_pending_def)
  have u: "\<forall>a \<in> set as. user_timer (MemT a)"
    by (simp add: user_timer_def)
  obtain s' where s': "trsync_do_trigger trsync_call ts reason s = Ret () s'" "list_pending s' (set (live qs) - MemT ` set as)"
    "all_stopped as Q free s s'" "signals (ts_of s' ts) = None" "\<not> has (ts_flags (ts_of s' ts)) TSF_CAN_TRIGGER"
    "has (ts_flags (ts_of s' ts)) TSF_REPORT" "trigger_reason (ts_of s' ts) = reason" "wake s' trsync_wake = 1"
    by (rule idle.trigger_stops [OF assms(2,3) p u assms(4)])
  obtain b' qs' where "sched_inv b' s' qs'" "set (live qs') = set (live qs) - MemT ` set as"
    using s'(2) by (auto simp: list_pending_def)
  moreover have "trsync_do_trigger trsync_call ts r s' = Ret () s'" for r
    using s'(5) by (simp add: trsync_do_trigger_def Let_def)
  ultimately show ?thesis
    using s' by blast
qed

text \<open>The stepper of \<open>two_moves\<close>, registered with a trsync object at address 128.\<close>

definition homing :: steppers where
  "homing = upd_ts 128 (\<lambda>x. x\<lparr>signals := Some 64, ts_flags := TSF_CAN_TRIGGER\<rparr>)
     (upd_sig 64 (\<lambda>x. x\<lparr>sig_func := Some CB_stepper_stop\<rparr>) two_moves)"

lemma homing_inv: "sched_inv 0 homing [PeriodicT]"
  by (simp add: homing_def two_moves_def Let_def steppers_static_def trsyncs_static_def timer_irq_static_def
      serial_static_def command_static_def base_static_def sched_inv_def chain_def sched_static_def board_static_def
      timers_static_def sentinel_ok_def in_window_def ahead_def)

lemma homing_sel:
  "registered 128 [64] homing" "ts_flags (ts_of homing 128) = TSF_CAN_TRIGGER" "stp homing = stp two_moves"
  "mnext homing = mnext two_moves" "move_free_list homing = None"
  by (simp_all add: registered_def homing_def two_moves_def Let_def steppers_static_def trsyncs_static_def
      timer_irq_static_def serial_static_def command_static_def base_static_def sched_static_def board_static_def
      signal_zero_def)

theorem trigger_stops_steppers_witness:
  "\<exists>s'. trsync_do_trigger trsync_call 128 3 homing = Ret () s' \<and> st_count (stp_of s' 64) = 0 \<and>
     stepper_get_position (stp_of s' 64) = POSITION_BIAS"
proof -
  have "move_owner [64] (\<lambda>_. [200, 216]) [] homing"
    by (simp add: move_owner_def homing_sel two_moves_sel)
  moreover have "has (ts_flags (ts_of homing 128)) TSF_CAN_TRIGGER"
    by (simp add: homing_sel has_def TSF_CAN_TRIGGER_def)
  ultimately obtain s' where "trsync_do_trigger trsync_call 128 3 homing = Ret () s'"
    "all_stopped [64] (\<lambda>_. [200, 216]) [] homing s'"
    using trigger_stops_steppers [OF homing_inv homing_sel(1), of "\<lambda>_. [200, 216]" "[]" 3] by blast
  moreover have "stepper_get_position (stp_of homing 64) = POSITION_BIAS"
    by (simp add: homing_sel two_moves_sel stepper_get_position_def POSITION_BIAS_def has_def SF_SINGLE_SCHED_def)
  ultimately show ?thesis
    by (auto simp: all_stopped_def stopped_def)
qed

end
