(* ===== verification/Endstop_Spec.thy ===== *)
theory Endstop_Spec
  imports Endstop Stepper_Spec
begin

text \<open>
  Properties of the endstops: the trigger needs a full run of matching readings, and it stops the
  steppers of the homing move inside the timer callback.
\<close>

section \<open>Readings\<close>

text \<open>
  A timer event of an armed endstop makes one reading of the pin, or two when the first one matches
  while the endstop only polls.
\<close>

definition pin_match :: "nat \<Rightarrow> 'z endstops_scheme \<Rightarrow> bool" where
  "pin_match a s \<longleftrightarrow> \<not> endstop_mismatch (fst (gpio_in_read (es_pin (ends s a)) s)) (es_flags (ends s a))"

definition after_read :: "nat \<Rightarrow> 'z endstops_scheme \<Rightarrow> 'z endstops_scheme" where
  "after_read a s = snd (gpio_in_read (es_pin (ends s a)) s)"

definition endstop_poll :: "nat \<Rightarrow> 'z endstops_scheme \<Rightarrow> (sf, 'z endstops_scheme) res" where
  "endstop_poll a s =
     (if func (timers s (MemT a)) = F_endstop_event then endstop_event a s else endstop_oversample_event a s)"

definition readings :: "nat \<Rightarrow> 'z endstops_scheme \<Rightarrow> bool list" where
  "readings a s =
     (if func (timers s (MemT a)) = F_endstop_event \<and> pin_match a s then [True, pin_match a (after_read a s)]
      else [pin_match a s])"

text \<open>
  Events of one endstop with their readings. Between two events anything else may happen, as long
  as it does not touch this endstop.
\<close>

inductive polls :: "nat \<Rightarrow> 'z endstops_scheme \<Rightarrow> bool list \<Rightarrow> 'z endstops_scheme \<Rightarrow> bool" for a s where
  start: "polls a s [] s"
| event: "polls a s vs s1 \<Longrightarrow> endstop_poll a s1 = Ret SF_RESCHEDULE s2 \<Longrightarrow> polls a s (vs @ readings a s1) s2"
| other: "polls a s vs s1 \<Longrightarrow> ends s2 a = ends s1 a \<Longrightarrow> func (timers s2 (MemT a)) = func (timers s1 (MemT a)) \<Longrightarrow> polls a s vs s2"

lemma after_read_sel [simp]:
  "ends (after_read a s) = ends s" "timers (after_read a s) = timers s"
  by (simp_all add: after_read_def gpio_in_read_def tick_def)

lemma read_other [simp]:
  "fst (gpio_in_read g (s\<lparr>ends := e\<rparr>)) = fst (gpio_in_read g s)" "fst (gpio_in_read g (s\<lparr>timers := tm\<rparr>)) = fst (gpio_in_read g s)"
  by (simp_all add: gpio_in_read_def sample_def)

text \<open>What an event does, by its readings.\<close>

lemma oversample_mismatch:
  assumes "\<not> pin_match a s" "endstop_oversample_event a s = Ret r s'"
  shows "r = SF_RESCHEDULE" "func (timers s' (MemT a)) = F_endstop_event" "trigger_count (ends s' a) = sample_count (ends s a)"
    "sample_count (ends s' a) = sample_count (ends s a)"
  using assms by (auto simp: endstop_oversample_event_def pin_match_def gpio_in_read_def tick_def Let_def split: if_splits)

lemma oversample_match:
  assumes "pin_match a s" "endstop_oversample_event a s = Ret SF_RESCHEDULE s'"
  shows "trigger_count (ends s a) \<noteq> 1" "func (timers s' (MemT a)) = func (timers s (MemT a))"
    "trigger_count (ends s' a) = trigger_count (ends s a) - 1" "sample_count (ends s' a) = sample_count (ends s a)"
  using assms
  by (auto simp: endstop_oversample_event_def pin_match_def gpio_in_read_def tick_def Let_def bind_Ret_iff split: if_splits option.splits)

lemma oversample_done:
  assumes "endstop_oversample_event a s = Ret SF_DONE s'"
  shows "pin_match a s" "trigger_count (ends s a) = 1"
  using assms
  by (auto simp: endstop_oversample_event_def pin_match_def gpio_in_read_def tick_def Let_def split: if_splits option.splits)

definition first_match :: "nat \<Rightarrow> 'z endstops_scheme \<Rightarrow> 'z endstops_scheme" where
  "first_match a s = set_func (MemT a) F_endstop_oversample_event
     (upd_es a (\<lambda>x. x\<lparr>es_nextwake := waketime_of s (MemT a) + rest_time (ends s a)\<rparr>) (after_read a s))"

lemma first_match_sel:
  "func (timers (first_match a s) (MemT a)) = F_endstop_oversample_event" "trigger_count (ends (first_match a s) a) = trigger_count (ends s a)"
  "sample_count (ends (first_match a s) a) = sample_count (ends s a)" "pin_match a (first_match a s) = pin_match a (after_read a s)"
  by (simp_all add: first_match_def pin_match_def)

lemma event_match: "pin_match a s \<Longrightarrow> endstop_event a s = endstop_oversample_event a (first_match a s)"
  using after_read_sel [of a s]
  by (cases "gpio_in_read (es_pin (ends s a)) s") (simp add: endstop_event_def pin_match_def first_match_def after_read_def)

lemma event_mismatch:
  assumes "\<not> pin_match a s" "endstop_event a s = Ret r s'"
  shows "r = SF_RESCHEDULE" "func (timers s' (MemT a)) = func (timers s (MemT a))" "ends s' = ends s"
  using assms by (auto simp: endstop_event_def pin_match_def gpio_in_read_def tick_def Let_def split: if_splits)

section \<open>Oversampling\<close>

text \<open>
  The invariant: the endstop polls with its counter full, or it has made \<open>k\<close> of its samples and the
  readings end with one more than that many matches.
\<close>

definition sampling :: "nat \<Rightarrow> nat \<Rightarrow> bool list \<Rightarrow> 'z endstops_scheme \<Rightarrow> bool" where
  "sampling a n vs s \<longleftrightarrow> unat (sample_count (ends s a)) = n \<and>
     (func (timers s (MemT a)) = F_endstop_event \<and> unat (trigger_count (ends s a)) = n \<or>
      func (timers s (MemT a)) = F_endstop_oversample_event \<and>
      (\<exists>k us. 0 < k \<and> k < n \<and> unat (trigger_count (ends s a)) = n - k \<and> vs = us @ replicate (k + 1) True))"

lemma unat_dec_u8: "(x::u8) \<noteq> 0 \<Longrightarrow> unat (x - 1) = unat x - 1"
  by (simp add: unat_minus_one)

text \<open>A sample of an oversampling endstop whose readings end with \<open>k + 1\<close> matches.\<close>

lemma oversample_step:
  assumes "endstop_oversample_event a s = Ret SF_RESCHEDULE s'" "func (timers s (MemT a)) = F_endstop_oversample_event"
    and "unat (sample_count (ends s a)) = n" "unat (trigger_count (ends s a)) = n - k" "k < n" "vs = us @ replicate (k + 1) True"
  shows "sampling a n (vs @ [pin_match a s]) s'"
proof (cases "pin_match a s")
  case True
  note m = oversample_match [OF True assms(1)]
  have pos: "trigger_count (ends s a) \<noteq> 0"
    using assms(4,5) by (auto simp: unat_eq_zero)
  have "unat (trigger_count (ends s a)) \<noteq> 1"
    using m(1) by (simp add: word_unat_eq_iff)
  then have "Suc k < n"
    using assms(4,5) by linarith
  moreover have "unat (trigger_count (ends s' a)) = n - Suc k"
    using m(3) unat_dec_u8 [OF pos] assms(4) by simp
  moreover have "vs @ [pin_match a s] = us @ replicate (Suc k + 1) True"
    using True assms(6) by (simp add: replicate_append_same)
  ultimately show ?thesis
    using m assms(2,3) unfolding sampling_def by (metis zero_less_Suc)
next
  case False
  then show ?thesis
    using oversample_mismatch [OF False assms(1)] assms(3) by (simp add: sampling_def)
qed

lemma poll_step:
  assumes "sampling a n vs s" "0 < n" "endstop_poll a s = Ret SF_RESCHEDULE s'"
  shows "sampling a n (vs @ readings a s) s'"
proof (cases "func (timers s (MemT a)) = F_endstop_event")
  case True
  then have ev: "endstop_event a s = Ret SF_RESCHEDULE s'" and c: "unat (sample_count (ends s a)) = n" "unat (trigger_count (ends s a)) = n"
    using assms by (simp_all add: endstop_poll_def sampling_def)
  show ?thesis
  proof (cases "pin_match a s")
    case m: True
    then have "endstop_oversample_event a (first_match a s) = Ret SF_RESCHEDULE s'"
      using ev event_match by metis
    then have "sampling a n ((vs @ [True]) @ [pin_match a (first_match a s)]) s'"
      by (rule oversample_step [where us = vs and k = 0]) (use c assms(2) in \<open>simp_all add: first_match_sel\<close>)
    then show ?thesis
      using True m by (simp add: readings_def first_match_sel)
  next
    case False
    then show ?thesis
      using event_mismatch [OF False ev] True c by (simp add: sampling_def)
  qed
next
  case False
  then obtain k us where "0 < k" "k < n" "unat (trigger_count (ends s a)) = n - k" "vs = us @ replicate (k + 1) True"
    "func (timers s (MemT a)) = F_endstop_oversample_event" "unat (sample_count (ends s a)) = n"
    using assms(1) by (auto simp: sampling_def)
  then have "sampling a n (vs @ [pin_match a s]) s'"
    using assms(3) False by (intro oversample_step) (simp_all add: endstop_poll_def)
  then show ?thesis
    using False by (simp add: readings_def)
qed

lemma polls_sampling:
  assumes "polls a s vs s'" "sampling a n [] s" "0 < n"
  shows "sampling a n vs s'"
  using assms
proof (induction rule: polls.induct)
  case (event vs s1 s2)
  then show ?case by (auto intro: poll_step)
qed (simp_all add: sampling_def)

lemma poll_done:
  assumes "sampling a n vs s" "0 < n" "endstop_poll a s = Ret SF_DONE s'"
  shows "\<exists>us. vs @ readings a s = us @ replicate (n + 1) True"
proof (cases "func (timers s (MemT a)) = F_endstop_event")
  case True
  then have ev: "endstop_event a s = Ret SF_DONE s'" and c: "unat (trigger_count (ends s a)) = n"
    using assms by (simp_all add: endstop_poll_def sampling_def)
  have m: "pin_match a s"
    using event_mismatch(1) [OF _ ev] by auto
  then have "endstop_oversample_event a (first_match a s) = Ret SF_DONE s'"
    using ev event_match by metis
  then have "pin_match a (after_read a s)" "n = 1"
    using oversample_done [of a "first_match a s"] c by (simp_all add: first_match_sel)
  then show ?thesis
    using True m by (simp add: readings_def numeral_2_eq_2)
next
  case False
  then have ev: "endstop_oversample_event a s = Ret SF_DONE s'"
    using assms(3) by (simp add: endstop_poll_def)
  obtain k us where k: "k < n" "unat (trigger_count (ends s a)) = n - k" "vs = us @ replicate (k + 1) True"
    using assms(1) False by (auto simp: sampling_def)
  have "n = k + 1"
    using k oversample_done(2) [OF ev] by simp
  then show ?thesis
    using k(3) oversample_done(1) [OF ev] False by (auto simp: readings_def replicate_append_same)
qed

section \<open>The hit\<close>

text \<open>The last matching sample: the callback stops the registered steppers and ends.\<close>

lemma endstop_hit:
  assumes "run_pending b (MemT a) s T" "pin_match a s" "trigger_count (ends s a) = 1" "es_ts (ends s a) = Some ts"
    and "registered ts as s" "move_owner as Q free s" "has (ts_flags (ts_of s ts)) TSF_CAN_TRIGGER" "a \<notin> set as"
  obtains s' where "endstop_oversample_event a s = Ret SF_DONE s'" "run_pending b (MemT a) s' (T - MemT ` set as)"
    "all_stopped as Q free s s'" "trigger_reason (ts_of s' ts) = es_trigger_reason (ends s a)"
    "has (ts_flags (ts_of s' ts)) TSF_REPORT"
proof -
  let ?s = "after_read a s"
  have eq: "stp ?s = stp s" "trs ?s = trs s" "mnext ?s = mnext s" "move_free_list ?s = move_free_list s" "timers ?s = timers s"
    "timer_list ?s = timer_list s" "last_insert ?s = last_insert s"
    by (simp_all add: after_read_def gpio_in_read_def tick_def)
  have r: "registered ts as ?s" "move_owner as Q free ?s" "has (ts_flags (ts_of ?s ts)) TSF_CAN_TRIGGER"
    using assms(5-7) by (simp_all add: registered_def move_owner_def eq)
  have p: "run_pending b (MemT a) ?s T"
    using assms(1) eq(5-7) by (rule callback.keep)
  have u: "\<forall>c \<in> set as. user_timer (MemT c) \<and> MemT c \<noteq> MemT a"
    using assms(8) by (auto simp: user_timer_def)
  obtain s' where s': "trsync_do_trigger trsync_call ts (es_trigger_reason (ends s a)) ?s = Ret () s'"
    "run_pending b (MemT a) s' (T - MemT ` set as)" "all_stopped as Q free ?s s'" "signals (ts_of s' ts) = None"
    "\<not> has (ts_flags (ts_of s' ts)) TSF_CAN_TRIGGER" "has (ts_flags (ts_of s' ts)) TSF_REPORT"
    "trigger_reason (ts_of s' ts) = es_trigger_reason (ends s a)" "wake s' trsync_wake = 1"
    by (rule callback.trigger_stops [OF r(1,2) p u r(3)])
  obtain val where rd: "gpio_in_read (es_pin (ends s a)) s = (val, ?s)" "\<not> endstop_mismatch val (es_flags (ends s a))"
    using assms(2) by (cases "gpio_in_read (es_pin (ends s a)) s") (simp add: after_read_def pin_match_def)
  have "endstop_oversample_event a s = Ret SF_DONE s'"
    using rd(2) s'(1) by (simp add: endstop_oversample_event_def rd(1) assms(3,4))
  moreover have "all_stopped as Q free s s'"
    using s'(3) by (simp add: all_stopped_def eq)
  ultimately show ?thesis
    using s'(2,6,7) that by blast
qed

section \<open>Properties\<close>

text \<open>
  C25. An endstop triggers only after a full run of matching readings: when homing was started with
  sample count \<open>n\<close> and an event ends the homing, the last \<open>n + 1\<close> readings of the pin all had
  the triggering level, whatever else the firmware did between the events. A single reading of
  the other level starts the count again.
\<close>

theorem endstop_trigger_oversampled:
  assumes "func (timers s (MemT a)) = F_endstop_event" "trigger_count (ends s a) = sample_count (ends s a)"
    and "sample_count (ends s a) \<noteq> 0" "polls a s vs s1" "endstop_poll a s1 = Ret SF_DONE s2"
  shows "\<exists>us. vs @ readings a s1 = us @ replicate (unat (sample_count (ends s a)) + 1) True"
proof -
  let ?n = "unat (sample_count (ends s a))"
  have n: "0 < ?n"
    using assms(3) by (simp add: unat_gt_0)
  have "sampling a ?n vs s1"
    by (rule polls_sampling [OF assms(4) _ n]) (use assms(1,2) in \<open>simp add: sampling_def\<close>)
  then show ?thesis
    using n assms(5) by (rule poll_done)
qed

text \<open>An armed endstop at address 32 with one sample, on a pin that reads low, with an empty trsync object.\<close>

definition armed_endstop :: endstops where
  "armed_endstop = upd_es 32 (\<lambda>x. x\<lparr>sample_count := 1, trigger_count := 1, es_ts := Some 128\<rparr>)
     (set_func (MemT 32) F_endstop_event (endstops_static (quiet_env 0) 0 0 ()))"

lemma armed_endstop_sel:
  "func (timers armed_endstop (MemT 32)) = F_endstop_event"
  "ends armed_endstop 32 = endstop_zero\<lparr>sample_count := 1, trigger_count := 1, es_ts := Some 128\<rparr>"
  "env_at armed_endstop = quiet_env 0" "trs armed_endstop = \<lparr>tss = (\<lambda>_. trsync_zero), sigs = (\<lambda>_. signal_zero)\<rparr>"
  by (simp_all add: armed_endstop_def endstops_static_def eddy_static_def steppers_static_def trsyncs_static_def
      timer_irq_static_def serial_static_def command_static_def base_static_def sched_static_def board_static_def)

theorem endstop_trigger_oversampled_witness:
  "\<exists>us. readings 32 armed_endstop = us @ [True, True]"
proof -
  have "\<exists>s2. endstop_poll 32 armed_endstop = Ret SF_DONE s2"
    by (simp add: endstop_poll_def armed_endstop_sel endstop_event_def endstop_oversample_event_def gpio_in_read_def
        endstop_zero_def no_pin_def endstop_mismatch_def has_def quiet_env_def sample_def tick_def trsync_do_trigger_def
        trsync_zero_def FF_EDDY_ENDSTOP_PORT_def FF_EDDY_ENDSTOP_BIT_def)
  then obtain s2 where "endstop_poll 32 armed_endstop = Ret SF_DONE s2" by blast
  from endstop_trigger_oversampled [OF _ _ _ polls.start this]
  have "\<exists>us. readings 32 armed_endstop = us @ replicate (unat (1::u8) + 1) True"
    by (simp add: armed_endstop_sel)
  then show ?thesis by (simp add: numeral_2_eq_2)
qed

end
