(* ===== verification/Digital_Out.thy ===== *)
theory Digital_Out
  imports Endstop
begin

text \<open>
  \<^verbatim>\<open>src/klipper/src/gpiocmds.c\<close>: digital outputs with software PWM, queued updates and the
  \<open>max_duration\<close> limit. The timer of an output at address \<open>a\<close> is \<open>MemT a\<close>.
\<close>

section \<open>State\<close>

record digital_out_s =
  do_on_duration :: u32
  do_off_duration :: u32
  do_end_time :: u32
  do_pin :: gpio_pin
  do_max_duration :: u32
  do_cycle_time :: u32
  do_mq :: move_queue_head
  do_flags :: u8

record digital_move =
  dm_waketime :: u32
  dm_on_duration :: u32

record digital_state =
  douts :: "nat \<Rightarrow> digital_out_s"
  dmoves :: "nat \<Rightarrow> digital_move"

record digital = endstops +
  dig :: digital_state

definition DF_ON :: u8 where "DF_ON = 1"
definition DF_TOGGLING :: u8 where "DF_TOGGLING = 2"
definition DF_CHECK_END :: u8 where "DF_CHECK_END = 4"
definition DF_DEFAULT_ON :: u8 where "DF_DEFAULT_ON = 16"

definition digital_out_zero :: digital_out_s where
  "digital_out_zero = \<lparr>do_on_duration = 0, do_off_duration = 0, do_end_time = 0, do_pin = no_pin,
     do_max_duration = 0, do_cycle_time = 0, do_mq = \<lparr>first = None, mlast = None\<rparr>, do_flags = 0\<rparr>"

definition digital_static :: "(nat \<Rightarrow> env) \<Rightarrow> nat \<Rightarrow> nat \<Rightarrow> 'z \<Rightarrow> 'z digital_scheme" where
  "digital_static ev start end m = endstops_static ev start end (digital_ext
     \<lparr>douts = (\<lambda>_. digital_out_zero), dmoves = (\<lambda>_. \<lparr>dm_waketime = 0, dm_on_duration = 0\<rparr>)\<rparr> m)"

abbreviation dout_of :: "'z digital_scheme \<Rightarrow> nat \<Rightarrow> digital_out_s" where
  "dout_of s a \<equiv> douts (dig s) a"

abbreviation dmove_of :: "'z digital_scheme \<Rightarrow> nat \<Rightarrow> digital_move" where
  "dmove_of s m \<equiv> dmoves (dig s) m"

abbreviation upd_do :: "nat \<Rightarrow> (digital_out_s \<Rightarrow> digital_out_s) \<Rightarrow> 'z digital_scheme \<Rightarrow> 'z digital_scheme" where
  "upd_do a f s \<equiv> s\<lparr>dig := (dig s)\<lparr>douts := upd (douts (dig s)) a f\<rparr>\<rparr>"

abbreviation upd_dmove :: "nat \<Rightarrow> (digital_move \<Rightarrow> digital_move) \<Rightarrow> 'z digital_scheme \<Rightarrow> 'z digital_scheme" where
  "upd_dmove m f s \<equiv> s\<lparr>dig := (dig s)\<lparr>dmoves := upd (dmoves (dig s)) m f\<rparr>\<rparr>"

section \<open>Timer callbacks\<close>

definition digital_toggle_event :: "nat \<Rightarrow> 'z digital_scheme \<Rightarrow> (sf, 'z digital_scheme) res" where
  "digital_toggle_event a s =
     (let s = gpio_out_toggle_noirq (do_pin (dout_of s a)) s;
          s = upd_do a (\<lambda>x. x\<lparr>do_flags := do_flags x XOR DF_ON\<rparr>) s;
          d = dout_of s a;
          w = waketime_of s (MemT a);
          w = (if has (do_flags d) DF_ON then w + do_on_duration d else w + do_off_duration d);
          (w, s) = (if has (do_flags d) DF_CHECK_END \<and> \<not> timer_is_before w (do_end_time d)
                    then (do_end_time d, set_func (MemT a) F_digital_load_event s) else (w, s))
      in Ret SF_RESCHEDULE (set_waketime (MemT a) w s))"

text \<open>
  The flags and the end time that follow from the new setting alone: \<open>w\<close> is the wake time, \<open>old\<close>
  the old flags.
\<close>

definition digital_end :: "u32 \<Rightarrow> u32 \<Rightarrow> u8 \<Rightarrow> digital_out_s \<Rightarrow> u32 \<times> u8" where
  "digital_end w on_duration old d =
     (let flags = (if on_duration \<noteq> 0 then DF_ON else 0)
      in if flags = 0 \<or> on_duration \<ge> do_cycle_time d
         then if (flags = 0) \<noteq> (\<not> has old DF_DEFAULT_ON) \<and> do_max_duration d \<noteq> 0
              then (w + do_max_duration d, flags OR DF_CHECK_END) else (0, flags)
         else let flags = flags OR DF_TOGGLING
              in if do_max_duration d \<noteq> 0 then (w + do_max_duration d, flags OR DF_CHECK_END) else (0, flags))"

text \<open>With another setting in the queue, the current one ends when that starts.\<close>

definition digital_next_end :: "nat \<Rightarrow> u32 \<Rightarrow> u8 \<Rightarrow> 'z digital_scheme \<Rightarrow> (u32 \<times> u8, 'z digital_scheme) res" where
  "digital_next_end a end_time flags s =
     (case move_queue_first (do_mq (dout_of s a)) of
        None \<Rightarrow> Ret (end_time, flags) s
      | Some nn \<Rightarrow>
          let wake = dm_waketime (dmove_of s nn)
          in if has flags DF_CHECK_END \<and> timer_is_before end_time wake
             then shutdown_ec FF_EC_DIGITAL_MAX_DURATION ''Scheduled digital out event will exceed max_duration'' s
             else Ret (wake, flags OR DF_CHECK_END) s)"

text \<open>Start the output: nothing to do, wait for the end, or toggle until the end.\<close>

definition digital_start :: "nat \<Rightarrow> u32 \<Rightarrow> u32 \<Rightarrow> u8 \<Rightarrow> 'z digital_scheme \<Rightarrow> (sf, 'z digital_scheme) res" where
  "digital_start a on_duration end_time flags s =
     (let s = upd_do a (\<lambda>x. x\<lparr>do_end_time := end_time,
                     do_flags := flags OR (do_flags x AND DF_DEFAULT_ON)\<rparr>) s
      in if \<not> has flags DF_TOGGLING
         then if \<not> has flags DF_CHECK_END then Ret SF_DONE s
              else Ret SF_RESCHEDULE (set_waketime (MemT a) end_time s)
         else let w = waketime_of s (MemT a) + on_duration
              in if has flags DF_CHECK_END \<and> \<not> timer_is_before w end_time
                 then Ret SF_RESCHEDULE (set_waketime (MemT a) end_time s)
                 else let s = set_func (MemT a) F_digital_toggle_event s;
                          s = set_waketime (MemT a) w s;
                          s = upd_do a (\<lambda>x. x\<lparr>do_on_duration := on_duration,
                                do_off_duration := do_cycle_time x - on_duration\<rparr>) s
                      in Ret SF_RESCHEDULE s)"

definition digital_load_event :: "nat \<Rightarrow> 'z digital_scheme \<Rightarrow> (sf, 'z digital_scheme) res" where
  "digital_load_event a s =
     (if move_queue_empty (do_mq (dout_of s a))
      then shutdown_ec FF_EC_DIGITAL_MISSED_EVENT ''Missed scheduling of next digital out event'' s
      else bind (move_queue_pop (do_mq (dout_of s a)) s) (\<lambda>(m, mh) s.
        let s = upd_do a (\<lambda>x. x\<lparr>do_mq := mh\<rparr>) s;
            on_duration = dm_on_duration (dmove_of s m);
            s = gpio_out_write (do_pin (dout_of s a)) (if on_duration \<noteq> 0 then ucast DF_ON else 0) s;
            s = move_free m s;
            w = waketime_of s (MemT a);
            (end_time, flags) = digital_end w on_duration (do_flags (dout_of s a)) (dout_of s a)
        in bind (digital_next_end a end_time flags s) (\<lambda>(end_time, flags) s. digital_start a on_duration end_time flags s)))"

section \<open>Commands\<close>

definition command_config_digital_out :: "u32 list \<Rightarrow> 'z digital_scheme \<Rightarrow> (unit, 'z digital_scheme) res" where
  "command_config_digital_out args s =
     bind (gpio_out_setup (args ! 1) (c_bool (args ! 2 \<noteq> 0)) s) (\<lambda>pin s.
     bind (oid_alloc (ucast (args ! 0)) T_config_digital_out 52 s) (\<lambda>a s.
       let s = upd_do a (\<lambda>_. digital_out_zero) (s\<lparr>timers := (timers s)(MemT a := timer_zero)\<rparr>);
           s = upd_do a (\<lambda>x. x\<lparr>do_pin := pin,
                 do_flags := (if args ! 2 \<noteq> 0 then DF_ON else 0) OR (if args ! 3 \<noteq> 0 then DF_DEFAULT_ON else 0),
                 do_max_duration := args ! 4\<rparr>) s
       in bind (move_queue_setup 12 s) (\<lambda>mh s. Ret () (upd_do a (\<lambda>x. x\<lparr>do_mq := mh\<rparr>) s))))"

definition command_set_digital_out_pwm_cycle ::
  "u32 list \<Rightarrow> 'z digital_scheme \<Rightarrow> (unit, 'z digital_scheme) res" where
  "command_set_digital_out_pwm_cycle args s =
     bind (oid_lookup (ucast (args ! 0)) T_config_digital_out s) (\<lambda>a s.
       if \<not> move_queue_empty (do_mq (dout_of s a))
       then shutdown_ec FF_EC_SOFT_PWM_UPDATES_PENDING ''Can not set soft pwm cycle ticks while updates pending'' s
       else Ret () (upd_do a (\<lambda>x. x\<lparr>do_cycle_time := args ! 1\<rparr>) s))"

definition command_queue_digital_out :: "u32 list \<Rightarrow> 'z digital_scheme \<Rightarrow> (unit, 'z digital_scheme) res" where
  "command_queue_digital_out args s =
     bind (oid_lookup (ucast (args ! 0)) T_config_digital_out s) (\<lambda>a s.
     bind (move_alloc s) (\<lambda>m s.
       let time = args ! 1;
           s = upd_dmove m (\<lambda>x. x\<lparr>dm_waketime := time, dm_on_duration := args ! 2\<rparr>) s;
           (first_on_queue, mh, s) = move_queue_push m (do_mq (dout_of s a)) s;
           s = upd_do a (\<lambda>x. x\<lparr>do_mq := mh\<rparr>) s
       in if \<not> first_on_queue then Ret () s
          else let flags = do_flags (dout_of s a)
               in if has flags DF_CHECK_END \<and> timer_is_before (do_end_time (dout_of s a)) time
                  then shutdown_ec FF_EC_DIGITAL_QUEUE_MAX_DURATION
                         ''Scheduled digital out event will exceed max_duration'' s
                  else let s = upd_do a (\<lambda>x. x\<lparr>do_end_time := time, do_flags := flags OR DF_CHECK_END\<rparr>) s
                       in if has flags DF_TOGGLING \<and> timer_is_before (waketime_of s (MemT a)) time then Ret () s
                          else bind (sched_del_timer (MemT a) s) (\<lambda>_ s.
                                 sched_add_timer (MemT a) FF_TIMER_DIGITAL_QUEUE
                                   (set_func (MemT a) F_digital_load_event (set_waketime (MemT a) time s)))))"

definition command_update_digital_out :: "u32 list \<Rightarrow> 'z digital_scheme \<Rightarrow> (unit, 'z digital_scheme) res" where
  "command_update_digital_out args s =
     bind (oid_lookup (ucast (args ! 0)) T_config_digital_out s) (\<lambda>a s.
     bind (sched_del_timer (MemT a) s) (\<lambda>_ s.
       if \<not> move_queue_empty (do_mq (dout_of s a))
       then shutdown_ec FF_EC_DIGITAL_ACTIVE_QUEUE ''update_digital_out not valid with active queue'' s
       else let val = ucast (args ! 1) :: u8;
                flags = do_flags (dout_of s a);
                on_flag = (if val \<noteq> 0 then DF_ON else 0);
                s = gpio_out_write (do_pin (dout_of s a)) (ucast on_flag) s
            in if (on_flag = 0) \<noteq> (\<not> has flags DF_DEFAULT_ON) \<and> do_max_duration (dout_of s a) \<noteq> 0
               then let (now, s) = timer_read_time s;
                        e = now + do_max_duration (dout_of s a);
                        s = set_waketime (MemT a) e (upd_do a (\<lambda>x. x\<lparr>do_end_time := e\<rparr>) s);
                        s = set_func (MemT a) F_digital_load_event s;
                        s = upd_do a (\<lambda>x. x\<lparr>do_flags := (flags AND DF_DEFAULT_ON) OR on_flag OR DF_CHECK_END\<rparr>) s
                    in sched_add_timer (MemT a) FF_TIMER_DIGITAL_UPDATE s
               else Ret () (upd_do a (\<lambda>x. x\<lparr>do_flags := (flags AND DF_DEFAULT_ON) OR on_flag\<rparr>) s)))"

definition digital_out_shutdown :: "'z digital_scheme \<Rightarrow> (unit, 'z digital_scheme) res" where
  "digital_out_shutdown s =
     foreach_oid T_config_digital_out (\<lambda>_ a s.
       let s = gpio_out_write (do_pin (dout_of s a)) (ucast (do_flags (dout_of s a) AND DF_DEFAULT_ON)) s;
           s = upd_do a (\<lambda>x. x\<lparr>do_flags := if has (do_flags x) DF_DEFAULT_ON then DF_ON OR DF_DEFAULT_ON else 0\<rparr>) s
       in Ret () (upd_do a (\<lambda>x. x\<lparr>do_mq := move_queue_clear (do_mq x)\<rparr>) s)) s"

definition command_set_digital_out :: "u32 list \<Rightarrow> 'z board_scheme \<Rightarrow> (unit, 'z board_scheme) res" where
  "command_set_digital_out args s = bind (gpio_out_setup (args ! 0) (args ! 1) s) (\<lambda>_ s. Ret () s)"

end
