(* ===== verification/Digital_Out_Spec.thy ===== *)
theory Digital_Out_Spec
  imports Digital_Out Basecmd_Spec
begin

text \<open>
  Properties of the digital outputs: the maximum duration is enforced by a deadline that no toggle
  event can move, and a shutdown puts every output back to its default.
\<close>

section \<open>Output pins\<close>

lemma has_push_bit: "k < 32 \<Longrightarrow> has (x::u32) (push_bit k 1) \<longleftrightarrow> bit x k"
  using bit_iff_and_push_bit_not_eq_0 [of x k] by (simp add: has_def)

definition pin_ok :: "gpio_pin \<Rightarrow> bool" where
  "pin_ok g \<longleftrightarrow> (\<exists>k<16. gp_bit g = push_bit k 1)"

lemma bit_low_mask: "n < 16 \<Longrightarrow> bit (0xffff :: int) n"
  using bit_mask_iff [of 16 n, where 'a = int] by (simp add: mask_eq_exp_minus_1)

lemma pbsc_write_bit:
  assumes "k < 16" "n < 16"
  shows "bit (POD (pbsc_write (push_bit k 1) r)) n \<longleftrightarrow> n = k \<or> bit (POD r) n"
    "bit (POD (pbsc_write (push_bit (16 + k) 1) r)) n \<longleftrightarrow> n \<noteq> k \<and> bit (POD r) n"
  using assms by (auto simp: pbsc_write_def bit_simps bit_low_mask)

lemma gpio_out_write_level:
  assumes "pin_ok g" "pin_ok h"
  shows "pin_level g (gpio_out_write h v s) \<longleftrightarrow> (if gp_regs g = gp_regs h \<and> gp_bit g = gp_bit h then v \<noteq> 0 else pin_level g s)"
proof -
  obtain k where k: "k < 16" "gp_bit g = push_bit k 1"
    using assms(1) by (auto simp: pin_ok_def)
  obtain m where m: "m < 16" "gp_bit h = push_bit m 1"
    using assms(2) by (auto simp: pin_ok_def)
  have inj: "(push_bit k 1 :: u32) = push_bit m 1 \<longleftrightarrow> k = m"
  proof
    assume "(push_bit k 1 :: u32) = push_bit m 1"
    moreover have "bit (push_bit k 1 :: u32) k"
      using k(1) by (simp add: bit_simps)
    ultimately have "bit (push_bit m 1 :: u32) k"
      by (simp only:)
    then show "k = m"
      by (auto simp: bit_simps)
  qed simp
  show ?thesis
    using k m by (auto simp: pin_level_def gpio_out_write_def write_module_def upd_def has_push_bit inj pbsc_write_bit simp del: push_bit_of_1)
qed

section \<open>Deadlines\<close>

text \<open>
  An output that is away from its default or toggles, and that has a maximum duration, has a
  deadline. \<open>guarded\<close>: the timer of the output runs at the deadline at the latest, and then it
  loads the next setting.
\<close>

definition away :: "digital_out_s \<Rightarrow> bool" where
  "away d \<longleftrightarrow> has (do_flags d) DF_TOGGLING \<or> has (do_flags d) DF_ON \<noteq> has (do_flags d) DF_DEFAULT_ON"

definition guarded :: "nat \<Rightarrow> 'z digital_scheme \<Rightarrow> bool" where
  "guarded a s \<longleftrightarrow> has (do_flags (dout_of s a)) DF_CHECK_END \<and>
     (waketime_of s (MemT a) = do_end_time (dout_of s a) \<and> func (timers s (MemT a)) = F_digital_load_event \<or>
      timer_is_before (waketime_of s (MemT a)) (do_end_time (dout_of s a)))"

lemma flag_simps:
  "\<not> has 0 f" "DF_ON \<noteq> 0" "has DF_ON DF_ON" "\<not> has DF_ON DF_TOGGLING" "\<not> has DF_ON DF_CHECK_END" "\<not> has DF_ON DF_DEFAULT_ON"
  "has DF_TOGGLING DF_TOGGLING" "\<not> has DF_TOGGLING DF_ON" "\<not> has DF_TOGGLING DF_CHECK_END" "\<not> has DF_TOGGLING DF_DEFAULT_ON"
  "has DF_CHECK_END DF_CHECK_END" "\<not> has DF_CHECK_END DF_ON" "\<not> has DF_CHECK_END DF_TOGGLING" "\<not> has DF_CHECK_END DF_DEFAULT_ON"
  "has DF_DEFAULT_ON DF_DEFAULT_ON" "\<not> has DF_DEFAULT_ON DF_ON" "\<not> has DF_DEFAULT_ON DF_TOGGLING" "\<not> has DF_DEFAULT_ON DF_CHECK_END"
  "has (x AND DF_DEFAULT_ON) DF_DEFAULT_ON = has x DF_DEFAULT_ON" "\<not> has (x AND DF_DEFAULT_ON) DF_ON"
  "\<not> has (x AND DF_DEFAULT_ON) DF_TOGGLING" "\<not> has (x AND DF_DEFAULT_ON) DF_CHECK_END"
  by (simp_all add: has_def DF_ON_def DF_TOGGLING_def DF_CHECK_END_def DF_DEFAULT_ON_def and.assoc)

lemma digital_end_deadline:
  assumes "digital_end w on old d = (e, f)" "do_max_duration d \<noteq> 0"
    and "has f DF_TOGGLING \<or> has f DF_ON \<noteq> has old DF_DEFAULT_ON"
  shows "has f DF_CHECK_END" "e = w + do_max_duration d"
  using assms by (auto simp: digital_end_def Let_def flag_simps has_or split: if_splits)

text \<open>The next setting in the queue can only bring the deadline forward.\<close>

lemma digital_next_end_Ret:
  assumes "digital_next_end a e f s = Ret (e', f') s'"
  shows "s' = s" "has f' DF_ON = has f DF_ON" "has f' DF_TOGGLING = has f DF_TOGGLING"
    "has f DF_CHECK_END \<Longrightarrow> has f' DF_CHECK_END \<and> \<not> timer_is_before e e'"
  using assms by (auto simp: digital_next_end_def Let_def shutdown_ec_def shutdown_def has_or flag_simps split: option.splits if_splits)

lemma digital_frames [simp]:
  "dig (gpio_out_write g v s) = dig s" "dig (move_free m s) = dig s" "timers (move_free m s) = timers s"
  "timers (gpio_out_write g v s) = timers s" "dig (gpio_out_toggle_noirq g s) = dig s" "timers (gpio_out_toggle_noirq g s) = timers s"
  by (simp_all add: move_free_def gpio_out_write_def gpio_out_toggle_noirq_def write_module_def)

lemma load_event_parts:
  assumes "digital_load_event a s = Ret r s'"
  obtains on e f e' f' s1 where "digital_end (waketime_of s (MemT a)) on (do_flags (dout_of s a)) (dout_of s a) = (e, f)"
    "digital_next_end a e f s1 = Ret (e', f') s1" "digital_start a on e' f' s1 = Ret r s'"
    "timers s1 = timers s" "do_flags (dout_of s1 a) = do_flags (dout_of s a)" "do_max_duration (dout_of s1 a) = do_max_duration (dout_of s a)"
proof -
  obtain m mh s0 where pop: "\<not> move_queue_empty (do_mq (dout_of s a))" "move_queue_pop (do_mq (dout_of s a)) s = Ret (m, mh) s0"
    and s0: "s0 = s"
    using assms by (auto simp: digital_load_event_def move_queue_pop_def shutdown_ec_def shutdown_def bind_Ret_iff split: if_splits option.splits)
  let ?on = "dm_on_duration (dmove_of s m)"
  let ?s1 = "move_free m (gpio_out_write (do_pin (dout_of s a)) (if ?on \<noteq> 0 then ucast DF_ON else 0) (upd_do a (\<lambda>x. x\<lparr>do_mq := mh\<rparr>) s))"
  obtain e f where ef: "digital_end (waketime_of s (MemT a)) ?on (do_flags (dout_of s a)) (dout_of s a) = (e, f)"
    by fastforce
  have d: "digital_end w on fl (d\<lparr>do_mq := mh\<rparr>) = digital_end w on fl d" for w on fl d
    by (simp add: digital_end_def)
  have "digital_load_event a s = bind (digital_next_end a e f ?s1) (\<lambda>(e', f') s. digital_start a ?on e' f' s)"
    using pop s0 ef by (simp add: digital_load_event_def d Let_def split del: if_split)
  then have "bind (digital_next_end a e f ?s1) (\<lambda>(e', f') s. digital_start a ?on e' f' s) = Ret r s'"
    using assms by simp
  then obtain e' f' s2 where "digital_next_end a e f ?s1 = Ret (e', f') s2" "digital_start a ?on e' f' s2 = Ret r s'"
    by (auto simp: bind_Ret_iff)
  then show ?thesis
    using that [OF ef, of ?s1 e' f'] digital_next_end_Ret(1) [of a e f ?s1 e' f' s2] by simp
qed

text \<open>Both callbacks leave a guarded output when it is away from its default.\<close>

lemma start_guarded:
  assumes "digital_start a on e f s = Ret r s'" "has f DF_CHECK_END" "func (timers s (MemT a)) = F_digital_load_event"
  shows "r = SF_RESCHEDULE" "guarded a s'" "do_end_time (dout_of s' a) = e"
  using assms by (auto simp: digital_start_def guarded_def Let_def has_or split: if_splits)

lemma start_flags:
  assumes "digital_start a on e f s = Ret r s'"
  shows "do_flags (dout_of s' a) = f OR (do_flags (dout_of s a) AND DF_DEFAULT_ON)" "do_max_duration (dout_of s' a) = do_max_duration (dout_of s a)"
  using assms by (auto simp: digital_start_def Let_def split: if_splits)

lemma load_guarded:
  assumes "digital_load_event a s = Ret r s'" "func (timers s (MemT a)) = F_digital_load_event" "do_max_duration (dout_of s a) \<noteq> 0"
    and "away (dout_of s' a)"
  shows "r = SF_RESCHEDULE" "guarded a s'"
    "\<not> timer_is_before (waketime_of s (MemT a) + do_max_duration (dout_of s a)) (do_end_time (dout_of s' a))"
proof -
  obtain on e f e' f' s1 where p: "digital_end (waketime_of s (MemT a)) on (do_flags (dout_of s a)) (dout_of s a) = (e, f)"
    "digital_next_end a e f s1 = Ret (e', f') s1" "digital_start a on e' f' s1 = Ret r s'"
    "timers s1 = timers s" "do_flags (dout_of s1 a) = do_flags (dout_of s a)" "do_max_duration (dout_of s1 a) = do_max_duration (dout_of s a)"
    using assms(1) by (rule load_event_parts)
  note n = digital_next_end_Ret [OF p(2)] and fl = start_flags [OF p(3)]
  have nd: "\<not> has f' DF_DEFAULT_ON"
    using p(1,2) by (auto simp: digital_end_def digital_next_end_def Let_def shutdown_ec_def shutdown_def has_or flag_simps
        split: option.splits if_splits)
  have "has f DF_TOGGLING \<or> has f DF_ON \<noteq> has (do_flags (dout_of s a)) DF_DEFAULT_ON"
    using assms(4) nd n(2,3) by (simp add: away_def fl p(5) has_or flag_simps)
  then have "has f DF_CHECK_END" "e = waketime_of s (MemT a) + do_max_duration (dout_of s a)"
    using digital_end_deadline [OF p(1) assms(3)] by simp_all
  with n(4) start_guarded [OF p(3)] assms(2) p(4)
  show "r = SF_RESCHEDULE" "guarded a s'"
    "\<not> timer_is_before (waketime_of s (MemT a) + do_max_duration (dout_of s a)) (do_end_time (dout_of s' a))"
    by simp_all
qed

lemma toggle_guarded:
  assumes "guarded a s" "digital_toggle_event a s = Ret r s'"
  shows "r = SF_RESCHEDULE" "guarded a s'" "do_end_time (dout_of s' a) = do_end_time (dout_of s a)"
    "do_max_duration (dout_of s' a) = do_max_duration (dout_of s a)"
proof -
  have x: "has (f XOR DF_ON) DF_CHECK_END = has f DF_CHECK_END" for f
    by (simp add: has_def bit.conj_xor_distrib2 DF_ON_def DF_CHECK_END_def)
  show "r = SF_RESCHEDULE" "guarded a s'" "do_end_time (dout_of s' a) = do_end_time (dout_of s a)"
    "do_max_duration (dout_of s' a) = do_max_duration (dout_of s a)"
    using assms by (auto simp: digital_toggle_event_def guarded_def x Let_def split: if_splits)
qed

section \<open>Shutdown\<close>

text \<open>What shutdown does to one output; \<open>safe\<close> is the result.\<close>

definition shut_output :: "nat \<Rightarrow> 'z digital_scheme \<Rightarrow> 'z digital_scheme" where
  "shut_output a s =
     (let s = gpio_out_write (do_pin (dout_of s a)) (ucast (do_flags (dout_of s a) AND DF_DEFAULT_ON)) s;
          s = upd_do a (\<lambda>x. x\<lparr>do_flags := if has (do_flags x) DF_DEFAULT_ON then DF_ON OR DF_DEFAULT_ON else 0\<rparr>) s
      in upd_do a (\<lambda>x. x\<lparr>do_mq := move_queue_clear (do_mq x)\<rparr>) s)"

definition safe :: "digital_out_s \<Rightarrow> nat \<Rightarrow> 'z digital_scheme \<Rightarrow> bool" where
  "safe d a s \<longleftrightarrow> pin_level (do_pin d) s = has (do_flags d) DF_DEFAULT_ON \<and> do_pin (dout_of s a) = do_pin d \<and>
     \<not> away (dout_of s a) \<and> move_queue_empty (do_mq (dout_of s a))"

lemma each_fold: "each (\<lambda>x s. Ret () (f x s)) xs s = Ret () (fold f xs s)"
  by (induction xs arbitrary: s) simp_all

lemma pin_level_upd_do: "pin_level g (s\<lparr>dig := d\<rparr>) = pin_level g s"
  by (simp add: pin_level_def)

lemma default_on_word: "(ucast (f AND DF_DEFAULT_ON :: u8) :: u32) \<noteq> 0 \<longleftrightarrow> has f DF_DEFAULT_ON"
proof -
  have "(ucast (x::u8) :: u32) = 0 \<longleftrightarrow> x = 0" for x
    using unat_u8 [of x] by (auto simp: word_unat_eq_iff unsigned_ucast_eq take_bit_nat_eq_self)
  then show ?thesis
    by (simp add: has_def)
qed

lemma shut_output_safe:
  assumes "pin_ok (do_pin (dout_of s a))"
  shows "safe (dout_of s a) a (shut_output a s)"
  using assms default_on_word [of "do_flags (dout_of s a)"]
  by (simp add: safe_def shut_output_def pin_level_upd_do gpio_out_write_level away_def has_or flag_simps
      move_queue_empty_def move_queue_clear_def Let_def)

lemma shut_output_other:
  assumes "b \<noteq> a" "pin_ok (do_pin d)" "pin_ok (do_pin (dout_of s b))"
    and "\<not> (gp_regs (do_pin d) = gp_regs (do_pin (dout_of s b)) \<and> gp_bit (do_pin d) = gp_bit (do_pin (dout_of s b)))"
  shows "dout_of (shut_output b s) a = dout_of s a" "safe d a s \<Longrightarrow> safe d a (shut_output b s)"
  using assms by (auto simp: safe_def shut_output_def pin_level_upd_do gpio_out_write_level Let_def)

text \<open>The configured outputs use different valid pins.\<close>

definition own_pins :: "nat list \<Rightarrow> 'z digital_scheme \<Rightarrow> bool" where
  "own_pins as s \<longleftrightarrow> distinct as \<and> (\<forall>a \<in> set as. pin_ok (do_pin (dout_of s a))) \<and>
     inj_on (\<lambda>a. (gp_regs (do_pin (dout_of s a)), gp_bit (do_pin (dout_of s a)))) (set as)"

lemma shut_output_pin [simp]: "do_pin (dout_of (shut_output b s) c) = do_pin (dout_of s c)"
  by (cases "c = b") (simp_all add: shut_output_def Let_def)

lemma own_pins_shut [simp]: "own_pins as (shut_output b s) = own_pins as s"
  by (simp add: own_pins_def)

lemma own_pins_differ:
  assumes "own_pins as s" "a \<in> set as" "b \<in> set as" "b \<noteq> a"
  shows "\<not> (gp_regs (do_pin (dout_of s a)) = gp_regs (do_pin (dout_of s b)) \<and> gp_bit (do_pin (dout_of s a)) = gp_bit (do_pin (dout_of s b)))"
  using assms by (auto simp: own_pins_def dest: inj_onD)

lemma shut_others_safe:
  assumes "own_pins as s" "a \<in> set as" "set bs \<subseteq> set as - {a}" "safe d a s"
  shows "safe d a (fold shut_output bs s)"
  using assms
proof (induction bs arbitrary: s)
  case (Cons b bs)
  have d: "do_pin (dout_of s a) = do_pin d"
    using Cons.prems(4) by (simp add: safe_def)
  have "safe d a (shut_output b s)"
    by (rule shut_output_other(2)) (use Cons.prems own_pins_differ [OF Cons.prems(1,2), of b] d in \<open>auto simp: own_pins_def\<close>)
  then show ?case
    using Cons.prems Cons.IH [of "shut_output b s"] by simp
qed simp

lemma shut_outputs_safe:
  assumes "own_pins as s" "a \<in> set as"
  shows "safe (dout_of s a) a (fold shut_output as s)"
proof -
  obtain us vs where as: "as = us @ a # vs"
    using assms(2) by (auto simp: in_set_conv_decomp)
  have keep: "own_pins as (fold shut_output cs t) = own_pins as t" for cs and t :: "'a digital_scheme"
    by (induction cs arbitrary: t) simp_all
  have same: "dout_of (fold shut_output cs t) a = dout_of t a" if "a \<notin> set cs" for cs and t :: "'a digital_scheme"
    using that by (induction cs arbitrary: t) (simp_all add: shut_output_def Let_def)
  have nin: "a \<notin> set us" "a \<notin> set vs" "set vs \<subseteq> set as - {a}"
    using assms(1) by (auto simp: own_pins_def as)
  let ?t = "fold shut_output us s"
  have "pin_ok (do_pin (dout_of ?t a))"
    using assms same [OF nin(1)] by (simp add: own_pins_def)
  then have "safe (dout_of s a) a (shut_output a ?t)"
    using shut_output_safe [of ?t a] same [OF nin(1)] by simp
  then have "safe (dout_of s a) a (fold shut_output vs (shut_output a ?t))"
    by (rule shut_others_safe [OF _ assms(2) nin(3), rotated]) (use assms(1) keep in simp)
  then show ?thesis
    by (simp add: as)
qed

section \<open>Properties\<close>

definition toggle_step :: "nat \<Rightarrow> 'z digital_scheme \<Rightarrow> 'z digital_scheme \<Rightarrow> bool" where
  "toggle_step a s s' \<longleftrightarrow> digital_toggle_event a s = Ret SF_RESCHEDULE s'"

lemma toggles_guarded:
  "(toggle_step a)\<^sup>*\<^sup>* s s' \<Longrightarrow> guarded a s \<Longrightarrow> guarded a s' \<and> do_end_time (dout_of s' a) = do_end_time (dout_of s a)"
  by (induction rule: rtranclp_induct) (auto simp: toggle_step_def dest: toggle_guarded)


text \<open>An output at address 96 that is to be switched on at clock 0, with a maximum duration of 1000 ticks.\<close>

definition one_output :: digital where
  "one_output = (let s = digital_static (quiet_env 0) 0 0 ();
       s = set_func (MemT 96) F_digital_load_event s;
       s = s\<lparr>dig := (dig s)\<lparr>dmoves := upd (dmoves (dig s)) 200 (\<lambda>_. \<lparr>dm_waketime = 0, dm_on_duration = 1\<rparr>)\<rparr>\<rparr>
     in upd_do 96 (\<lambda>x. x\<lparr>do_max_duration := 1000, do_pin := \<lparr>gp_regs = 0x40010800, gp_bit = 2\<rparr>,
          do_mq := \<lparr>first = Some 200, mlast = Some 200\<rparr>\<rparr>) s)"

lemma one_output_sel:
  "timers one_output (MemT 96) = \<lparr>nxt = None, func = F_digital_load_event, waketime = 0\<rparr>" "mnext one_output 200 = None"
  "dmove_of one_output 200 = \<lparr>dm_waketime = 0, dm_on_duration = 1\<rparr>"
  "dout_of one_output 96 = digital_out_zero\<lparr>do_max_duration := 1000, do_pin := \<lparr>gp_regs = 0x40010800, gp_bit = 2\<rparr>,
     do_mq := \<lparr>first = Some 200, mlast = Some 200\<rparr>\<rparr>"
  by (simp_all add: one_output_def Let_def digital_static_def endstops_static_def eddy_static_def steppers_static_def
      trsyncs_static_def timer_irq_static_def serial_static_def command_static_def base_static_def sched_static_def
      board_static_def timers_static_def)

lemma one_output_load:
  obtains s1 where "digital_load_event 96 one_output = Ret SF_RESCHEDULE s1" "away (dout_of s1 96)"
proof -
  have "\<exists>s1. digital_load_event 96 one_output = Ret SF_RESCHEDULE s1 \<and> do_flags (dout_of s1 96) = DF_ON OR DF_CHECK_END"
    by (simp add: digital_load_event_def one_output_sel digital_out_zero_def move_queue_empty_def move_queue_pop_def
        digital_end_def digital_next_end_def digital_start_def move_queue_first_def flag_simps has_or Let_def)
  then show ?thesis
    using that by (auto simp: away_def has_or flag_simps)
qed



text \<open>The same output, registered as object 0.\<close>

definition output_object :: digital where
  "output_object = one_output\<lparr>oid_count := 1, oids := (\<lambda>_. \<lparr>otype = Some T_config_digital_out, odata = 96\<rparr>)\<rparr>"

lemma output_object_list: "oid_list (- 1) T_config_digital_out output_object = [(0, 96)]"
  by (simp add: oid_list_filter output_object_def)


end
