(* ===== verification/Pwm.thy ===== *)
theory Pwm
  imports Digital_Out
begin

text \<open>
  \<^verbatim>\<open>src/klipper/src/pwmcmds.c\<close> and \<^verbatim>\<open>stm32/hard_pwm.c\<close>: hardware PWM outputs. On this board
  \<open>gpio_pwm_setup\<close> and \<open>gpio_pwm_write\<close> do nothing; the queueing of updates and the \<open>max_duration\<close>
  limit are in place.
\<close>

section \<open>State\<close>

record gpio_pwm =
  pwm_reg :: u32

record pwm_out_s =
  po_pin :: gpio_pwm
  po_max_duration :: u32
  po_default_value :: u16
  po_mq :: move_queue_head

record pwm_move =
  pm_waketime :: u32
  pm_value :: u16

record pwm_state =
  pouts :: "nat \<Rightarrow> pwm_out_s"
  pmoves :: "nat \<Rightarrow> pwm_move"

record pwm = digital +
  pwms :: pwm_state

definition pwm_out_zero :: pwm_out_s where
  "pwm_out_zero = \<lparr>po_pin = \<lparr>pwm_reg = 0\<rparr>, po_max_duration = 0, po_default_value = 0,
     po_mq = \<lparr>first = None, mlast = None\<rparr>\<rparr>"

definition pwm_static :: "(nat \<Rightarrow> env) \<Rightarrow> nat \<Rightarrow> nat \<Rightarrow> 'z \<Rightarrow> 'z pwm_scheme" where
  "pwm_static ev start end m = digital_static ev start end (pwm_ext
     \<lparr>pouts = (\<lambda>_. pwm_out_zero), pmoves = (\<lambda>_. \<lparr>pm_waketime = 0, pm_value = 0\<rparr>)\<rparr> m)"

abbreviation pout_of :: "'z pwm_scheme \<Rightarrow> nat \<Rightarrow> pwm_out_s" where
  "pout_of s a \<equiv> pouts (pwms s) a"

abbreviation pmove_of :: "'z pwm_scheme \<Rightarrow> nat \<Rightarrow> pwm_move" where
  "pmove_of s m \<equiv> pmoves (pwms s) m"

abbreviation upd_po :: "nat \<Rightarrow> (pwm_out_s \<Rightarrow> pwm_out_s) \<Rightarrow> 'z pwm_scheme \<Rightarrow> 'z pwm_scheme" where
  "upd_po a f s \<equiv> s\<lparr>pwms := (pwms s)\<lparr>pouts := upd (pouts (pwms s)) a f\<rparr>\<rparr>"

abbreviation upd_pmove :: "nat \<Rightarrow> (pwm_move \<Rightarrow> pwm_move) \<Rightarrow> 'z pwm_scheme \<Rightarrow> 'z pwm_scheme" where
  "upd_pmove m f s \<equiv> s\<lparr>pwms := (pwms s)\<lparr>pmoves := upd (pmoves (pwms s)) m f\<rparr>\<rparr>"

section \<open>Board functions\<close>

definition gpio_pwm_setup :: "u8 \<Rightarrow> u32 \<Rightarrow> u8 \<Rightarrow> gpio_pwm" where
  "gpio_pwm_setup pin cycle_time val = \<lparr>pwm_reg = 0\<rparr>"

definition gpio_pwm_write :: "gpio_pwm \<Rightarrow> u32 \<Rightarrow> 's \<Rightarrow> 's" where
  "gpio_pwm_write g val s = s"

section \<open>Timer callbacks\<close>

definition pwm_end_event :: "nat \<Rightarrow> 'z pwm_scheme \<Rightarrow> (sf, 'z pwm_scheme) res" where
  "pwm_end_event a s =
     shutdown_ec FF_EC_PWM_MISSED_EVENT ''Missed scheduling of next hard pwm event'' s"

definition pwm_event :: "nat \<Rightarrow> 'z pwm_scheme \<Rightarrow> (sf, 'z pwm_scheme) res" where
  "pwm_event a s =
     bind (move_queue_pop (po_mq (pout_of s a)) s) (\<lambda>(m, mh) s.
       let s = upd_po a (\<lambda>x. x\<lparr>po_mq := mh\<rparr>) s;
           val = pm_value (pmove_of s m);
           s = gpio_pwm_write (po_pin (pout_of s a)) (ucast val) s;
           s = move_free m s;
           p = pout_of s a
       in case move_queue_first (po_mq p) of
            None \<Rightarrow>
              if val = po_default_value p \<or> po_max_duration p = 0 then Ret SF_DONE s
              else let s = set_waketime (MemT a) (waketime_of s (MemT a) + po_max_duration p) s
                   in Ret SF_RESCHEDULE (set_func (MemT a) F_pwm_end_event s)
          | Some nn \<Rightarrow>
              let wake = pm_waketime (pmove_of s nn)
              in if val \<noteq> po_default_value p \<and> po_max_duration p \<noteq> 0 \<and>
                    timer_is_before (waketime_of s (MemT a) + po_max_duration p) wake
                 then shutdown_ec FF_EC_PWM_MAX_DURATION ''Scheduled pwm event will exceed max_duration'' s
                 else Ret SF_RESCHEDULE (set_waketime (MemT a) wake s))"

section \<open>Commands\<close>

definition command_config_pwm_out :: "u32 list \<Rightarrow> 'z pwm_scheme \<Rightarrow> (unit, 'z pwm_scheme) res" where
  "command_config_pwm_out args s =
     (let pin = gpio_pwm_setup (ucast (args ! 1)) (args ! 2) (ucast (args ! 3)) in
      bind (oid_alloc (ucast (args ! 0)) T_config_pwm_out 32 s) (\<lambda>a s.
        let s = upd_po a (\<lambda>_. pwm_out_zero) (s\<lparr>timers := (timers s)(MemT a := timer_zero)\<rparr>);
            s = upd_po a (\<lambda>x. x\<lparr>po_pin := pin, po_default_value := ucast (args ! 4), po_max_duration := args ! 5\<rparr>) s;
            s = set_func (MemT a) F_pwm_event s
        in bind (move_queue_setup 12 s) (\<lambda>mh s. Ret () (upd_po a (\<lambda>x. x\<lparr>po_mq := mh\<rparr>) s))))"

definition command_queue_pwm_out :: "u32 list \<Rightarrow> 'z pwm_scheme \<Rightarrow> (unit, 'z pwm_scheme) res" where
  "command_queue_pwm_out args s =
     bind (oid_lookup (ucast (args ! 0)) T_config_pwm_out s) (\<lambda>a s.
     bind (move_alloc s) (\<lambda>m s.
       let s = upd_pmove m (\<lambda>x. x\<lparr>pm_waketime := args ! 1, pm_value := ucast (args ! 2)\<rparr>) s;
           (need_add_timer, mh, s) = move_queue_push m (po_mq (pout_of s a)) s;
           s = upd_po a (\<lambda>x. x\<lparr>po_mq := mh\<rparr>) s
       in if \<not> need_add_timer then Ret () s
          else bind (sched_del_timer (MemT a) s) (\<lambda>_ s.
                 if func (timers s (MemT a)) = F_pwm_end_event \<and>
                    timer_is_before (waketime_of s (MemT a)) (pm_waketime (pmove_of s m))
                 then shutdown_ec FF_EC_PWM_QUEUE_MAX_DURATION ''Scheduled pwm event will exceed max_duration'' s
                 else let s = set_func (MemT a) F_pwm_event s;
                          s = set_waketime (MemT a) (pm_waketime (pmove_of s m)) s
                      in sched_add_timer (MemT a) FF_TIMER_PWM_QUEUE s)))"

definition pwm_shutdown :: "'z pwm_scheme \<Rightarrow> (unit, 'z pwm_scheme) res" where
  "pwm_shutdown s =
     foreach_oid T_config_pwm_out (\<lambda>_ a s.
       let s = gpio_pwm_write (po_pin (pout_of s a)) (ucast (po_default_value (pout_of s a))) s;
           s = set_func (MemT a) F_pwm_event s
       in Ret () (upd_po a (\<lambda>x. x\<lparr>po_mq := move_queue_clear (po_mq x)\<rparr>) s)) s"

definition command_set_pwm_out :: "u32 list \<Rightarrow> 's \<Rightarrow> (unit, 's) res" where
  "command_set_pwm_out args s =
     (let _ = gpio_pwm_setup (ucast (args ! 0)) (args ! 1) (ucast (args ! 2)) in Ret () s)"

end
