(* ===== verification/Adc.thy ===== *)
theory Adc
  imports Pwm
begin

text \<open>
  \<^verbatim>\<open>src/klipper/src/adccmds.c\<close> and \<^verbatim>\<open>stm32/n32g45x_adc.c\<close>: analog inputs. On this board
  \<open>gpio_adc_sample\<close> always asks to be called again. The part of \<open>analog_in_event\<close> behind a
  finished conversion is \<open>analog_in_sampled\<close>, for any value of the converter.
\<close>

section \<open>State\<close>

record gpio_adc =
  adc_adc :: u32
  adc_chan :: u32

record analog_in =
  ai_rest_time :: u32
  ai_sample_time :: u32
  next_begin_time :: u32
  ai_value :: u16
  min_value :: u16
  max_value :: u16
  ai_pin :: gpio_adc
  invalid_count :: u8
  range_check_count :: u8
  ai_state :: u8
  ai_sample_count :: u8

record analog_state =
  ains :: "nat \<Rightarrow> analog_in"
  analog_in_value :: u16
  temperature_on :: bool

record analog = pwm +
  ana :: analog_state

definition analog_in_zero :: analog_in where
  "analog_in_zero = \<lparr>ai_rest_time = 0, ai_sample_time = 0, next_begin_time = 0, ai_value = 0, min_value = 0,
     max_value = 0, ai_pin = \<lparr>adc_adc = 0, adc_chan = 0\<rparr>, invalid_count = 0, range_check_count = 0,
     ai_state = 0, ai_sample_count = 0\<rparr>"

definition analog_static :: "(nat \<Rightarrow> env) \<Rightarrow> nat \<Rightarrow> nat \<Rightarrow> 'z \<Rightarrow> 'z analog_scheme" where
  "analog_static ev start end m = pwm_static ev start end (analog_ext
     \<lparr>ains = (\<lambda>_. analog_in_zero), analog_in_value = 0, temperature_on = False\<rparr> m)"

abbreviation ain_of :: "'z analog_scheme \<Rightarrow> nat \<Rightarrow> analog_in" where
  "ain_of s a \<equiv> ains (ana s) a"

abbreviation upd_ai :: "nat \<Rightarrow> (analog_in \<Rightarrow> analog_in) \<Rightarrow> 'z analog_scheme \<Rightarrow> 'z analog_scheme" where
  "upd_ai a f s \<equiv> s\<lparr>ana := (ana s)\<lparr>ains := upd (ains (ana s)) a f\<rparr>\<rparr>"

section \<open>Board functions\<close>

definition ADC_TEMPERATURE_PIN :: u32 where "ADC_TEMPERATURE_PIN = 0xfe"

text \<open>\<open>GPIO('D', 1)\<close> is 3 * 16 + 1.\<close>

definition adc_pins :: "u32 list" where
  "adc_pins = [0, 49, 50, 51, 0, 0, 0, 0, 0, 0, 0, 0, 0, ADC_TEMPERATURE_PIN, 0, 0]"

definition gpio_adc_setup :: "u32 \<Rightarrow> 'z analog_scheme \<Rightarrow> (gpio_adc, 'z analog_scheme) res" where
  "gpio_adc_setup pin s =
     (case find (\<lambda>chan. adc_pins ! chan = pin) [0..<length adc_pins] of
        None \<Rightarrow> shutdown ''Not a valid ADC pin'' s
      | Some chan \<Rightarrow>
          bind (udelay 10 s) (\<lambda>_ s.
            let s = (if pin = ADC_TEMPERATURE_PIN then s\<lparr>ana := (ana s)\<lparr>temperature_on := True\<rparr>\<rparr> else s)
            in Ret \<lparr>adc_adc = 0, adc_chan = of_nat chan\<rparr> s))"

definition gpio_adc_sample :: "gpio_adc \<Rightarrow> u32" where
  "gpio_adc_sample g = timer_from_us 20"

definition gpio_adc_read :: "gpio_adc \<Rightarrow> u16" where
  "gpio_adc_read g = 0"

definition gpio_adc_cancel_sample :: "gpio_adc \<Rightarrow> 's \<Rightarrow> 's" where
  "gpio_adc_cancel_sample g s = s"

section \<open>Timer callback\<close>

definition analog_in_sampled :: "nat \<Rightarrow> u16 \<Rightarrow> 'z analog_scheme \<Rightarrow> (sf, 'z analog_scheme) res" where
  "analog_in_sampled a val s =
     (let state = ai_state (ain_of s a);
          (state, val) = (if state \<ge> ai_sample_count (ain_of s a) then (0, val)
                          else (state, val + ai_value (ain_of s a)));
          s = upd_ai a (\<lambda>x. x\<lparr>ai_value := val, ai_state := state + 1\<rparr>) s
      in if ai_state (ain_of s a) < ai_sample_count (ain_of s a)
         then Ret SF_RESCHEDULE (set_waketime (MemT a) (waketime_of s (MemT a) + ai_sample_time (ain_of s a)) s)
         else bind
           (if ai_value (ain_of s a) \<ge> min_value (ain_of s a) \<and> ai_value (ain_of s a) \<le> max_value (ain_of s a)
            then Ret () (upd_ai a (\<lambda>x. x\<lparr>invalid_count := 0\<rparr>) s)
            else let s = upd_ai a (\<lambda>x. x\<lparr>invalid_count := invalid_count x + 1\<rparr>) s
                 in if invalid_count (ain_of s a) \<ge> range_check_count (ain_of s a)
                    then bind (sched_try_shutdown ''ADC out of range'' s) (\<lambda>_ s.
                           Ret () (upd_ai a (\<lambda>x. x\<lparr>invalid_count := 0\<rparr>) s))
                    else Ret () s) (\<lambda>_ s.
           let s = sched_wake_task analog_wake s;
               s = upd_ai a (\<lambda>x. x\<lparr>next_begin_time := next_begin_time x + ai_rest_time x\<rparr>) s
           in Ret SF_RESCHEDULE (set_waketime (MemT a) (next_begin_time (ain_of s a)) s)))"

definition analog_in_event :: "nat \<Rightarrow> 'z analog_scheme \<Rightarrow> (sf, 'z analog_scheme) res" where
  "analog_in_event a s =
     (let sample_delay = gpio_adc_sample (ai_pin (ain_of s a)) in
      if sample_delay \<noteq> 0
      then Ret SF_RESCHEDULE (set_waketime (MemT a) (waketime_of s (MemT a) + sample_delay) s)
      else analog_in_sampled a (gpio_adc_read (ai_pin (ain_of s a))) s)"

section \<open>Commands\<close>

definition command_config_analog_in :: "u32 list \<Rightarrow> 'z analog_scheme \<Rightarrow> (unit, 'z analog_scheme) res" where
  "command_config_analog_in args s =
     bind (gpio_adc_setup (args ! 1) s) (\<lambda>pin s.
     bind (oid_alloc (ucast (args ! 0)) T_config_analog_in 44 s) (\<lambda>a s.
       let s = upd_ai a (\<lambda>_. analog_in_zero) (s\<lparr>timers := (timers s)(MemT a := timer_zero)\<rparr>);
           s = set_func (MemT a) F_analog_in_event s
       in Ret () (upd_ai a (\<lambda>x. x\<lparr>ai_pin := pin, ai_state := 1\<rparr>) s)))"

definition command_query_analog_in :: "u32 list \<Rightarrow> 'z analog_scheme \<Rightarrow> (unit, 'z analog_scheme) res" where
  "command_query_analog_in args s =
     bind (oid_lookup (ucast (args ! 0)) T_config_analog_in s) (\<lambda>a s.
     bind (sched_del_timer (MemT a) s) (\<lambda>_ s.
       let s = gpio_adc_cancel_sample (ai_pin (ain_of s a)) s;
           s = upd_ai a (\<lambda>x. x\<lparr>next_begin_time := args ! 1\<rparr>) s;
           s = set_waketime (MemT a) (next_begin_time (ain_of s a)) s;
           s = upd_ai a (\<lambda>x. x\<lparr>ai_sample_time := args ! 2, ai_sample_count := ucast (args ! 3)\<rparr>) s;
           s = upd_ai a (\<lambda>x. x\<lparr>ai_state := ai_sample_count x + 1, ai_rest_time := args ! 4,
                 min_value := ucast (args ! 5), max_value := ucast (args ! 6),
                 range_check_count := ucast (args ! 7)\<rparr>) s
       in if ai_sample_count (ain_of s a) = 0 then Ret () s
          else sched_add_timer (MemT a) FF_TIMER_ANALOG_QUERY s))"

definition analog_in_task :: "'z analog_scheme \<Rightarrow> (unit, 'z analog_scheme) res" where
  "analog_in_task s =
     (let (woken, s) = sched_check_wake analog_wake s in
      if \<not> woken then Ret () s
      else foreach_oid T_config_analog_in (\<lambda>oid a s.
             if ai_state (ain_of s a) \<noteq> ai_sample_count (ain_of s a) then Ret () s
             else let val = ai_value (ain_of s a);
                      begin_time = next_begin_time (ain_of s a);
                      s = upd_ai a (\<lambda>x. x\<lparr>ai_state := ai_state x + 1\<rparr>) s;
                      s = s\<lparr>ana := (ana s)\<lparr>analog_in_value := val\<rparr>\<rparr>
                  in Ret () (sendf ''analog_in_state oid=%c next_clock=%u value=%hu''
                       [U (ucast oid), U begin_time, U (ucast val)] s)) s)"

definition analog_in_shutdown :: "'z analog_scheme \<Rightarrow> (unit, 'z analog_scheme) res" where
  "analog_in_shutdown s =
     foreach_oid T_config_analog_in (\<lambda>_ a s.
       let s = gpio_adc_cancel_sample (ai_pin (ain_of s a)) s
       in if ai_sample_count (ain_of s a) \<noteq> 0
          then let s = upd_ai a (\<lambda>x. x\<lparr>ai_state := ai_sample_count x + 1,
                         next_begin_time := next_begin_time x + ai_rest_time x\<rparr>) s;
                   s = set_waketime (MemT a) (next_begin_time (ain_of s a)) s
               in sched_add_timer (MemT a) FF_TIMER_UNTAGGED s
          else Ret () s) s"

end
