(* ===== verification/Buttons.thy ===== *)
theory Buttons
  imports Adc
begin

text \<open>
  \<^verbatim>\<open>src/klipper/src/buttons.c\<close>: debounced buttons whose changes are reported to the host until it
  acknowledges them. The timer of the object at address \<open>a\<close> is \<open>MemT a\<close>.
\<close>

section \<open>State\<close>

record buttons =
  b_rest_ticks :: u32
  b_pressed :: u8
  b_last_pressed :: u8
  b_report_count :: u8
  b_reports :: "u8 list"
  b_ack_count :: u8
  b_retransmit_state :: u8
  b_retransmit_count :: u8
  b_button_count :: u8
  b_pins :: "gpio_pin list"

record buttons_c = analog +
  btns :: "nat \<Rightarrow> buttons"

definition BF_NO_RETRANSMIT :: u8 where "BF_NO_RETRANSMIT = 0x80"
definition BF_PENDING :: u8 where "BF_PENDING = 0xff"
definition BF_ACKED :: u8 where "BF_ACKED = 0xfe"

definition REPORTS_SIZE :: nat where "REPORTS_SIZE = 8"

definition buttons_zero :: "nat \<Rightarrow> buttons" where
  "buttons_zero n = \<lparr>b_rest_ticks = 0, b_pressed = 0, b_last_pressed = 0, b_report_count = 0,
     b_reports = replicate REPORTS_SIZE 0, b_ack_count = 0, b_retransmit_state = 0, b_retransmit_count = 0,
     b_button_count = 0, b_pins = replicate n no_pin\<rparr>"

definition buttons_static :: "(nat \<Rightarrow> env) \<Rightarrow> nat \<Rightarrow> nat \<Rightarrow> 'z \<Rightarrow> 'z buttons_c_scheme" where
  "buttons_static ev start end m = analog_static ev start end (buttons_c_ext (\<lambda>_. buttons_zero 0) m)"

abbreviation upd_btn :: "nat \<Rightarrow> (buttons \<Rightarrow> buttons) \<Rightarrow> 'z buttons_c_scheme \<Rightarrow> 'z buttons_c_scheme" where
  "upd_btn a f s \<equiv> s\<lparr>btns := upd (btns s) a f\<rparr>"

section \<open>Timer callback\<close>

text \<open>The loop that reads the pins.\<close>

primrec read_pins :: "gpio_pin list \<Rightarrow> u8 \<Rightarrow> u8 \<Rightarrow> 'z board_scheme \<Rightarrow> u8 \<times> 'z board_scheme" where
  "read_pins [] b status s = (status, s)"
| "read_pins (p # ps) b status s =
     (let (val, s) = gpio_in_read p s
      in read_pins ps (push_bit 1 b) (if val then status OR b else status) s)"

text \<open>
  The debouncing of one reading \<open>status\<close>: whether there is a new report, and the new state. A
  change that finds all eight report slots taken is not reported.
\<close>

definition buttons_debounce :: "u8 \<Rightarrow> buttons \<Rightarrow> bool \<times> buttons" where
  "buttons_debounce status b =
     (let diff = status XOR b_pressed b;
          debounced = NOT (status XOR b_last_pressed b);
          (wakeup, b) =
            (if diff AND debounced \<noteq> 0
             then let b = b\<lparr>b_pressed := (b_pressed b AND NOT debounced) OR (status AND debounced)\<rparr>
                  in if unat (b_report_count b) < REPORTS_SIZE
                     then (True, b\<lparr>b_reports := (b_reports b)[unat (b_report_count b) := b_pressed b],
                                   b_report_count := b_report_count b + 1, b_retransmit_state := BF_PENDING\<rparr>)
                     else (False, b)
             else (False, b))
      in (wakeup, b\<lparr>b_last_pressed := status\<rparr>))"

text \<open>The countdown to a retransmission; a state with the top bit set is not counted down.\<close>

definition buttons_retransmit :: "buttons \<Rightarrow> bool \<times> buttons" where
  "buttons_retransmit b =
     (if has (b_retransmit_state b) BF_NO_RETRANSMIT then (False, b)
      else let st = b_retransmit_state b - 1
           in (has st BF_NO_RETRANSMIT, b\<lparr>b_retransmit_state := st\<rparr>))"

definition buttons_event :: "nat \<Rightarrow> 'z buttons_c_scheme \<Rightarrow> (sf, 'z buttons_c_scheme) res" where
  "buttons_event a s =
     (let (status, s) = read_pins (take (unat (b_button_count (btns s a))) (b_pins (btns s a))) 1 0 s;
          (wakeup, b) = buttons_debounce status (btns s a);
          s = upd_btn a (\<lambda>_. b) s;
          s = (if wakeup then sched_wake_task buttons_wake s else s);
          (wakeup, b) = buttons_retransmit (btns s a);
          s = (if wakeup then sched_wake_task buttons_wake s else s);
          s = upd_btn a (\<lambda>_. b) s
      in Ret SF_RESCHEDULE (set_waketime (MemT a) (waketime_of s (MemT a) + b_rest_ticks (btns s a)) s))"

section \<open>Commands\<close>

definition command_config_buttons :: "u32 list \<Rightarrow> 'z buttons_c_scheme \<Rightarrow> (unit, 'z buttons_c_scheme) res" where
  "command_config_buttons args s =
     (let button_count = ucast (args ! 1) :: u8 in
      if button_count > 8 then shutdown_ec FF_EC_TOO_MANY_BUTTONS ''Max of 8 buttons'' s
      else bind (oid_alloc (ucast (args ! 0)) T_config_buttons (32 + 8 * unat button_count) s) (\<lambda>a s.
        let s = upd_btn a (\<lambda>_. buttons_zero (unat button_count)) (s\<lparr>timers := (timers s)(MemT a := timer_zero)\<rparr>);
            s = upd_btn a (\<lambda>x. x\<lparr>b_button_count := button_count\<rparr>) s
        in Ret () (set_func (MemT a) F_buttons_event s)))"

definition command_buttons_add :: "u32 list \<Rightarrow> 'z buttons_c_scheme \<Rightarrow> (unit, 'z buttons_c_scheme) res" where
  "command_buttons_add args s =
     bind (oid_lookup (ucast (args ! 0)) T_config_buttons s) (\<lambda>a s.
       let pos = ucast (args ! 1) :: u8
       in if pos \<ge> b_button_count (btns s a)
          then shutdown_ec FF_EC_BUTTON_OUT_OF_RANGE ''Set button past maximum button count'' s
          else bind (gpio_in_setup (args ! 2) (args ! 3) s) (\<lambda>g s.
                 Ret () (upd_btn a (\<lambda>x. x\<lparr>b_pins := (b_pins x)[unat pos := g]\<rparr>) s)))"

definition command_buttons_query :: "u32 list \<Rightarrow> 'z buttons_c_scheme \<Rightarrow> (unit, 'z buttons_c_scheme) res" where
  "command_buttons_query args s =
     bind (oid_lookup (ucast (args ! 0)) T_config_buttons s) (\<lambda>a s.
     bind (sched_del_timer (MemT a) s) (\<lambda>_ s.
       let s = set_waketime (MemT a) (args ! 1) s;
           s = upd_btn a (\<lambda>x. x\<lparr>b_rest_ticks := args ! 2, b_pressed := ucast (args ! 4),
                 b_last_pressed := ucast (args ! 4), b_ack_count := 0, b_report_count := 0,
                 b_retransmit_state := BF_ACKED, b_retransmit_count := ucast (args ! 3)\<rparr>) s
       in if b_retransmit_count (btns s a) \<ge> BF_NO_RETRANSMIT
          then shutdown_ec FF_EC_BUTTON_RETRANSMIT_COUNT ''Invalid buttons retransmit count'' s
          else if b_rest_ticks (btns s a) = 0 then Ret () s
          else sched_add_timer (MemT a) FF_TIMER_BUTTONS_QUERY s))"

text \<open>The loop that moves the reports that are not acknowledged to the front.\<close>

definition buttons_ack :: "u8 \<Rightarrow> buttons \<Rightarrow> buttons" where
  "buttons_ack count b =
     (let b = b\<lparr>b_ack_count := b_ack_count b + count\<rparr>
      in if count \<ge> b_report_count b then b\<lparr>b_report_count := 0, b_retransmit_state := BF_ACKED\<rparr>
         else let pending = b_report_count b - count
              in b\<lparr>b_reports := fold (\<lambda>i r. r[i := r ! (i + unat count)]) [0..<unat pending] (b_reports b),
                   b_report_count := pending\<rparr>)"

definition command_buttons_ack :: "u32 list \<Rightarrow> 'z buttons_c_scheme \<Rightarrow> (unit, 'z buttons_c_scheme) res" where
  "command_buttons_ack args s =
     bind (oid_lookup (ucast (args ! 0)) T_config_buttons s) (\<lambda>a s.
       Ret () (upd_btn a (buttons_ack (ucast (args ! 1))) s))"

definition buttons_task :: "'z buttons_c_scheme \<Rightarrow> (unit, 'z buttons_c_scheme) res" where
  "buttons_task s =
     (let (woken, s) = sched_check_wake buttons_wake s in
      if \<not> woken then Ret () s
      else foreach_oid T_config_buttons (\<lambda>oid a s.
             if b_retransmit_state (btns s a) \<noteq> BF_PENDING then Ret () s
             else let report_count = b_report_count (btns s a)
                  in if report_count = 0 then Ret () s
                     else let s = upd_btn a (\<lambda>x. x\<lparr>b_retransmit_state := b_retransmit_count x\<rparr>) s
                          in Ret () (sendf ''buttons_state oid=%c ack_count=%c state=%*s''
                               [U (ucast oid), U (ucast (b_ack_count (btns s a))),
                                Bytes (take (unat report_count) (b_reports (btns s a)))] s)) s)"

end
