(* ===== verification/Pulse_Counter.thy ===== *)
theory Pulse_Counter
  imports Buttons
begin

text \<open>
  \<^verbatim>\<open>src/klipper/src/pulse_counter.c\<close>: counting of edges on an input pin by polling. The timer of the
  counter at address \<open>a\<close> is \<open>MemT a\<close>.
\<close>

record counter =
  c_poll_ticks :: u32
  c_sample_ticks :: u32
  c_next_sample_time :: u32
  c_count :: u32
  c_last_count_time :: u32
  c_flags :: u8
  c_pin :: gpio_pin

record counters = buttons_c +
  cnts :: "nat \<Rightarrow> counter"

definition CF_PENDING :: u8 where "CF_PENDING = 1"

definition counter_zero :: counter where
  "counter_zero = \<lparr>c_poll_ticks = 0, c_sample_ticks = 0, c_next_sample_time = 0, c_count = 0,
     c_last_count_time = 0, c_flags = 0, c_pin = no_pin\<rparr>"

definition counters_static :: "(nat \<Rightarrow> env) \<Rightarrow> nat \<Rightarrow> nat \<Rightarrow> 'z \<Rightarrow> 'z counters_scheme" where
  "counters_static ev start end m = buttons_static ev start end (counters_ext (\<lambda>_. counter_zero) m)"

abbreviation upd_cnt :: "nat \<Rightarrow> (counter \<Rightarrow> counter) \<Rightarrow> 'z counters_scheme \<Rightarrow> 'z counters_scheme" where
  "upd_cnt a f s \<equiv> s\<lparr>cnts := upd (cnts s) a f\<rparr>"

definition counter_event :: "nat \<Rightarrow> 'z counters_scheme \<Rightarrow> (sf, 'z counters_scheme) res" where
  "counter_event a s =
     (let time = waketime_of s (MemT a);
          last_value = has (c_count (cnts s a)) 1;
          (val, s) = gpio_in_read (c_pin (cnts s a)) s;
          s = (if last_value \<noteq> val
               then upd_cnt a (\<lambda>x. x\<lparr>c_count := c_count x + 1, c_last_count_time := time\<rparr>) s else s);
          s = (if timer_is_before (c_next_sample_time (cnts s a)) time
               then let s = upd_cnt a (\<lambda>x. x\<lparr>c_flags := c_flags x OR CF_PENDING,
                              c_next_sample_time := time + c_sample_ticks x\<rparr>) s
                    in sched_wake_task counter_wake s
               else s)
      in Ret SF_RESCHEDULE (set_waketime (MemT a) (waketime_of s (MemT a) + c_poll_ticks (cnts s a)) s))"

definition command_config_counter :: "u32 list \<Rightarrow> 'z counters_scheme \<Rightarrow> (unit, 'z counters_scheme) res" where
  "command_config_counter args s =
     bind (oid_alloc (ucast (args ! 0)) T_config_counter 44 s) (\<lambda>a s.
       let s = upd_cnt a (\<lambda>_. counter_zero) (s\<lparr>timers := (timers s)(MemT a := timer_zero)\<rparr>)
       in bind (gpio_in_setup (args ! 1) (args ! 2) s) (\<lambda>g s.
          let s = upd_cnt a (\<lambda>x. x\<lparr>c_pin := g\<rparr>) s
          in Ret () (set_func (MemT a) F_counter_event s)))"

definition command_query_counter :: "u32 list \<Rightarrow> 'z counters_scheme \<Rightarrow> (unit, 'z counters_scheme) res" where
  "command_query_counter args s =
     bind (oid_lookup (ucast (args ! 0)) T_config_counter s) (\<lambda>a s.
     bind (sched_del_timer (MemT a) s) (\<lambda>_ s.
       let s = set_waketime (MemT a) (args ! 1) s;
           s = upd_cnt a (\<lambda>x. x\<lparr>c_poll_ticks := args ! 2, c_sample_ticks := args ! 3,
                 c_next_sample_time := waketime_of s (MemT a)\<rparr>) s
       in sched_add_timer (MemT a) FF_TIMER_COUNTER_QUERY s))"

definition counter_task :: "'z counters_scheme \<Rightarrow> (unit, 'z counters_scheme) res" where
  "counter_task s =
     (let (woken, s) = sched_check_wake counter_wake s in
      if \<not> woken then Ret () s
      else foreach_oid T_config_counter (\<lambda>oid a s.
             if \<not> has (c_flags (cnts s a)) CF_PENDING then Ret () s
             else let w = waketime_of s (MemT a);
                      count = c_count (cnts s a);
                      count_time = c_last_count_time (cnts s a);
                      s = upd_cnt a (\<lambda>x. x\<lparr>c_flags := c_flags x AND NOT CF_PENDING\<rparr>) s
                  in Ret () (sendf ''counter_state oid=%c next_clock=%u count=%u count_clock=%u''
                       [U (ucast oid), U w, U count, U count_time] s)) s)"

end
