(* ===== verification/Inputs_Spec.thy ===== *)
theory Inputs_Spec
  imports Pulse_Counter Sched_Spec
begin

text \<open>
  Properties of the polled inputs: buttons are debounced and their reports are delivered once and
  in order, pulse counters count the edges they see.
\<close>

section \<open>Buttons\<close>

text \<open>The reports that wait for an acknowledgement.\<close>

definition reports_of :: "buttons \<Rightarrow> u8 list" where
  "reports_of b = take (unat (b_report_count b)) (b_reports b)"

definition buttons_ok :: "buttons \<Rightarrow> bool" where
  "buttons_ok b \<longleftrightarrow> length (b_reports b) = REPORTS_SIZE \<and> unat (b_report_count b) \<le> REPORTS_SIZE"

lemma length_reports: "buttons_ok b \<Longrightarrow> length (reports_of b) = unat (b_report_count b)"
  by (simp add: reports_of_def buttons_ok_def)

lemma unat_inc_u8_small: "unat (x::u8) < 255 \<Longrightarrow> unat (x + 1) = unat x + 1"
  using unat_add_lem [of x 1] by simp

text \<open>The shift loop of the acknowledgement.\<close>

lemma shift_loop:
  assumes "p + c \<le> length r"
  shows "fold (\<lambda>i r. r[i := r ! (i + c)]) [0..<p] r = take p (drop c r) @ drop p r"
  using assms
proof (induction p)
  case (Suc p)
  let ?q = "take p (drop c r) @ drop p r"
  have "fold (\<lambda>i r. r[i := r ! (i + c)]) [0..<Suc p] r = ?q[p := ?q ! (p + c)]"
    using Suc by simp
  also have "?q ! (p + c) = r ! (p + c)"
    using Suc.prems by (simp add: nth_append)
  also have "?q[p := r ! (p + c)] = take (Suc p) (drop c r) @ drop (Suc p) r"
  proof -
    have "drop p r = r ! p # drop (Suc p) r"
      using Suc.prems by (simp add: Cons_nth_drop_Suc)
    moreover have "take (Suc p) (drop c r) = take p (drop c r) @ [r ! (p + c)]"
      using Suc.prems by (simp add: take_Suc_conv_app_nth add.commute)
    ultimately show ?thesis
      using Suc.prems by (simp add: list_update_append)
  qed
  finally show ?case .
qed simp

lemma buttons_ack_reports:
  assumes "buttons_ok b"
  shows "reports_of (buttons_ack count b) = drop (unat count) (reports_of b)" "buttons_ok (buttons_ack count b)"
proof -
  have *: "reports_of (buttons_ack count b) = drop (unat count) (reports_of b) \<and> buttons_ok (buttons_ack count b)"
  proof (cases "b_report_count b \<le> count")
    case True
    then show ?thesis
      using assms by (simp add: buttons_ack_def reports_of_def buttons_ok_def Let_def word_le_nat_alt)
  next
    case False
    then have lt: "unat count < unat (b_report_count b)"
      by (simp add: word_le_nat_alt)
    have sub: "unat (b_report_count b - count) = unat (b_report_count b) - unat count"
      using lt by (simp add: unat_sub_if')
    show ?thesis
      using assms lt False by (auto simp: buttons_ack_def reports_of_def buttons_ok_def sub shift_loop Let_def take_drop)
  qed
  then show "reports_of (buttons_ack count b) = drop (unat count) (reports_of b)" "buttons_ok (buttons_ack count b)"
    by blast+
qed

text \<open>What one reading \<open>status\<close> does to the debounced state.\<close>

definition debounced :: "u8 \<Rightarrow> buttons \<Rightarrow> u8" where
  "debounced status b = (b_pressed b AND (status XOR b_last_pressed b)) OR (status AND NOT (status XOR b_last_pressed b))"

lemma debounced_bit:
  "n < 8 \<Longrightarrow> bit (debounced status b) n \<longleftrightarrow> (if bit status n = bit (b_last_pressed b) n then bit status n else bit (b_pressed b) n)"
  by (auto simp: debounced_def bit_simps)

lemma debounced_change: "(status XOR b_pressed b) AND NOT (status XOR b_last_pressed b) \<noteq> 0 \<longleftrightarrow> debounced status b \<noteq> b_pressed b"
proof -
  have "(status XOR b_pressed b) AND NOT (status XOR b_last_pressed b) = debounced status b XOR b_pressed b"
    by (rule bit_word_eqI) (auto simp: debounced_def bit_simps)
  moreover have "x XOR y = 0 \<longleftrightarrow> x = y" for x y :: u8
    by (metis bit.xor_left_self xor.right_neutral xor_self_eq)
  ultimately show ?thesis
    by simp
qed

lemma debounce_result:
  assumes "buttons_ok b" "buttons_debounce status b = (wakeup, b')"
  shows "b_pressed b' = debounced status b" "b_last_pressed b' = status" "buttons_ok b'" "b_ack_count b' = b_ack_count b"
    "reports_of b' = reports_of b @ (if debounced status b \<noteq> b_pressed b \<and> length (reports_of b) < REPORTS_SIZE then [debounced status b] else [])"
    "wakeup \<longleftrightarrow> debounced status b \<noteq> b_pressed b \<and> length (reports_of b) < REPORTS_SIZE"
proof -
  have len: "length (reports_of b) = unat (b_report_count b)"
    using assms(1) by (rule length_reports)
  note [simp] = debounced_change debounced_def [symmetric]
  have "unat (b_report_count b) < REPORTS_SIZE \<Longrightarrow> unat (b_report_count b + 1) = unat (b_report_count b) + 1"
    by (rule unat_inc_u8_small) (simp add: REPORTS_SIZE_def)
  then show "b_pressed b' = debounced status b" "b_last_pressed b' = status" "buttons_ok b'" "b_ack_count b' = b_ack_count b"
    "reports_of b' = reports_of b @ (if debounced status b \<noteq> b_pressed b \<and> length (reports_of b) < REPORTS_SIZE then [debounced status b] else [])"
    "wakeup \<longleftrightarrow> debounced status b \<noteq> b_pressed b \<and> length (reports_of b) < REPORTS_SIZE"
    using assms by (auto simp: buttons_debounce_def buttons_ok_def reports_of_def len [unfolded reports_of_def] Let_def
        take_Suc_conv_app_nth split: if_splits)
qed

text \<open>
  A session of the protocol: readings that may add a report to the history \<open>H\<close>, retransmissions, and
  acknowledgements of \<open>n\<close> reports in all, never of more reports than are waiting.
\<close>

inductive session :: "buttons \<Rightarrow> u8 list \<Rightarrow> nat \<Rightarrow> buttons \<Rightarrow> bool" for b0 where
  query: "session b0 [] 0 b0"
| reading: "session b0 H n b \<Longrightarrow> buttons_debounce status b = (wakeup, b') \<Longrightarrow>
    session b0 (H @ (if wakeup then [b_pressed b'] else [])) n b'"
| retransmit: "session b0 H n b \<Longrightarrow> session b0 H n (snd (buttons_retransmit b))"
| ack: "session b0 H n b \<Longrightarrow> count \<le> b_report_count b \<Longrightarrow> session b0 H (n + unat count) (buttons_ack count b)"

definition in_step :: "u8 list \<Rightarrow> nat \<Rightarrow> buttons \<Rightarrow> bool" where
  "in_step H n b \<longleftrightarrow> buttons_ok b \<and> reports_of b = drop n H \<and> n \<le> length H \<and> b_ack_count b = of_nat n"

lemma retransmit_same:
  "reports_of (snd (buttons_retransmit b)) = reports_of b" "buttons_ok (snd (buttons_retransmit b)) = buttons_ok b"
  "b_ack_count (snd (buttons_retransmit b)) = b_ack_count b"
  by (simp_all add: buttons_retransmit_def reports_of_def buttons_ok_def Let_def)

lemma session_in_step:
  assumes "session b0 H n b" "in_step [] 0 b0"
  shows "in_step H n b"
  using assms
proof (induction rule: session.induct)
  case (reading H n b status wakeup b')
  then have "buttons_ok b" by (simp add: in_step_def)
  from debounce_result [OF this reading.hyps(2)] reading show ?case
    by (auto simp: in_step_def)
next
  case (ack H n b count)
  have len: "length (reports_of b) = unat (b_report_count b)"
    using ack by (intro length_reports) (simp add: in_step_def)
  have "b_ack_count (buttons_ack count b) = b_ack_count b + count"
    by (simp add: buttons_ack_def Let_def)
  then show ?case
    using ack len buttons_ack_reports [of b count] by (auto simp: in_step_def word_le_nat_alt add.commute)
qed (simp_all add: in_step_def retransmit_same)

section \<open>Pulse counter\<close>

primrec edges :: "bool \<Rightarrow> bool list \<Rightarrow> nat" where
  "edges l [] = 0"
| "edges l (v # vs) = (if v \<noteq> l then Suc (edges v vs) else edges v vs)"

text \<open>Events of a counter with the values they read, between other activity of the firmware.\<close>

inductive counted :: "nat \<Rightarrow> 'z counters_scheme \<Rightarrow> bool list \<Rightarrow> 'z counters_scheme \<Rightarrow> bool" for a where
  start: "counted a s [] s"
| event: "counter_event a s = Ret SF_RESCHEDULE s1 \<Longrightarrow> counted a s1 vs s2 \<Longrightarrow>
    counted a s (fst (gpio_in_read (c_pin (cnts s a)) s) # vs) s2"
| other: "cnts s1 a = cnts s a \<Longrightarrow> counted a s1 vs s2 \<Longrightarrow> counted a s vs s2"

lemma has_1_inc: "has (x + 1) 1 \<longleftrightarrow> \<not> has (x::u32) 1"
  by (simp add: has_def and_one_eq mod2_eq_if)

lemma counter_event_count:
  assumes "counter_event a s = Ret r s1"
  shows "r = SF_RESCHEDULE" "c_pin (cnts s1 a) = c_pin (cnts s a)"
    "c_count (cnts s1 a) = c_count (cnts s a) + (if has (c_count (cnts s a)) 1 \<noteq> fst (gpio_in_read (c_pin (cnts s a)) s) then 1 else 0)"
proof -
  obtain val s0 where rd: "gpio_in_read (c_pin (cnts s a)) s = (val, s0)"
    by fastforce
  have "cnts s0 = cnts s" "timers s0 = timers s"
    using rd by (auto simp: gpio_in_read_def tick_def split: if_splits)
  then show "r = SF_RESCHEDULE" "c_pin (cnts s1 a) = c_pin (cnts s a)"
    "c_count (cnts s1 a) = c_count (cnts s a) + (if has (c_count (cnts s a)) 1 \<noteq> fst (gpio_in_read (c_pin (cnts s a)) s) then 1 else 0)"
    using assms by (auto simp: counter_event_def rd sched_wake_task_def sched_wake_tasks_def Let_def split: if_splits)
qed

lemma counted_edges:
  assumes "counted a s vs s'"
  shows "c_count (cnts s' a) = c_count (cnts s a) + of_nat (edges (has (c_count (cnts s a)) 1) vs) \<and>
    (vs \<noteq> [] \<longrightarrow> has (c_count (cnts s' a)) 1 = last vs)"
  using assms
proof (induction rule: counted.induct)
  case (event s s1 vs s2)
  note e = counter_event_count [OF event.hyps(1)]
  let ?v = "fst (gpio_in_read (c_pin (cnts s a)) s)"
  have "has (c_count (cnts s1 a)) 1 = ?v"
    using e(3) by (auto simp: has_1_inc)
  then show ?case
    using event.IH e(3) by (cases vs) auto
qed auto

section \<open>Properties\<close>

text \<open>
  C30. Button reports are delivered once and in order. In any session that starts with an empty buffer,
  whatever readings, retransmissions and acknowledgements it has, the waiting reports are exactly
  the reported states after the first \<open>n\<close> acknowledged ones, at most eight, and the count
  that the host sees is the number of acknowledged reports modulo 256.
\<close>

theorem buttons_reports_in_order:
  assumes "session b0 H n b" "length (b_reports b0) = REPORTS_SIZE" "b_report_count b0 = 0" "b_ack_count b0 = 0"
  shows "reports_of b = drop n H \<and> n \<le> length H \<and> b_ack_count b = of_nat n \<and> unat (b_report_count b) = length H - n \<and>
    unat (b_report_count b) \<le> REPORTS_SIZE"
proof -
  have "in_step H n b"
    by (rule session_in_step [OF assms(1)]) (use assms(2-4) in \<open>simp add: in_step_def buttons_ok_def reports_of_def\<close>)
  then show ?thesis
    using length_reports [of b] by (auto simp: in_step_def buttons_ok_def)
qed

theorem buttons_reports_in_order_witness:
  "\<exists>b. session (buttons_zero 0) [1] 0 b \<and> reports_of b = [1]"
proof -
  let ?b1 = "(buttons_zero 0)\<lparr>b_last_pressed := 1\<rparr>"
  let ?b2 = "?b1\<lparr>b_pressed := 1, b_reports := [1, 0, 0, 0, 0, 0, 0, 0], b_report_count := 1, b_retransmit_state := BF_PENDING\<rparr>"
  have 1: "buttons_debounce 1 (buttons_zero 0) = (False, ?b1)"
    by (simp add: buttons_debounce_def buttons_zero_def)
  have 2: "buttons_debounce 1 ?b1 = (True, ?b2)"
    by (simp add: buttons_debounce_def buttons_zero_def REPORTS_SIZE_def numeral_eq_Suc)
  have s: "session (buttons_zero 0) [1] 0 ?b2"
    using session.reading [OF session.reading [OF session.query 1] 2] by simp
  have "reports_of ?b2 = drop 0 [1]"
    using buttons_reports_in_order [OF s] by (simp add: buttons_zero_def)
  then show ?thesis
    using s by auto
qed

text \<open>
  Debouncing: after a reading, the debounced state of a button is the value read if the reading
  before had the same value, and is unchanged otherwise.
\<close>

theorem buttons_debounced:
  "bit (b_pressed (snd (buttons_debounce status b))) k =
     (if bit status k = bit (b_last_pressed b) k then bit status k else bit (b_pressed b) k)"
proof -
  have "b_pressed (snd (buttons_debounce status b)) = debounced status b"
    using debounced_change [of status b] by (simp add: buttons_debounce_def debounced_def Let_def)
  moreover have "\<not> bit x k" if "8 \<le> k" for x :: u8
    using that by (simp add: bit_word_def not_less bit_imp_le_length)
  ultimately show ?thesis
    using debounced_bit [of k status b] by (cases "k < 8") auto
qed

text \<open>
  C31. A pulse counter counts edges: after any number of its events, the count has grown by the number
  of changes in the sequence of values read (modulo the counter range), and its lowest bit is
  the value read last.
\<close>

theorem counter_counts_edges:
  assumes "counted a s vs s'" "vs \<noteq> []"
  shows "c_count (cnts s' a) = c_count (cnts s a) + of_nat (edges (has (c_count (cnts s a)) 1) vs) \<and>
    has (c_count (cnts s' a)) 1 = last vs"
  using counted_edges [OF assms(1)] assms(2) by blast

text \<open>A counter at address 160 that has counted one edge, on a pin that reads low now.\<close>

definition one_counter :: counters where
  "one_counter = upd_cnt 160 (\<lambda>x. x\<lparr>c_count := 1\<rparr>) (counters_static (quiet_env 0) 0 0 ())"

theorem counter_counts_edges_witness: "\<exists>s'. counted 160 one_counter [False] s' \<and> c_count (cnts s' 160) = 2"
proof -
  have c: "c_count (cnts one_counter 160) = 1" "fst (gpio_in_read (c_pin (cnts one_counter 160)) one_counter) = False"
    by (simp_all add: one_counter_def gpio_in_read_def counter_zero_def no_pin_def FF_EDDY_ENDSTOP_PORT_def sample_def
        has_def counters_static_def buttons_static_def analog_static_def pwm_static_def digital_static_def endstops_static_def
        eddy_static_def steppers_static_def trsyncs_static_def timer_irq_static_def serial_static_def command_static_def
        base_static_def sched_static_def board_static_def)
  obtain r s' where e: "counter_event 160 one_counter = Ret r s'"
    by (cases "counter_event 160 one_counter") (auto simp: counter_event_def split_def Let_def)
  then have "counter_event 160 one_counter = Ret SF_RESCHEDULE s'"
    using counter_event_count(1) by blast
  then have "counted 160 one_counter [False] s'"
    using counted.event [OF _ counted.start, of 160 one_counter s'] c(2) by simp
  moreover from this have "c_count (cnts s' 160) = 2"
    using counter_counts_edges [of 160 one_counter "[False]" s'] c(1) by (simp add: has_def)
  ultimately show ?thesis by blast
qed

end
