(* ===== verification/Tmcuart.thy ===== *)
theory Tmcuart
  imports Pulse_Counter
begin

text \<open>
  \<^verbatim>\<open>src/klipper/src/tmcuart.c\<close>: the bit-banged single wire UART of the stepper drivers. The timer of
  the object at address \<open>a\<close> is \<open>MemT a\<close>; an access outside of \<open>data\<close> is a \<open>Fault\<close>.
\<close>

section \<open>State\<close>

record tmcuart_s =
  tu_tx_pin :: gpio_pin
  tu_rx_pin :: gpio_pin
  tu_flags :: u8
  tu_pos :: u8
  tu_read_count :: u8
  tu_write_count :: u8
  tu_cfg_bit_time :: u32
  tu_bit_time :: u32
  tu_data :: "u8 list"

record tmcuart = counters +
  tmcs :: "nat \<Rightarrow> tmcuart_s"

definition TU_LINE_HIGH :: u8 where "TU_LINE_HIGH = 1"
definition TU_ACTIVE :: u8 where "TU_ACTIVE = 2"
definition TU_READ_SYNC :: u8 where "TU_READ_SYNC = 4"
definition TU_REPORT :: u8 where "TU_REPORT = 8"
definition TU_PULLUP :: u8 where "TU_PULLUP = 16"
definition TU_SINGLE_WIRE :: u8 where "TU_SINGLE_WIRE = 32"

definition TMC_DATA_SIZE :: nat where "TMC_DATA_SIZE = 10"

definition tmcuart_zero :: tmcuart_s where
  "tmcuart_zero = \<lparr>tu_tx_pin = no_pin, tu_rx_pin = no_pin, tu_flags = 0, tu_pos = 0, tu_read_count = 0,
     tu_write_count = 0, tu_cfg_bit_time = 0, tu_bit_time = 0, tu_data = replicate TMC_DATA_SIZE 0\<rparr>"

definition tmcuart_static :: "(nat \<Rightarrow> env) \<Rightarrow> nat \<Rightarrow> nat \<Rightarrow> 'z \<Rightarrow> 'z tmcuart_scheme" where
  "tmcuart_static ev start end m = counters_static ev start end (tmcuart_ext (\<lambda>_. tmcuart_zero) m)"

abbreviation upd_tu :: "nat \<Rightarrow> (tmcuart_s \<Rightarrow> tmcuart_s) \<Rightarrow> 'z tmcuart_scheme \<Rightarrow> 'z tmcuart_scheme" where
  "upd_tu a f s \<equiv> s\<lparr>tmcs := upd (tmcs s) a f\<rparr>"

abbreviation add_waketime :: "nat \<Rightarrow> u32 \<Rightarrow> 'z sched_scheme \<Rightarrow> 'z sched_scheme" where
  "add_waketime a d s \<equiv> set_waketime (MemT a) (waketime_of s (MemT a) + d) s"

section \<open>Line control\<close>

definition tmcuart_reset_line :: "nat \<Rightarrow> 'z tmcuart_scheme \<Rightarrow> 'z tmcuart_scheme" where
  "tmcuart_reset_line a s =
     (let s = (if has (tu_flags (tmcs s a)) TU_SINGLE_WIRE then gpio_out_reset (tu_tx_pin (tmcs s a)) 1 s
               else gpio_out_write (tu_tx_pin (tmcs s a)) 1 s)
      in upd_tu a (\<lambda>x. x\<lparr>tu_flags := (tu_flags x AND (TU_PULLUP OR TU_SINGLE_WIRE)) OR TU_LINE_HIGH\<rparr>) s)"

definition tmcuart_finalize :: "nat \<Rightarrow> 'z tmcuart_scheme \<Rightarrow> (sf, 'z tmcuart_scheme) res" where
  "tmcuart_finalize a s =
     (let s = tmcuart_reset_line a s;
          s = upd_tu a (\<lambda>x. x\<lparr>tu_flags := tu_flags x OR TU_REPORT\<rparr>) s
      in Ret SF_DONE (sched_wake_task tmcuart_wake s))"

section \<open>Reading\<close>

definition tmcuart_read_event :: "nat \<Rightarrow> 'z tmcuart_scheme \<Rightarrow> (sf, 'z tmcuart_scheme) res" where
  "tmcuart_read_event a s =
     (let (v, s) = gpio_in_read (tu_rx_pin (tmcs s a)) s;
          pos = tu_pos (tmcs s a);
          i = unat (drop_bit 3 pos);
          mask = push_bit (unat (pos AND 7)) 1 :: u8
      in if i \<ge> length (tu_data (tmcs s a)) then Fault
         else let data = tu_data (tmcs s a) ! i;
                  data = (if v then data OR mask else data AND NOT mask);
                  s = upd_tu a (\<lambda>x. x\<lparr>tu_data := (tu_data x)[i := data]\<rparr>) s;
                  pos = pos + 1
              in if pos \<ge> tu_read_count (tmcs s a) then tmcuart_finalize a s
                 else let s = upd_tu a (\<lambda>x. x\<lparr>tu_pos := pos\<rparr>) s
                      in Ret SF_RESCHEDULE (add_waketime a (tu_bit_time (tmcs s a)) s))"

definition tmcuart_read_sync_event :: "nat \<Rightarrow> 'z tmcuart_scheme \<Rightarrow> (sf, 'z tmcuart_scheme) res" where
  "tmcuart_read_sync_event a s =
     (let (v, s) = gpio_in_read (tu_rx_pin (tmcs s a)) s
      in if \<not> v \<and> has (tu_flags (tmcs s a)) TU_READ_SYNC
         then let s = upd_tu a (\<lambda>x. x\<lparr>tu_pos := 0\<rparr>) s
              in tmcuart_read_event a (set_func (MemT a) F_tmcuart_read_event s)
         else let s = (if v then upd_tu a (\<lambda>x. x\<lparr>tu_flags := tu_flags x OR TU_READ_SYNC\<rparr>) s else s);
                  pos = tu_pos (tmcs s a);
                  s = upd_tu a (\<lambda>x. x\<lparr>tu_pos := pos + 1\<rparr>) s
              in if pos \<ge> 64 then tmcuart_finalize a (upd_tu a (\<lambda>x. x\<lparr>tu_read_count := 0\<rparr>) s)
                 else Ret SF_RESCHEDULE (add_waketime a (tu_bit_time (tmcs s a)) s))"

section \<open>Writing\<close>

definition tmcuart_send_finish_event :: "nat \<Rightarrow> 'z tmcuart_scheme \<Rightarrow> (sf, 'z tmcuart_scheme) res" where
  "tmcuart_send_finish_event a s =
     (if tu_read_count (tmcs s a) = 0 then tmcuart_finalize a s
      else let s = (if has (tu_flags (tmcs s a)) TU_SINGLE_WIRE
                    then gpio_in_reset (tu_rx_pin (tmcs s a)) (ucast (tu_flags (tmcs s a) AND TU_PULLUP)) s else s);
               s = upd_tu a (\<lambda>x. x\<lparr>tu_pos := 0\<rparr>) s;
               s = set_func (MemT a) F_tmcuart_read_sync_event s
           in Ret SF_RESCHEDULE (add_waketime a (tu_bit_time (tmcs s a) * 4) s))"

text \<open>
  The search for the next toggle: the new position (\<open>None\<close> at the end of the data) and the time
  until then. The outer \<open>None\<close> is an access outside of the data.
\<close>

function send_scan :: "u8 list \<Rightarrow> u8 \<Rightarrow> bool \<Rightarrow> u32 \<Rightarrow> u8 \<Rightarrow> u32 \<Rightarrow> (u8 option \<times> u32) option" where
  "send_scan data write_count line bit_time pos nextt =
     (let pos = pos + 1
      in if pos \<ge> write_count then Some (None, nextt)
         else if unat (drop_bit 3 pos) \<ge> length data then None
         else if bit (data ! unat (drop_bit 3 pos)) (unat (pos AND 7)) \<noteq> line then Some (Some pos, nextt)
         else send_scan data write_count line bit_time pos (nextt + bit_time))"
  by pat_completeness auto
termination
proof (relation "measure (\<lambda>(data, wc, line, bt, pos, nextt). 256 - unat (pos + 1))", goal_cases)
  case (2 data wc line bt pos nextt p)
  have "unat p < 255"
    using 2 unat_u8 [of wc] by (simp add: word_le_nat_alt)
  then have "unat (p + 1) = unat p + 1"
    using unat_add_lem [of p 1] by simp
  then show ?case
    using \<open>unat p < 255\<close> 2(1) by simp
qed simp

declare send_scan.simps [simp del]

definition tmcuart_send_event :: "nat \<Rightarrow> 'z tmcuart_scheme \<Rightarrow> (sf, 'z tmcuart_scheme) res" where
  "tmcuart_send_event a s =
     (let s = gpio_out_toggle_noirq (tu_tx_pin (tmcs s a)) s;
          s = upd_tu a (\<lambda>x. x\<lparr>tu_flags := tu_flags x XOR TU_LINE_HIGH\<rparr>) s;
          t = tmcs s a
      in case send_scan (tu_data t) (tu_write_count t) (has (tu_flags t) TU_LINE_HIGH) (tu_bit_time t)
                (tu_pos t) (tu_bit_time t) of
           None \<Rightarrow> Fault
         | Some (None, nextt) \<Rightarrow>
             let s = set_func (MemT a) F_tmcuart_send_finish_event s
             in Ret SF_RESCHEDULE (add_waketime a nextt s)
         | Some (Some pos, nextt) \<Rightarrow>
             let s = upd_tu a (\<lambda>x. x\<lparr>tu_pos := pos\<rparr>) s
             in Ret SF_RESCHEDULE (add_waketime a nextt s))"

text \<open>C division of signed integers rounds towards zero.\<close>

definition c_div :: "int \<Rightarrow> int \<Rightarrow> int" where
  "c_div x y = (if x \<ge> 0 then x div y else - ((- x) div y))"

definition DIV_ROUND_CLOSEST :: "u32 \<Rightarrow> int \<Rightarrow> u32" where
  "DIV_ROUND_CLOSEST x divisor = word_of_int (c_div (sint (x + word_of_int (divisor div 2))) divisor)"

definition tmcuart_send_sync_event :: "nat \<Rightarrow> 'z tmcuart_scheme \<Rightarrow> (sf, 'z tmcuart_scheme) res" where
  "tmcuart_send_sync_event a s =
     (let s = gpio_out_toggle_noirq (tu_tx_pin (tmcs s a)) s;
          (cur, s) = timer_read_time s;
          s = upd_tu a (\<lambda>x. x\<lparr>tu_flags := tu_flags x XOR TU_LINE_HIGH\<rparr>) s;
          s = upd_tu a (\<lambda>x. x\<lparr>tu_pos := tu_pos x + 1\<rparr>) s
      in if tu_pos (tmcs s a) = 1
         then let offset = cur - waketime_of s (MemT a);
                  s = upd_tu a (\<lambda>x. x\<lparr>tu_bit_time := offset\<rparr>) s
              in Ret SF_RESCHEDULE (add_waketime a (tu_cfg_bit_time (tmcs s a)) s)
         else if tu_pos (tmcs s a) \<ge> 5
         then let offset = cur - waketime_of s (MemT a);
                  diff = offset - tu_bit_time (tmcs s a);
                  s = upd_tu a (\<lambda>x. x\<lparr>tu_bit_time := tu_cfg_bit_time x + DIV_ROUND_CLOSEST diff 4\<rparr>) s;
                  s = set_func (MemT a) F_tmcuart_send_event s
              in Ret SF_RESCHEDULE (add_waketime a (diff + tu_bit_time (tmcs s a)) s)
         else Ret SF_RESCHEDULE (add_waketime a (tu_cfg_bit_time (tmcs s a)) s))"

section \<open>Commands\<close>

definition command_config_tmcuart :: "u32 list \<Rightarrow> 'z tmcuart_scheme \<Rightarrow> (unit, 'z tmcuart_scheme) res" where
  "command_config_tmcuart args s =
     bind (oid_alloc (ucast (args ! 0)) T_config_tmcuart 52 s) (\<lambda>a s.
       let s = upd_tu a (\<lambda>_. tmcuart_zero) (s\<lparr>timers := (timers s)(MemT a := timer_zero)\<rparr>);
           pull_up = ucast (args ! 2) :: u8;
           rx_pin = args ! 1;
           tx_pin = args ! 3
       in bind (gpio_in_setup rx_pin (c_bool (pull_up \<noteq> 0)) s) (\<lambda>g s.
          let s = upd_tu a (\<lambda>x. x\<lparr>tu_rx_pin := g\<rparr>) s
          in bind (gpio_out_setup tx_pin 1 s) (\<lambda>g s.
             let s = upd_tu a (\<lambda>x. x\<lparr>tu_tx_pin := g, tu_cfg_bit_time := args ! 4,
                       tu_flags := TU_LINE_HIGH OR (if pull_up \<noteq> 0 then TU_PULLUP else 0)
                         OR (if rx_pin = tx_pin then TU_SINGLE_WIRE else 0)\<rparr>) s
             in Ret () s)))"

text \<open>\<open>command_decode_ptr\<close>: a pointer argument is a position in the received block \<open>buf\<close>.\<close>

definition decode_bytes :: "u8 list \<Rightarrow> u32 \<Rightarrow> nat \<Rightarrow> u8 list" where
  "decode_bytes buf ptr n = take n (drop (unat ptr) buf)"

definition command_tmcuart_send ::
  "u8 list \<Rightarrow> u32 list \<Rightarrow> 'z tmcuart_scheme \<Rightarrow> (unit, 'z tmcuart_scheme) res" where
  "command_tmcuart_send buf args s =
     bind (oid_lookup (ucast (args ! 0)) T_config_tmcuart s) (\<lambda>a s.
       if has (tu_flags (tmcs s a)) TU_ACTIVE then Ret () s
       else let write_len = ucast (args ! 1) :: u8;
                write = decode_bytes buf (args ! 2) (unat write_len);
                read_len = ucast (args ! 3) :: u8
            in if unat write_len > TMC_DATA_SIZE \<or> unat read_len > TMC_DATA_SIZE
               then shutdown_ec FF_EC_TMCUART_DATA_TOO_LARGE ''tmcuart data too large'' s
               else let s = upd_tu a (\<lambda>x. x\<lparr>tu_data := write @ drop (unat write_len) (tu_data x), tu_pos := 0,
                              tu_flags := (tu_flags x AND (TU_LINE_HIGH OR TU_PULLUP OR TU_SINGLE_WIRE)) OR TU_ACTIVE,
                              tu_write_count := write_len * 8, tu_read_count := read_len * 8\<rparr>) s;
                        s = (if write_len \<ge> 1 \<and> tu_data (tmcs s a) ! 0 AND 0x3f = 0x2a
                             then set_func (MemT a) F_tmcuart_send_sync_event s
                             else set_func (MemT a) F_tmcuart_send_event
                                    (upd_tu a (\<lambda>x. x\<lparr>tu_bit_time := tu_cfg_bit_time x\<rparr>) s));
                        (now, s) = timer_read_time s;
                        s = set_waketime (MemT a) (now + timer_from_us 200) s
                    in sched_add_timer (MemT a) FF_TIMER_TMCUART_SEND s)"

definition tmcuart_task :: "'z tmcuart_scheme \<Rightarrow> (unit, 'z tmcuart_scheme) res" where
  "tmcuart_task s =
     (let (woken, s) = sched_check_wake tmcuart_wake s in
      if \<not> woken then Ret () s
      else foreach_oid T_config_tmcuart (\<lambda>oid a s.
             if \<not> has (tu_flags (tmcs s a)) TU_REPORT then Ret () s
             else let s = upd_tu a (\<lambda>x. x\<lparr>tu_flags := tu_flags x AND NOT TU_REPORT\<rparr>) s
                  in Ret () (sendf ''tmcuart_response oid=%c read=%*s''
                       [U (ucast oid), Bytes (take (unat (tu_read_count (tmcs s a)) div 8) (tu_data (tmcs s a)))] s)) s)"

definition tmcuart_shutdown :: "'z tmcuart_scheme \<Rightarrow> (unit, 'z tmcuart_scheme) res" where
  "tmcuart_shutdown s = foreach_oid T_config_tmcuart (\<lambda>_ a s. Ret () (tmcuart_reset_line a s)) s"

end
