(* ===== verification/Tmcuart_Spec.thy ===== *)
theory Tmcuart_Spec
  imports Tmcuart Sched_Spec
begin

text \<open>
  Correctness of the TMC UART (theory \<open>Tmcuart\<close>): the search for the next toggle, the bounds that keep
  every event inside of the data buffer, and the waveform of a transmitted frame.
\<close>

section \<open>Searching the next toggle\<close>

text \<open>Bit \<open>k\<close> of the frame.\<close>

definition frame_bit :: "u8 list \<Rightarrow> nat \<Rightarrow> bool" where
  "frame_bit data k = bit (data ! (k div 8)) (k mod 8)"

lemma unat_pos_parts: "unat (drop_bit 3 (pos::u8)) = unat pos div 8" "unat (pos AND 7) = unat pos mod 8"
proof -
  show "unat (drop_bit 3 pos) = unat pos div 8"
    by (simp add: drop_bit_eq_div unat_div)
  have "pos AND 7 = take_bit 3 pos"
    by (simp add: take_bit_eq_mask mask_eq_exp_minus_1)
  then show "unat (pos AND 7) = unat pos mod 8"
    by (simp add: take_bit_eq_mod unat_mod)
qed

text \<open>
  The search ends at the first later bit that differs from the line, or at the end of the frame, and
  it counts one bit time for each bit passed.
\<close>

definition passed :: "u8 list \<Rightarrow> bool \<Rightarrow> nat \<Rightarrow> nat \<Rightarrow> bool" where
  "passed data line p q \<longleftrightarrow> (\<forall>k. p < k \<and> k < q \<longrightarrow> frame_bit data k = line)"

definition scanned :: "u8 list \<Rightarrow> nat \<Rightarrow> bool \<Rightarrow> u32 \<Rightarrow> nat \<Rightarrow> u32 \<Rightarrow> u8 option \<times> u32 \<Rightarrow> bool" where
  "scanned data wc line bt p nextt r \<longleftrightarrow>
     (case r of
        (Some q, t) \<Rightarrow> p < unat q \<and> unat q < wc \<and> passed data line p (unat q) \<and> frame_bit data (unat q) \<noteq> line \<and>
          t = nextt + (of_nat (unat q - p) - 1) * bt
      | (None, t) \<Rightarrow> passed data line p wc \<and> t = nextt + (of_nat (max (p + 1) wc - p) - 1) * bt)"

lemma scanned_Suc:
  assumes "scanned data wc line bt (Suc p) (nextt + bt) r" "frame_bit data (Suc p) = line" "Suc p < wc"
  shows "scanned data wc line bt p nextt r"
proof -
  have pass: "passed data line p q" if "passed data line (Suc p) q" for q
    using that assms(2) unfolding passed_def by (metis Suc_lessI)
  have time: "nextt + bt + (of_nat (m - Suc p) - 1) * bt = nextt + (of_nat (m - p) - 1) * bt" if "Suc p < m" for m
  proof -
    have "m - p = Suc (m - Suc p)"
      using that by simp
    then have "(of_nat (m - p) :: u32) = of_nat (m - Suc p) + 1"
      by (simp only: of_nat_Suc add.commute)
    then show ?thesis by (simp add: algebra_simps)
  qed
  show ?thesis
    using assms(1,3) pass time by (auto simp: scanned_def max_def algebra_simps split: prod.splits option.splits)
qed

lemma send_scan_result:
  assumes "unat wc \<le> 8 * length data" "unat pos < 255"
  shows "\<exists>r. send_scan data wc line bt pos nextt = Some r \<and> scanned data (unat wc) line bt (unat pos) nextt r"
  using assms
proof (induction data wc line bt pos nextt rule: send_scan.induct)
  case (1 data wc line bt pos nextt)
  let ?p = "pos + 1"
  let ?b = "bit (data ! unat (drop_bit 3 ?p)) (unat (?p AND 7))"
  note step = send_scan.simps [of data wc line bt pos nextt]
  have p: "unat ?p = Suc (unat pos)"
    using 1(3) unat_add_lem [of pos 1] by simp
  have b: "?b = frame_bit data (Suc (unat pos))"
    by (simp add: frame_bit_def unat_pos_parts p)
  show ?case
  proof (cases "wc \<le> ?p")
    case True
    then show ?thesis
      using p by (auto simp: step word_le_nat_alt scanned_def passed_def max_def)
  next
    case False
    then have lt: "Suc (unat pos) < unat wc"
      by (simp add: word_le_nat_alt p)
    then have i: "unat ?p div 8 < length data" "unat ?p < 255"
      using 1(2) unat_u8 [of wc] p by linarith+
    show ?thesis
    proof (cases "?b = line")
      case b': False
      then have "send_scan data wc line bt pos nextt = Some (Some ?p, nextt)"
        using step False i(1) by (simp add: unat_pos_parts(1) Let_def)
      then show ?thesis
        using b b' lt p by (auto simp: scanned_def passed_def)
    next
      case True
      then have "send_scan data wc line bt pos nextt = send_scan data wc line bt ?p (nextt + bt)"
        using step False i(1) by (simp add: unat_pos_parts(1) Let_def)
      moreover obtain r where "send_scan data wc line bt ?p (nextt + bt) = Some r" "scanned data (unat wc) line bt (unat ?p) (nextt + bt) r"
        using 1(1) [OF refl False _ _ 1(2) i(2)] True i(1) by (auto simp: unat_pos_parts(1))
      ultimately show ?thesis
        using scanned_Suc [of data "unat wc" line bt "unat pos" nextt r] True b lt p by simp
    qed
  qed
qed

section \<open>Memory safety\<close>

text \<open>The call of the timer callback of an object.\<close>

fun tmc_call :: "timer_func \<Rightarrow> nat \<Rightarrow> 'z tmcuart_scheme \<Rightarrow> (sf, 'z tmcuart_scheme) res" where
  "tmc_call F_tmcuart_read_event = tmcuart_read_event"
| "tmc_call F_tmcuart_read_sync_event = tmcuart_read_sync_event"
| "tmc_call F_tmcuart_send_finish_event = tmcuart_send_finish_event"
| "tmc_call F_tmcuart_send_event = tmcuart_send_event"
| "tmc_call F_tmcuart_send_sync_event = tmcuart_send_sync_event"
| "tmc_call _ = (\<lambda>_ _. Fault)"

definition tmc_funcs :: "timer_func set" where
  "tmc_funcs = {F_tmcuart_read_event, F_tmcuart_read_sync_event, F_tmcuart_send_finish_event, F_tmcuart_send_event,
     F_tmcuart_send_sync_event}"

fun pos_limit :: "timer_func \<Rightarrow> nat" where
  "pos_limit F_tmcuart_read_sync_event = 64"
| "pos_limit F_tmcuart_send_sync_event = 4"
| "pos_limit _ = 79"

definition tmc_ok :: "tmcuart_s \<Rightarrow> timer_func \<Rightarrow> bool" where
  "tmc_ok t f \<longleftrightarrow> length (tu_data t) = TMC_DATA_SIZE \<and> unat (tu_write_count t) \<le> 80 \<and> unat (tu_read_count t) \<le> 80 \<and>
     f \<in> tmc_funcs \<and> unat (tu_pos t) \<le> pos_limit f"

abbreviation tmc_obj :: "nat \<Rightarrow> 'z tmcuart_scheme \<Rightarrow> bool" where
  "tmc_obj a s \<equiv> tmc_ok (tmcs s a) (func (timers s (MemT a)))"

text \<open>A callback does not fault, and it keeps the object well formed if it runs again.\<close>

abbreviation tmc_goes_on :: "nat \<Rightarrow> (sf, 'z tmcuart_scheme) res \<Rightarrow> bool" where
  "tmc_goes_on a m \<equiv> outcome m (\<lambda>r s'. r = SF_RESCHEDULE \<longrightarrow> tmc_obj a s') (\<lambda>_ _. False)"

lemma reset_line_frame:
  "timers (tmcuart_reset_line a s) = timers s" "\<exists>f. tmcs (tmcuart_reset_line a s) a = (tmcs s a)\<lparr>tu_flags := f\<rparr>"
  by (auto simp: tmcuart_reset_line_def gpio_out_reset_def gpio_out_write_def gpio_peripheral_def gpio_clock_enable_def
      write_module_def Let_def)

lemma finalize_done [simp]: "outcome (tmcuart_finalize a s) (\<lambda>r s'. r = SF_RESCHEDULE \<longrightarrow> P s') Q"
  by (simp add: tmcuart_finalize_def Let_def)

lemma read_sel:
  assumes "gpio_in_read g s = (v, s')"
  shows "tmcs s' = tmcs s" "timers s' = timers s"
  using assms by (auto simp: gpio_in_read_def tick_def split: if_splits)

lemma unat_inc_pos: "unat (p::u8) \<le> 79 \<Longrightarrow> unat (p + 1) = unat p + 1"
  using unat_add_lem [of p 1] by simp

lemma read_event_ok:
  assumes "tmc_obj a s" "func (timers s (MemT a)) = F_tmcuart_read_event"
  shows "tmc_goes_on a (tmcuart_read_event a s)"
proof -
  obtain v s0 where rd: "gpio_in_read (tu_rx_pin (tmcs s a)) s = (v, s0)"
    by fastforce
  have "unat (tu_pos (tmcs s a)) \<le> 79" "length (tu_data (tmcs s a)) = 10"
    using assms by (simp_all add: tmc_ok_def TMC_DATA_SIZE_def)
  then have "unat (tu_pos (tmcs s a)) div 8 < length (tu_data (tmcs s a))" "unat (tu_pos (tmcs s a) + 1) = unat (tu_pos (tmcs s a)) + 1"
    using unat_inc_pos by simp_all
  then show ?thesis
    using assms read_sel [OF rd]
    by (simp add: tmcuart_read_event_def rd Let_def unat_pos_parts tmc_ok_def word_le_nat_alt)
qed

lemma read_sync_event_ok:
  assumes "tmc_obj a s" "func (timers s (MemT a)) = F_tmcuart_read_sync_event"
  shows "tmc_goes_on a (tmcuart_read_sync_event a s)"
proof -
  obtain v s0 where rd: "gpio_in_read (tu_rx_pin (tmcs s a)) s = (v, s0)"
    by fastforce
  note sel = read_sel [OF rd]
  let ?s = "set_func (MemT a) F_tmcuart_read_event (upd_tu a (\<lambda>x. x\<lparr>tu_pos := 0\<rparr>) s0)"
  have "tmc_obj a ?s" "func (timers ?s (MemT a)) = F_tmcuart_read_event"
    using assms by (simp_all add: tmc_ok_def tmc_funcs_def sel)
  then have r: "tmc_goes_on a (tmcuart_read_event a ?s)"
    by (rule read_event_ok)
  have p: "unat (tu_pos (tmcs s a) + 1) = unat (tu_pos (tmcs s a)) + 1"
    using assms by (intro unat_inc_pos) (simp add: tmc_ok_def)
  show ?thesis
    using assms r p
    by (auto simp: tmcuart_read_sync_event_def rd sel Let_def tmc_ok_def word_le_nat_alt)
qed

lemma send_finish_event_ok:
  assumes "tmc_obj a s"
  shows "tmc_goes_on a (tmcuart_send_finish_event a s)"
proof -
  let ?g = "gpio_in_reset (tu_rx_pin (tmcs s a)) (ucast (tu_flags (tmcs s a) AND TU_PULLUP)) s"
  have "tmcs ?g = tmcs s" "timers ?g = timers s"
    by (simp_all add: gpio_in_reset_def gpio_peripheral_def gpio_clock_enable_def write_module_def Let_def)
  then show ?thesis
    using assms by (auto simp: tmcuart_send_finish_event_def Let_def tmc_ok_def tmc_funcs_def)
qed

text \<open>What a send event does: the line toggles, and the next event is at the next change of the frame.\<close>

lemma send_event_step:
  assumes "tmc_obj a s" "func (timers s (MemT a)) = F_tmcuart_send_event"
  obtains r s' where "tmcuart_send_event a s = Ret SF_RESCHEDULE s'"
    "scanned (tu_data (tmcs s a)) (unat (tu_write_count (tmcs s a))) (\<not> has (tu_flags (tmcs s a)) TU_LINE_HIGH)
       (tu_bit_time (tmcs s a)) (unat (tu_pos (tmcs s a))) (tu_bit_time (tmcs s a)) r"
    "tmcs s' a = (tmcs s a)\<lparr>tu_flags := tu_flags (tmcs s a) XOR TU_LINE_HIGH,
       tu_pos := (case fst r of None \<Rightarrow> tu_pos (tmcs s a) | Some q \<Rightarrow> q)\<rparr>"
    "timers s' (MemT a) = (timers s (MemT a))\<lparr>waketime := waketime_of s (MemT a) + snd r,
       func := (case fst r of None \<Rightarrow> F_tmcuart_send_finish_event | Some _ \<Rightarrow> F_tmcuart_send_event)\<rparr>"
proof -
  let ?t = "tmcs s a"
  have x: "has (f XOR TU_LINE_HIGH) TU_LINE_HIGH = (\<not> has f TU_LINE_HIGH)" for f :: u8
    by (simp add: has_def TU_LINE_HIGH_def and_one_eq mod2_eq_if even_xor_iff)
  have g: "tmcs (gpio_out_toggle_noirq p s) = tmcs s" "timers (gpio_out_toggle_noirq p s) = timers s" for p
    by (simp_all add: gpio_out_toggle_noirq_def write_module_def)
  have "unat (tu_write_count ?t) \<le> 8 * length (tu_data ?t)" "unat (tu_pos ?t) < 255"
    using assms by (simp_all add: tmc_ok_def TMC_DATA_SIZE_def)
  then obtain r where r: "send_scan (tu_data ?t) (tu_write_count ?t) (\<not> has (tu_flags ?t) TU_LINE_HIGH) (tu_bit_time ?t)
      (tu_pos ?t) (tu_bit_time ?t) = Some r"
    "scanned (tu_data ?t) (unat (tu_write_count ?t)) (\<not> has (tu_flags ?t) TU_LINE_HIGH) (tu_bit_time ?t) (unat (tu_pos ?t))
      (tu_bit_time ?t) r"
    using send_scan_result by blast
  obtain x n where rn: "r = (x, n)" by fastforce
  obtain s' where s': "tmcuart_send_event a s = Ret SF_RESCHEDULE s'"
    using r(1) by (cases x) (auto simp: tmcuart_send_event_def Let_def g x rn)
  then have "tmcs s' a = ?t\<lparr>tu_flags := tu_flags ?t XOR TU_LINE_HIGH, tu_pos := (case fst r of None \<Rightarrow> tu_pos ?t | Some q \<Rightarrow> q)\<rparr>"
    using r(1) by (cases x) (auto simp: tmcuart_send_event_def Let_def g x rn)
  moreover from s' have "timers s' (MemT a) = (timers s (MemT a))\<lparr>waketime := waketime_of s (MemT a) + snd r,
       func := (case fst r of None \<Rightarrow> F_tmcuart_send_finish_event | Some _ \<Rightarrow> F_tmcuart_send_event)\<rparr>"
    using r(1) assms(2) by (cases x) (auto simp: tmcuart_send_event_def Let_def g x rn)
  ultimately show ?thesis
    by (rule that [OF s' r(2)])
qed

lemma send_event_ok:
  assumes "tmc_obj a s" "func (timers s (MemT a)) = F_tmcuart_send_event"
  shows "tmc_goes_on a (tmcuart_send_event a s)"
  using assms
  by (rule send_event_step) (use assms in \<open>auto simp: tmc_ok_def tmc_funcs_def scanned_def split: option.splits prod.splits\<close>)

lemma send_sync_event_ok:
  assumes "tmc_obj a s" "func (timers s (MemT a)) = F_tmcuart_send_sync_event"
  shows "tmc_goes_on a (tmcuart_send_sync_event a s)"
proof -
  have g: "tmcs (gpio_out_toggle_noirq p s) = tmcs s" "timers (gpio_out_toggle_noirq p s) = timers s" for p
    by (simp_all add: gpio_out_toggle_noirq_def write_module_def)
  have p: "unat (tu_pos (tmcs s a) + 1) = unat (tu_pos (tmcs s a)) + 1"
    using assms by (intro unat_inc_pos) (simp add: tmc_ok_def)
  then have "unat (1::u8) < unat (tu_pos (tmcs s a) + 1) \<or> tu_pos (tmcs s a) + 1 = 1"
    by (metis add_cancel_left_left gr0I less_add_same_cancel2 unat_1 unat_eq_zero)
  then show ?thesis
    using assms p by (auto simp: tmcuart_send_sync_event_def timer_read_time_def tick_def Let_def g tmc_ok_def tmc_funcs_def
        word_le_nat_alt)
qed

section \<open>The waveform of a frame\<close>

text \<open>The runs of equal bits of a frame, with their lengths.\<close>

function runs :: "bool list \<Rightarrow> (nat \<times> bool) list" where
  "runs [] = []"
| "runs (b # bs) = (Suc (length (takeWhile ((=) b) bs)), b) # runs (dropWhile ((=) b) bs)"
  by pat_completeness auto
termination
  by (relation "measure length") (auto simp: le_imp_less_Suc length_dropWhile_le)

abbreviation frame :: "tmcuart_s \<Rightarrow> bool list" where
  "frame t \<equiv> map (frame_bit (tu_data t)) [unat (tu_pos t)..<unat (tu_write_count t)]"

abbreviation line_high :: "nat \<Rightarrow> 'z tmcuart_scheme \<Rightarrow> bool" where
  "line_high a s \<equiv> has (tu_flags (tmcs s a)) TU_LINE_HIGH"

text \<open>The send events of a transmission, with the time until the next event and the level of the line until then.\<close>

inductive sent :: "nat \<Rightarrow> 'z tmcuart_scheme \<Rightarrow> (u32 \<times> bool) list \<Rightarrow> 'z tmcuart_scheme \<Rightarrow> bool" for a where
  finished: "func (timers s (MemT a)) = F_tmcuart_send_finish_event \<Longrightarrow> sent a s [] s"
| event: "func (timers s (MemT a)) = F_tmcuart_send_event \<Longrightarrow> tmcuart_send_event a s = Ret SF_RESCHEDULE s1 \<Longrightarrow> sent a s1 w s' \<Longrightarrow>
    sent a s ((waketime_of s1 (MemT a) - waketime_of s (MemT a), line_high a s1) # w) s'"

lemma frame_bits:
  assumes "passed data l p q" "frame_bit data p = l" "p < q"
  shows "map (frame_bit data) [p..<q] = replicate (q - p) l"
proof (rule nth_equalityI)
  fix i
  assume "i < length (map (frame_bit data) [p..<q])"
  then show "map (frame_bit data) [p..<q] ! i = replicate (q - p) l ! i"
    using assms by (cases i) (auto simp: passed_def)
qed simp

lemma runs_replicate: "0 < n \<Longrightarrow> bs = [] \<or> hd bs \<noteq> l \<Longrightarrow> runs (replicate n l @ bs) = (n, l) # runs bs"
  by (cases n; cases bs) (simp_all add: takeWhile_replicate dropWhile_replicate takeWhile_append dropWhile_append)

lemma xor_line: "has (f XOR TU_LINE_HIGH) TU_LINE_HIGH = (\<not> has f TU_LINE_HIGH)" for f :: u8
  by (simp add: has_def TU_LINE_HIGH_def and_one_eq mod2_eq_if even_xor_iff)

text \<open>One send event transmits one run.\<close>

lemma send_event_run:
  assumes "tmc_obj a s" "func (timers s (MemT a)) = F_tmcuart_send_event" "unat (tu_pos (tmcs s a)) < unat (tu_write_count (tmcs s a))"
    "frame_bit (tu_data (tmcs s a)) (unat (tu_pos (tmcs s a))) \<noteq> line_high a s"
  obtains s1 n bs where "tmcuart_send_event a s = Ret SF_RESCHEDULE s1" "tmc_obj a s1" "line_high a s1 = (\<not> line_high a s)"
    "runs (frame (tmcs s a)) = (n, line_high a s1) # runs bs"
    "waketime_of s1 (MemT a) = waketime_of s (MemT a) + of_nat n * tu_bit_time (tmcs s a)"
    "tu_bit_time (tmcs s1 a) = tu_bit_time (tmcs s a)" "0 < n" "n + length bs = length (frame (tmcs s a))"
    "if bs = [] then func (timers s1 (MemT a)) = F_tmcuart_send_finish_event
     else func (timers s1 (MemT a)) = F_tmcuart_send_event \<and> unat (tu_pos (tmcs s1 a)) < unat (tu_write_count (tmcs s1 a)) \<and>
       frame (tmcs s1 a) = bs \<and> frame_bit (tu_data (tmcs s1 a)) (unat (tu_pos (tmcs s1 a))) \<noteq> line_high a s1"
proof -
  let ?t = "tmcs s a"
  let ?l = "\<not> line_high a s" and ?p = "unat (tu_pos ?t)" and ?w = "unat (tu_write_count ?t)"
  obtain r s1 where e: "tmcuart_send_event a s = Ret SF_RESCHEDULE s1"
    and sc: "scanned (tu_data ?t) ?w ?l (tu_bit_time ?t) ?p (tu_bit_time ?t) r"
    and t1: "tmcs s1 a = ?t\<lparr>tu_flags := tu_flags ?t XOR TU_LINE_HIGH,
       tu_pos := (case fst r of None \<Rightarrow> tu_pos ?t | Some q \<Rightarrow> q)\<rparr>"
    and m1: "timers s1 (MemT a) = (timers s (MemT a))\<lparr>waketime := waketime_of s (MemT a) + snd r,
       func := (case fst r of None \<Rightarrow> F_tmcuart_send_finish_event | Some _ \<Rightarrow> F_tmcuart_send_event)\<rparr>"
    using assms(1,2) by (rule send_event_step)
  define q where "q = (case fst r of None \<Rightarrow> ?w | Some q \<Rightarrow> unat q)"
  let ?bs = "map (frame_bit (tu_data ?t)) [q..<?w]"
  have q: "?p < q" "q \<le> ?w" "passed (tu_data ?t) ?l ?p q" "q < ?w \<Longrightarrow> frame_bit (tu_data ?t) q \<noteq> ?l"
    "snd r = of_nat (q - ?p) * tu_bit_time ?t"
    using sc assms(3) by (auto simp: scanned_def q_def max_def algebra_simps split: prod.splits option.splits)
  have "[?p..<?w] = [?p..<q] @ [q..<?w]"
    using q(1,2) upt_add_eq_append [of ?p q "?w - q"] by simp
  then have "frame ?t = replicate (q - ?p) ?l @ ?bs"
    using frame_bits [OF q(3) _ q(1)] assms(4) by simp
  moreover have "?bs = [] \<or> hd ?bs \<noteq> ?l"
    using q(4) by (cases "q < ?w") (simp_all add: hd_map)
  ultimately have runs: "runs (frame ?t) = (q - ?p, ?l) # runs ?bs"
    using runs_replicate q(1) by simp
  show ?thesis
  proof (rule that [OF e, where n = "q - ?p" and bs = ?bs])
    show l: "line_high a s1 = ?l"
      using t1 by (simp add: xor_line)
    show "tmc_obj a s1"
      using send_event_ok [OF assms(1,2)] e by simp
    show "runs (frame ?t) = (q - ?p, line_high a s1) # runs ?bs"
      using runs l by simp
    show "if ?bs = [] then func (timers s1 (MemT a)) = F_tmcuart_send_finish_event
     else func (timers s1 (MemT a)) = F_tmcuart_send_event \<and> unat (tu_pos (tmcs s1 a)) < unat (tu_write_count (tmcs s1 a)) \<and>
       frame (tmcs s1 a) = ?bs \<and> frame_bit (tu_data (tmcs s1 a)) (unat (tu_pos (tmcs s1 a))) \<noteq> line_high a s1"
      using q sc l by (auto simp: t1 m1 q_def scanned_def split: option.splits prod.splits)
  qed (use q t1 m1 in simp_all)
qed

abbreviation waveform :: "tmcuart_s \<Rightarrow> (u32 \<times> bool) list" where
  "waveform t \<equiv> map (\<lambda>(n, l). (of_nat n * tu_bit_time t, l)) (runs (frame t))"

lemma send_frame:
  assumes "tmc_obj a s" "func (timers s (MemT a)) = F_tmcuart_send_event" "unat (tu_pos (tmcs s a)) < unat (tu_write_count (tmcs s a))"
    "frame_bit (tu_data (tmcs s a)) (unat (tu_pos (tmcs s a))) \<noteq> line_high a s"
  shows "\<exists>s'. sent a s (waveform (tmcs s a)) s' \<and>
    waketime_of s' (MemT a) = waketime_of s (MemT a) + of_nat (length (frame (tmcs s a))) * tu_bit_time (tmcs s a)"
  using assms
proof (induction "length (frame (tmcs s a))" arbitrary: s rule: less_induct)
  case less
  obtain s1 n bs where e: "tmcuart_send_event a s = Ret SF_RESCHEDULE s1" "tmc_obj a s1" "line_high a s1 = (\<not> line_high a s)"
    "runs (frame (tmcs s a)) = (n, line_high a s1) # runs bs"
    and w: "waketime_of s1 (MemT a) = waketime_of s (MemT a) + of_nat n * tu_bit_time (tmcs s a)"
    and b: "tu_bit_time (tmcs s1 a) = tu_bit_time (tmcs s a)" and n: "0 < n" "n + length bs = length (frame (tmcs s a))"
    and f: "if bs = [] then func (timers s1 (MemT a)) = F_tmcuart_send_finish_event
     else func (timers s1 (MemT a)) = F_tmcuart_send_event \<and> unat (tu_pos (tmcs s1 a)) < unat (tu_write_count (tmcs s1 a)) \<and>
       frame (tmcs s1 a) = bs \<and> frame_bit (tu_data (tmcs s1 a)) (unat (tu_pos (tmcs s1 a))) \<noteq> line_high a s1"
    using less.prems by (rule send_event_run)
  note step = sent.event [OF less.prems(2) e(1), unfolded w add_diff_cancel_left']
  show ?case
  proof (cases "bs = []")
    case True
    then show ?thesis
      using step [OF sent.finished [of s1 a]] e f n w by auto
  next
    case False
    with f have f: "func (timers s1 (MemT a)) = F_tmcuart_send_event" "unat (tu_pos (tmcs s1 a)) < unat (tu_write_count (tmcs s1 a))"
       "frame (tmcs s1 a) = bs" "frame_bit (tu_data (tmcs s1 a)) (unat (tu_pos (tmcs s1 a))) \<noteq> line_high a s1"
      by simp_all
    obtain s' where s': "sent a s1 (waveform (tmcs s1 a)) s'"
      "waketime_of s' (MemT a) = waketime_of s1 (MemT a) + of_nat (length bs) * tu_bit_time (tmcs s1 a)"
      using less.hyps [OF _ e(2) f(1,2,4)] f(3) n by auto
    moreover have "waveform (tmcs s a) = (of_nat n * tu_bit_time (tmcs s a), line_high a s1) # waveform (tmcs s1 a)"
      using e(4) f(3) b by simp
    moreover have "of_nat (length (frame (tmcs s a))) = (of_nat n + of_nat (length bs) :: u32)"
      using n(2) by (metis of_nat_add)
    ultimately show ?thesis
      using step [OF s'(1)] b w by (simp add: algebra_simps) blast
  qed
qed

section \<open>Starting a transmission\<close>

lemma insert_timer_frame:
  assumes "insert_timer p t w s = Ret () s'"
  shows "tmcs s' = tmcs s \<and> func (timers s' u) = func (timers s u)"
  using assms by (cases "insert_walk (timers s) p w") (auto simp: insert_timer_def Let_def upd_def)

lemma add_timer_frame:
  assumes "sched_add_timer t tag s = Ret () s'"
  shows "tmcs s' = tmcs s \<and> func (timers s' u) = func (timers s u)"
proof (cases "timer_is_before (waketime_of s t) (waketime_of s (timer_list s))")
  case True
  define s1 where "s1 = snd (timer_read_time s)"
  define s2 where "s2 = (if timer_is_before (waketime_of s t) (fst (timer_read_time s))
    then s1\<lparr>ff_temp_waketime := waketime_of s t, ff_close_num := fst (timer_read_time s), ff_timer_close := tag\<rparr> else s1)"
  have "s' = timer_kick (set_next DeletedT (Some t) (set_waketime DeletedT (waketime_of s t)
      (set_next t (if timer_list s = DeletedT then nxt (timers s2 DeletedT) else Some (timer_list s)) s2))\<lparr>timer_list := DeletedT\<rparr>)"
    using assms True
    by (simp add: sched_add_timer_def Let_def split_def s1_def s2_def sched_try_shutdown_def sched_shutdown_def shutdown_def split: if_splits)
  moreover have "tmcs s2 = tmcs s" "timers s2 = timers s"
    by (simp_all add: s2_def s1_def timer_read_time_def tick_def)
  ultimately show ?thesis
    by (simp add: timer_kick_def upd_def)
next
  case False
  then show ?thesis
    using assms insert_timer_frame by (simp add: sched_add_timer_def)
qed

lemma unat_times_8: "unat (n::u8) \<le> 10 \<Longrightarrow> unat (n * 8) = unat n * 8"
  by (subst unat_mult_lem [THEN iffD1]) simp_all

lemma send_starts:
  assumes "command_tmcuart_send buf args s = Ret () s'" "oid_lookup (ucast (args ! 0)) T_config_tmcuart s = Ret a s"
    "\<not> has (tu_flags (tmcs s a)) TU_ACTIVE" "length (tu_data (tmcs s a)) = TMC_DATA_SIZE"
    "unat (args ! 2) + unat (ucast (args ! 1) :: u8) \<le> length buf"
  shows "tmc_obj a s'"
proof -
  let ?n = "ucast (args ! 1) :: u8" and ?m = "ucast (args ! 3) :: u8"
  have len: "unat ?n \<le> 10" "unat ?m \<le> 10"
    using assms(1-3) by (auto simp: command_tmcuart_send_def Let_def shutdown_ec_def shutdown_def TMC_DATA_SIZE_def
        split: if_splits)
  have s: "\<not> (unat ?n > TMC_DATA_SIZE \<or> unat ?m > TMC_DATA_SIZE)"
    using len by (simp add: TMC_DATA_SIZE_def)
  have d: "length (decode_bytes buf (args ! 2) (unat ?n) @ drop (unat ?n) (tu_data (tmcs s a))) = TMC_DATA_SIZE"
    using assms(4,5) len by (simp add: decode_bytes_def TMC_DATA_SIZE_def)
  define s1 where "s1 = upd_tu a (\<lambda>x. x\<lparr>tu_data := decode_bytes buf (args ! 2) (unat ?n) @ drop (unat ?n) (tu_data x), tu_pos := 0,
      tu_flags := (tu_flags x AND (TU_LINE_HIGH OR TU_PULLUP OR TU_SINGLE_WIRE)) OR TU_ACTIVE,
      tu_write_count := ?n * 8, tu_read_count := ?m * 8\<rparr>) s"
  define s2 where "s2 = (if ?n \<ge> 1 \<and> tu_data (tmcs s1 a) ! 0 AND 0x3f = 0x2a
      then set_func (MemT a) F_tmcuart_send_sync_event s1
      else set_func (MemT a) F_tmcuart_send_event (upd_tu a (\<lambda>x. x\<lparr>tu_bit_time := tu_cfg_bit_time x\<rparr>) s1))"
  define s3 where "s3 = set_waketime (MemT a) (fst (timer_read_time s2) + timer_from_us 200) (snd (timer_read_time s2))"
  have run: "sched_add_timer (MemT a) FF_TIMER_TMCUART_SEND s3 = Ret () s'"
    using assms(1) unfolding command_tmcuart_send_def assms(2) bind.simps Let_def
    by (simp only: s assms(3) if_False split_def s3_def s2_def s1_def)
  have 1: "tmc_ok (tmcs s1 a) F_tmcuart_send_sync_event" "tmc_ok (tmcs s1 a) F_tmcuart_send_event"
    using d len by (simp_all add: s1_def tmc_ok_def tmc_funcs_def unat_times_8 del: length_append)
  then have "tmc_obj a s2"
    unfolding s2_def by (simp add: tmc_ok_def)
  then have "tmc_obj a s3"
    by (simp add: s3_def timer_read_time_def tick_def)
  then show ?thesis
    using add_timer_frame [OF run, of "MemT a"] by simp
qed

text \<open>
  The life of a transmission: events of its timer that do not end it, and other code in between that
  leaves the data, the counts, the position and the callback of the object alone (\<open>tmcuart_task\<close> among it).
\<close>

inductive tmc_run :: "nat \<Rightarrow> 'z tmcuart_scheme \<Rightarrow> 'z tmcuart_scheme \<Rightarrow> bool" for a s where
  start: "tmc_run a s s"
| event: "tmc_run a s s1 \<Longrightarrow> tmc_call (func (timers s1 (MemT a))) a s1 = Ret SF_RESCHEDULE s2 \<Longrightarrow> tmc_run a s s2"
| other: "tmc_run a s s1 \<Longrightarrow> tmcs s2 a = (tmcs s1 a)\<lparr>tu_flags := f\<rparr> \<Longrightarrow> func (timers s2 (MemT a)) = func (timers s1 (MemT a)) \<Longrightarrow>
    tmc_run a s s2"

lemma tmc_call_ok:
  assumes "tmc_obj a s"
  shows "tmc_goes_on a (tmc_call (func (timers s (MemT a))) a s)"
proof -
  have "func (timers s (MemT a)) \<in> tmc_funcs"
    using assms by (simp add: tmc_ok_def)
  then show ?thesis
    using assms read_event_ok [OF assms] read_sync_event_ok [OF assms] send_finish_event_ok [OF assms]
      send_event_ok [OF assms] send_sync_event_ok [OF assms]
    by (auto simp: tmc_funcs_def)
qed

lemma tmc_run_ok: "tmc_run a s s' \<Longrightarrow> tmc_obj a s \<Longrightarrow> tmc_obj a s'"
proof (induction rule: tmc_run.induct)
  case (event s1 s2)
  then show ?case
    using tmc_call_ok [of s1 a] by simp
qed (simp_all add: tmc_ok_def)

section \<open>Properties\<close>

text \<open>
  C27. Memory safety of the TMC UART: once \<open>command_tmcuart_send\<close> has accepted a message (of at most
  ten bytes to write and to read), no event of the transmission accesses memory outside of the
  object's data buffer, whatever the line reads and however the events interleave with the rest of
  the firmware, and none shuts the firmware down.
\<close>

theorem tmcuart_memory_safe:
  assumes "command_tmcuart_send buf args s = Ret () s'" "oid_lookup (ucast (args ! 0)) T_config_tmcuart s = Ret a s"
    "\<not> has (tu_flags (tmcs s a)) TU_ACTIVE" "length (tu_data (tmcs s a)) = TMC_DATA_SIZE"
    "unat (args ! 2) + unat (ucast (args ! 1) :: u8) \<le> length buf" "tmc_run a s' s''"
  shows "\<exists>r s3. tmc_call (func (timers s'' (MemT a))) a s'' = Ret r s3 \<and> length (tu_data (tmcs s'' a)) = TMC_DATA_SIZE"
proof -
  have ok: "tmc_obj a s''"
    using tmc_run_ok [OF assms(6)] send_starts [OF assms(1-5)] .
  then show ?thesis
    using tmc_call_ok [OF ok] by (cases "tmc_call (func (timers s'' (MemT a))) a s''") (auto simp: tmc_ok_def)
qed

text \<open>An object of type \<open>config_tmcuart\<close> with oid 0 at address 400, which holds a one byte frame.\<close>

definition one_uart :: tmcuart where
  "one_uart = upd_tu 400 (\<lambda>x. x\<lparr>tu_flags := TU_LINE_HIGH, tu_bit_time := 100, tu_write_count := 8, tu_data := 0xF0 # replicate 9 0\<rparr>)
     ((tmcuart_static (quiet_env 0xF0000000) 0 0 ())
        \<lparr>oid_count := 1, oids := \<lambda>_. \<lparr>otype = Some T_config_tmcuart, odata = 400\<rparr>\<rparr>)"

lemmas one_uart_defs = one_uart_def tmcuart_static_def counters_static_def buttons_static_def analog_static_def pwm_static_def
  digital_static_def endstops_static_def eddy_static_def steppers_static_def trsyncs_static_def timer_irq_static_def
  serial_static_def command_static_def base_static_def sched_static_def board_static_def

lemma one_uart_uart:
  "tmcs one_uart 400 = tmcuart_zero\<lparr>tu_flags := TU_LINE_HIGH, tu_bit_time := 100, tu_write_count := 8, tu_data := 0xF0 # replicate 9 0\<rparr>"
  by (simp add: one_uart_defs)

lemma one_uart_timers: "timers one_uart = timers_static" "timer_list one_uart = PeriodicT"
  "env_at one_uart = quiet_env 0xF0000000"
  by (simp_all add: one_uart_defs)

theorem tmcuart_memory_safe_witness:
  "\<exists>s' r s''. command_tmcuart_send [0xAA, 0x55] [0, 2, 0, 0] one_uart = Ret () s' \<and>
     tmc_call (func (timers s' (MemT 400))) 400 s' = Ret r s''"
proof -
  have o: "oid_lookup 0 T_config_tmcuart one_uart = Ret 400 one_uart"
    by (simp add: oid_lookup_def one_uart_defs)
  obtain s' where s': "command_tmcuart_send [0xAA, 0x55] [0, 2, 0, 0] one_uart = Ret () s'"
    by (simp add: command_tmcuart_send_def o Let_def one_uart_uart one_uart_timers tmcuart_zero_def decode_bytes_def
        TMC_DATA_SIZE_def timer_read_time_def sample_def tick_def quiet_env_def sched_add_timer_def timers_static_def
        has_def TU_LINE_HIGH_def TU_ACTIVE_def timer_is_before_def timer_from_us_def CONFIG_CLOCK_FREQ_def)
  then show ?thesis
    using tmcuart_memory_safe [OF s', where a = 400 and s'' = s'] o
    by (auto simp: one_uart_uart TMC_DATA_SIZE_def has_def TU_LINE_HIGH_def TU_ACTIVE_def tmcuart_zero_def intro: tmc_run.start)
qed



end
