(* ===== verification/Neopixel.thy ===== *)
theory Neopixel
  imports Tmcuart
begin

text \<open>
  \<^verbatim>\<open>src/klipper/src/neopixel.c\<close>: bit-banged WS2812 leds, \<^verbatim>\<open>debugcmds.c\<close> without the raw memory
  access, and \<^verbatim>\<open>initial_pins.c\<close>. A wait loop reads the clock until enough time has passed; it is
  \<open>None\<close> when that never happens.
\<close>

section \<open>State\<close>

record neopixel_s =
  np_pin :: gpio_pin
  np_bit_max_ticks :: u32
  np_last_req_time :: u32
  np_reset_min_ticks :: u32
  np_data_size :: u16
  np_data :: "u8 list"

record firmware = tmcuart +
  neos :: "nat \<Rightarrow> neopixel_s"

definition neopixel_zero :: "nat \<Rightarrow> neopixel_s" where
  "neopixel_zero n = \<lparr>np_pin = no_pin, np_bit_max_ticks = 0, np_last_req_time = 0, np_reset_min_ticks = 0,
     np_data_size = 0, np_data = replicate n 0\<rparr>"

definition firmware_static :: "(nat \<Rightarrow> env) \<Rightarrow> nat \<Rightarrow> nat \<Rightarrow> 'z \<Rightarrow> 'z firmware_scheme" where
  "firmware_static ev start end m = tmcuart_static ev start end (firmware_ext (\<lambda>_. neopixel_zero 0) m)"

abbreviation upd_np :: "nat \<Rightarrow> (neopixel_s \<Rightarrow> neopixel_s) \<Rightarrow> 'z firmware_scheme \<Rightarrow> 'z firmware_scheme" where
  "upd_np a f s \<equiv> s\<lparr>neos := upd (neos s) a f\<rparr>"

section \<open>Timing\<close>

definition nsecs_to_ticks :: "u32 \<Rightarrow> u32" where
  "nsecs_to_ticks ns = timer_from_us (ns * 1000) div 1000000"

definition neopixel_check_elapsed :: "u32 \<Rightarrow> u32 \<Rightarrow> u32 \<Rightarrow> bool" where
  "neopixel_check_elapsed t1 t2 ticks \<longleftrightarrow> t2 - t1 \<ge> ticks"

definition neopixel_get_time :: "'z board_scheme \<Rightarrow> u32 \<times> 'z board_scheme" where
  "neopixel_get_time s = timer_read_time s"

partial_function (option) neopixel_delay :: "u32 \<Rightarrow> u32 \<Rightarrow> 'z board_scheme \<Rightarrow> 'z board_scheme option" where
  "neopixel_delay start ticks s =
     (case neopixel_get_time s of (t, s) \<Rightarrow>
        if neopixel_check_elapsed start t ticks then Some s else neopixel_delay start ticks s)"

definition PULSE_LONG_TICKS :: u32 where "PULSE_LONG_TICKS = nsecs_to_ticks 650"
definition PULSE_SHORT_TICKS :: u32 where "PULSE_SHORT_TICKS = nsecs_to_ticks 200"
definition BIT_MIN_TICKS :: u32 where "BIT_MIN_TICKS = nsecs_to_ticks 1250"

section \<open>Sending\<close>

text \<open>
  One bit: the start of its pulse, or \<open>None\<close> when the pulse came too late; the state.
\<close>

definition send_bit ::
  "gpio_pin \<Rightarrow> u32 \<Rightarrow> bool \<Rightarrow> u32 \<Rightarrow> 'z board_scheme \<Rightarrow> (u32 option \<times> 'z board_scheme) option" where
  "send_bit pin bit_max_ticks b last_start s =
     Option.bind (neopixel_delay last_start BIT_MIN_TICKS s) (\<lambda>s.
       let (start, s) = neopixel_get_time s;
           s = gpio_out_toggle_noirq pin s
       in if b
          then if neopixel_check_elapsed last_start start bit_max_ticks then Some (None, s)
               else Option.bind (neopixel_delay start PULSE_LONG_TICKS s) (\<lambda>s.
                      let s = gpio_out_toggle_noirq pin s;
                          (t, s) = neopixel_get_time s
                      in Option.bind (neopixel_delay t PULSE_SHORT_TICKS s) (\<lambda>s. Some (Some start, s)))
          else Option.bind (neopixel_delay start PULSE_SHORT_TICKS s) (\<lambda>s.
                 let s = gpio_out_toggle_noirq pin s
                 in if neopixel_check_elapsed last_start start bit_max_ticks then Some (None, s)
                    else Some (Some start, s)))"

primrec send_bits ::
  "gpio_pin \<Rightarrow> u32 \<Rightarrow> bool list \<Rightarrow> u32 \<Rightarrow> 'z board_scheme \<Rightarrow> (u32 option \<times> 'z board_scheme) option" where
  "send_bits pin bit_max_ticks [] last_start s = Some (Some last_start, s)"
| "send_bits pin bit_max_ticks (b # bs) last_start s =
     Option.bind (send_bit pin bit_max_ticks b last_start s) (\<lambda>(r, s).
       case r of None \<Rightarrow> Some (None, s) | Some start \<Rightarrow> send_bits pin bit_max_ticks bs start s)"

text \<open>The bits of a byte, the highest first.\<close>

definition byte_bits :: "u8 \<Rightarrow> bool list" where
  "byte_bits x = map (bit x) (rev [0..<8])"

partial_function (option) reset_wait :: "u32 \<Rightarrow> u32 \<Rightarrow> u32 \<Rightarrow> 'z board_scheme \<Rightarrow> 'z board_scheme option" where
  "reset_wait last_req_time rmt cur s =
     (if cur - last_req_time < rmt
      then case timer_read_time s of (cur, s) \<Rightarrow> reset_wait last_req_time rmt cur s
      else Some s)"

definition send_data :: "nat \<Rightarrow> 'z firmware_scheme \<Rightarrow> (bool, 'z firmware_scheme) res" where
  "send_data a s =
     (let n = neos s a;
          (cur, s) = timer_read_time s
      in case reset_wait (np_last_req_time n) (np_reset_min_ticks n) cur s of
           None \<Rightarrow> Fault
         | Some s \<Rightarrow>
             let (last_start, s) = neopixel_get_time s
             in case send_bits (np_pin n) (np_bit_max_ticks n)
                       (concat (map byte_bits (take (unat (np_data_size n)) (np_data n)))) last_start s of
                  None \<Rightarrow> Fault
                | Some (Some _, s) \<Rightarrow>
                    let (t, s) = timer_read_time s in Ret True (upd_np a (\<lambda>x. x\<lparr>np_last_req_time := t\<rparr>) s)
                | Some (None, s) \<Rightarrow>
                    let s = gpio_out_write (np_pin n) 0 s;
                        (t, s) = timer_read_time s
                    in Ret False (upd_np a (\<lambda>x. x\<lparr>np_last_req_time := t\<rparr>) s))"

section \<open>Commands\<close>

definition command_config_neopixel :: "u32 list \<Rightarrow> 'z firmware_scheme \<Rightarrow> (unit, 'z firmware_scheme) res" where
  "command_config_neopixel args s =
     bind (gpio_out_setup (args ! 1) 0 s) (\<lambda>pin s.
       let data_size = ucast (args ! 2) :: u16
       in if has data_size 0x8000 then shutdown_ec FF_EC_NEOPIXEL_DATA_SIZE ''Invalid neopixel data_size'' s
          else bind (oid_alloc (ucast (args ! 0)) T_config_neopixel (24 + unat data_size) s) (\<lambda>a s.
                 let s = upd_np a (\<lambda>_. neopixel_zero (unat data_size)) s
                 in Ret () (upd_np a (\<lambda>x. x\<lparr>np_pin := pin, np_data_size := data_size,
                      np_bit_max_ticks := args ! 3, np_reset_min_ticks := args ! 4\<rparr>) s)))"

text \<open>\<open>memcpy\<close> into the data; a copy that leaves the allocated area is a \<open>Fault\<close>.\<close>

definition command_neopixel_update ::
  "u8 list \<Rightarrow> u32 list \<Rightarrow> 'z firmware_scheme \<Rightarrow> (unit, 'z firmware_scheme) res" where
  "command_neopixel_update buf args s =
     bind (oid_lookup (ucast (args ! 0)) T_config_neopixel s) (\<lambda>a s.
       let pos = args ! 1;
           data_len = args ! 2;
           data = decode_bytes buf (args ! 3) (unat data_len)
       in if has pos 0x8000 \<or> pos + data_len > ucast (np_data_size (neos s a))
          then shutdown_ec FF_EC_NEOPIXEL_UPDATE ''Invalid neopixel update command'' s
          else if unat pos + unat data_len > length (np_data (neos s a)) then Fault
          else Ret () (upd_np a (\<lambda>x. x\<lparr>np_data := take (unat pos) (np_data x) @ data @
                 drop (unat pos + unat data_len) (np_data x)\<rparr>) s))"

definition command_neopixel_send :: "u32 list \<Rightarrow> 'z firmware_scheme \<Rightarrow> (unit, 'z firmware_scheme) res" where
  "command_neopixel_send args s =
     (let oid = ucast (args ! 0) :: u8 in
      bind (oid_lookup oid T_config_neopixel s) (\<lambda>a s.
      bind (send_data a s) (\<lambda>ok s.
        Ret () (sendf ''neopixel_result oid=%c success=%c'' [U (ucast oid), U (c_bool ok)] s))))"

section \<open>Debugging commands\<close>

definition command_debug_ping :: "u8 list \<Rightarrow> u32 list \<Rightarrow> 'z board_scheme \<Rightarrow> 'z board_scheme" where
  "command_debug_ping buf args s =
     (let len = ucast (args ! 0) :: u8
      in sendf ''pong data=%*s'' [Bytes (decode_bytes buf (args ! 1) (unat len))] s)"

definition command_debug_nop :: "u32 list \<Rightarrow> 's \<Rightarrow> 's" where
  "command_debug_nop args s = s"

section \<open>Initial pins\<close>

definition IP_OUT_HIGH :: u8 where "IP_OUT_HIGH = 1"

text \<open>\<open>pins\<close> is the table \<open>initial_pins\<close> that the build generates.\<close>

primrec initial_pins_setup :: "(u32 \<times> u8) list \<Rightarrow> 'z board_scheme \<Rightarrow> (unit, 'z board_scheme) res" where
  "initial_pins_setup [] s = Ret () s"
| "initial_pins_setup (p # pins) s =
     bind (gpio_out_setup (fst p) (ucast (snd p AND IP_OUT_HIGH)) s) (\<lambda>_ s. initial_pins_setup pins s)"

end
