(* ===== verification/Firmware.thy ===== *)
theory Firmware
  imports Neopixel
begin

text \<open>
  The components put together: the call of timer callbacks, the declared commands, tasks, shutdown
  functions and interrupts, and the main loop of \<^verbatim>\<open>src/klipper/src/sched.c\<close>.

  The build generates the table of commands and the order in which tasks and shutdown functions are
  called. The order is an argument here; the declarations themselves (\<open>DECL_COMMAND\<close>,
  \<open>DECL_TASK\<close>, \<open>DECL_SHUTDOWN\<close>) are translated from the sources.
\<close>

section \<open>Timer callbacks\<close>

text \<open>\<open>container_of\<close> for a timer that is the first field of an object.\<close>

definition on_object :: "(nat \<Rightarrow> 's \<Rightarrow> (sf, 's) res) \<Rightarrow> tptr \<Rightarrow> 's \<Rightarrow> (sf, 's) res" where
  "on_object f t s = (case t of MemT a \<Rightarrow> f a s | _ \<Rightarrow> Fault)"

text \<open>The call through \<open>t->func\<close>; a null pointer stands for \<open>stepper_event\<close>.\<close>

fun run_timer :: "timer_func \<Rightarrow> tptr \<Rightarrow> 'z firmware_scheme \<Rightarrow> (sf, 'z firmware_scheme) res" where
  "run_timer F_NULL t s = stepper_event t s"
| "run_timer F_periodic_event t s = periodic_event s"
| "run_timer F_sentinel_event t s = sentinel_event s"
| "run_timer F_deleted_event t s = deleted_event s"
| "run_timer F_ff_eddy_timer_event t s = ff_eddy_timer_event t s"
| "run_timer F_timer_wrap_event t s = timer_wrap_event t s"
| "run_timer F_stepper_event_full t s = on_object stepper_event_full t s"
| "run_timer F_trsync_report_event t s = trsync_report_event t s"
| "run_timer F_trsync_expire_event t s = trsync_expire_event trsync_call t s"
| "run_timer F_endstop_event t s = on_object endstop_event t s"
| "run_timer F_endstop_oversample_event t s = on_object endstop_oversample_event t s"
| "run_timer F_digital_toggle_event t s = on_object digital_toggle_event t s"
| "run_timer F_digital_load_event t s = on_object digital_load_event t s"
| "run_timer F_pwm_event t s = on_object pwm_event t s"
| "run_timer F_pwm_end_event t s = on_object pwm_end_event t s"
| "run_timer F_analog_in_event t s = on_object analog_in_event t s"
| "run_timer F_buttons_event t s = on_object buttons_event t s"
| "run_timer F_counter_event t s = on_object counter_event t s"
| "run_timer F_tmcuart_read_event t s = on_object tmcuart_read_event t s"
| "run_timer F_tmcuart_read_sync_event t s = on_object tmcuart_read_sync_event t s"
| "run_timer F_tmcuart_send_finish_event t s = on_object tmcuart_send_finish_event t s"
| "run_timer F_tmcuart_send_event t s = on_object tmcuart_send_event t s"
| "run_timer F_tmcuart_send_sync_event t s = on_object tmcuart_send_sync_event t s"

section \<open>Commands\<close>

definition decl_command ::
  "ptype list \<Rightarrow> u8 \<Rightarrow> (u8 list \<Rightarrow> u32 list \<Rightarrow> 's \<Rightarrow> (unit, 's) res) \<Rightarrow> 's command_parser" where
  "decl_command ts flags f =
     \<lparr>cp_num_args = (\<Sum>t\<leftarrow>ts. if t = PT_buffer then 2 else 1), cp_flags = flags, cp_param_types = ts, cp_func = f\<rparr>"

abbreviation returns :: "(u32 list \<Rightarrow> 's \<Rightarrow> 's) \<Rightarrow> u8 list \<Rightarrow> u32 list \<Rightarrow> 's \<Rightarrow> (unit, 's) res" where
  "returns f \<equiv> \<lambda>_ args s. Ret () (f args s)"

abbreviation plain :: "(u32 list \<Rightarrow> 's \<Rightarrow> (unit, 's) res) \<Rightarrow> u8 list \<Rightarrow> u32 list \<Rightarrow> 's \<Rightarrow> (unit, 's) res" where
  "plain f \<equiv> \<lambda>_. f"

text \<open>
  The declarations of \<^verbatim>\<open>basecmd.c\<close> and \<^verbatim>\<open>debugcmds.c\<close>, each as in the \<open>DECL_COMMAND\<close> line of its handler.
  \<open>data\<close> is the generated dictionary, \<open>pa\<close> the variable \<open>ff_pa_value\<close>.
\<close>

definition DECL_identify :: "u8 list \<Rightarrow> 'z firmware_scheme command_parser" where
  "DECL_identify data = decl_command [PT_uint32, PT_byte] HF_IN_SHUTDOWN (returns (command_identify data))"

definition DECL_remove_peel :: "'z firmware_scheme command_parser" where
  "DECL_remove_peel = decl_command [PT_uint32] 0 (returns command_remove_peel)"

definition DECL_get_emcu_pa_value :: "u32 \<Rightarrow> 'z firmware_scheme command_parser" where
  "DECL_get_emcu_pa_value pa = decl_command [] 0 (returns (command_get_emcu_pa_value pa))"

definition DECL_pa_action :: "'z firmware_scheme command_parser" where
  "DECL_pa_action = decl_command [PT_uint32, PT_uint32] 0 (returns command_pa_action)"

definition DECL_get_basic_param :: "'z firmware_scheme command_parser" where
  "DECL_get_basic_param = decl_command [PT_uint32] 0 (returns command_get_basic_param)"

definition DECL_get_mcu_version :: "'z firmware_scheme command_parser" where
  "DECL_get_mcu_version = decl_command [] 0 (returns command_get_mcu_version)"

definition DECL_set_trigger_threshold :: "'z firmware_scheme command_parser" where
  "DECL_set_trigger_threshold = decl_command [PT_int32] 0 (returns command_set_trigger_threshold)"

definition DECL_clear_shutdown :: "'z firmware_scheme command_parser" where
  "DECL_clear_shutdown = decl_command [] HF_IN_SHUTDOWN (plain command_clear_shutdown)"

definition DECL_emergency_stop :: "'z firmware_scheme command_parser" where
  "DECL_emergency_stop = decl_command [] HF_IN_SHUTDOWN (plain command_emergency_stop)"

definition DECL_allocate_oids :: "'z firmware_scheme command_parser" where
  "DECL_allocate_oids = decl_command [PT_byte] 0 (plain command_allocate_oids)"

definition DECL_get_config :: "'z firmware_scheme command_parser" where
  "DECL_get_config = decl_command [] HF_IN_SHUTDOWN (returns command_get_config)"

definition DECL_finalize_config :: "'z firmware_scheme command_parser" where
  "DECL_finalize_config = decl_command [PT_uint32] 0 (plain command_finalize_config)"

definition DECL_get_clock :: "'z firmware_scheme command_parser" where
  "DECL_get_clock = decl_command [] HF_IN_SHUTDOWN (returns command_get_clock)"

definition DECL_get_uptime :: "'z firmware_scheme command_parser" where
  "DECL_get_uptime = decl_command [] HF_IN_SHUTDOWN (returns command_get_uptime)"

definition DECL_debug_ping :: "'z firmware_scheme command_parser" where
  "DECL_debug_ping = decl_command [PT_buffer] HF_IN_SHUTDOWN (\<lambda>buf args s. Ret () (command_debug_ping buf args s))"

definition DECL_debug_nop :: "'z firmware_scheme command_parser" where
  "DECL_debug_nop = decl_command [] HF_IN_SHUTDOWN (returns command_debug_nop)"

definition base_commands :: "u8 list \<Rightarrow> u32 \<Rightarrow> 'z firmware_scheme command_parser list" where
  "base_commands data pa =
     [DECL_identify data, DECL_remove_peel, DECL_get_emcu_pa_value pa, DECL_pa_action, DECL_get_basic_param,
      DECL_get_mcu_version, DECL_set_trigger_threshold, DECL_clear_shutdown, DECL_emergency_stop, DECL_allocate_oids,
      DECL_get_config, DECL_finalize_config, DECL_get_clock, DECL_get_uptime, DECL_debug_ping, DECL_debug_nop]"

text \<open>The declarations of the object types; \<open>enc\<close> as in \<open>command_endstop_recover_state\<close>.\<close>

definition DECL_config_trsync :: "'z firmware_scheme command_parser" where
  "DECL_config_trsync = decl_command [PT_byte] 0 (plain command_config_trsync)"

definition DECL_trsync_start :: "'z firmware_scheme command_parser" where
  "DECL_trsync_start = decl_command [PT_byte, PT_uint32, PT_uint32, PT_byte] 0 (plain command_trsync_start)"

definition DECL_trsync_set_timeout :: "'z firmware_scheme command_parser" where
  "DECL_trsync_set_timeout = decl_command [PT_byte, PT_uint32] 0 (plain command_trsync_set_timeout)"

definition DECL_trsync_trigger :: "'z firmware_scheme command_parser" where
  "DECL_trsync_trigger = decl_command [PT_byte, PT_byte] 0 (plain (command_trsync_trigger trsync_call))"

definition DECL_config_stepper :: "'z firmware_scheme command_parser" where
  "DECL_config_stepper = decl_command [PT_byte, PT_byte, PT_byte, PT_byte, PT_uint32] 0 (plain command_config_stepper)"

definition DECL_queue_step :: "'z firmware_scheme command_parser" where
  "DECL_queue_step = decl_command [PT_byte, PT_uint32, PT_uint16, PT_int16] 0 (plain command_queue_step)"

definition DECL_set_next_step_dir :: "'z firmware_scheme command_parser" where
  "DECL_set_next_step_dir = decl_command [PT_byte, PT_byte] 0 (plain command_set_next_step_dir)"

definition DECL_reset_step_clock :: "'z firmware_scheme command_parser" where
  "DECL_reset_step_clock = decl_command [PT_byte, PT_uint32] 0 (plain command_reset_step_clock)"

definition DECL_stepper_get_position :: "'z firmware_scheme command_parser" where
  "DECL_stepper_get_position = decl_command [PT_byte] 0 (plain command_stepper_get_position)"

definition DECL_stepper_stop_on_trigger :: "'z firmware_scheme command_parser" where
  "DECL_stepper_stop_on_trigger = decl_command [PT_byte, PT_byte] 0 (plain command_stepper_stop_on_trigger)"

definition DECL_config_endstop :: "'z firmware_scheme command_parser" where
  "DECL_config_endstop = decl_command [PT_byte, PT_byte, PT_byte] 0 (plain command_config_endstop)"

definition DECL_endstop_home :: "'z firmware_scheme command_parser" where
  "DECL_endstop_home = decl_command [PT_byte, PT_uint32, PT_uint32, PT_byte, PT_uint32, PT_byte, PT_byte, PT_byte] 0 (plain command_endstop_home)"

definition DECL_endstop_query_state :: "'z firmware_scheme command_parser" where
  "DECL_endstop_query_state = decl_command [PT_byte] 0 (plain command_endstop_query_state)"

definition DECL_endstop_recover_state :: "bool \<Rightarrow> 'z firmware_scheme command_parser" where
  "DECL_endstop_recover_state enc = decl_command [PT_byte] 0 (plain (command_endstop_recover_state enc))"

definition DECL_config_digital_out :: "'z firmware_scheme command_parser" where
  "DECL_config_digital_out = decl_command [PT_byte, PT_uint32, PT_byte, PT_byte, PT_uint32] 0 (plain command_config_digital_out)"

definition DECL_set_digital_out_pwm_cycle :: "'z firmware_scheme command_parser" where
  "DECL_set_digital_out_pwm_cycle = decl_command [PT_byte, PT_uint32] 0 (plain command_set_digital_out_pwm_cycle)"

definition DECL_queue_digital_out :: "'z firmware_scheme command_parser" where
  "DECL_queue_digital_out = decl_command [PT_byte, PT_uint32, PT_uint32] 0 (plain command_queue_digital_out)"

definition DECL_update_digital_out :: "'z firmware_scheme command_parser" where
  "DECL_update_digital_out = decl_command [PT_byte, PT_byte] 0 (plain command_update_digital_out)"

definition DECL_set_digital_out :: "'z firmware_scheme command_parser" where
  "DECL_set_digital_out = decl_command [PT_uint32, PT_byte] 0 (plain command_set_digital_out)"

definition DECL_config_pwm_out :: "'z firmware_scheme command_parser" where
  "DECL_config_pwm_out = decl_command [PT_byte, PT_uint32, PT_uint32, PT_uint16, PT_uint16, PT_uint32] 0 (plain command_config_pwm_out)"

definition DECL_queue_pwm_out :: "'z firmware_scheme command_parser" where
  "DECL_queue_pwm_out = decl_command [PT_byte, PT_uint32, PT_uint16] 0 (plain command_queue_pwm_out)"

definition DECL_set_pwm_out :: "'z firmware_scheme command_parser" where
  "DECL_set_pwm_out = decl_command [PT_uint32, PT_uint32, PT_uint16] 0 (plain command_set_pwm_out)"

definition DECL_config_analog_in :: "'z firmware_scheme command_parser" where
  "DECL_config_analog_in = decl_command [PT_byte, PT_uint32] 0 (plain command_config_analog_in)"

definition DECL_query_analog_in :: "'z firmware_scheme command_parser" where
  "DECL_query_analog_in = decl_command [PT_byte, PT_uint32, PT_uint32, PT_byte, PT_uint32, PT_uint16, PT_uint16, PT_byte] 0 (plain command_query_analog_in)"

definition DECL_config_buttons :: "'z firmware_scheme command_parser" where
  "DECL_config_buttons = decl_command [PT_byte, PT_byte] 0 (plain command_config_buttons)"

definition DECL_buttons_add :: "'z firmware_scheme command_parser" where
  "DECL_buttons_add = decl_command [PT_byte, PT_byte, PT_uint32, PT_byte] 0 (plain command_buttons_add)"

definition DECL_buttons_query :: "'z firmware_scheme command_parser" where
  "DECL_buttons_query = decl_command [PT_byte, PT_uint32, PT_uint32, PT_byte, PT_byte] 0 (plain command_buttons_query)"

definition DECL_buttons_ack :: "'z firmware_scheme command_parser" where
  "DECL_buttons_ack = decl_command [PT_byte, PT_byte] 0 (plain command_buttons_ack)"

definition DECL_config_counter :: "'z firmware_scheme command_parser" where
  "DECL_config_counter = decl_command [PT_byte, PT_uint32, PT_byte] 0 (plain command_config_counter)"

definition DECL_query_counter :: "'z firmware_scheme command_parser" where
  "DECL_query_counter = decl_command [PT_byte, PT_uint32, PT_uint32, PT_uint32] 0 (plain command_query_counter)"

definition DECL_config_tmcuart :: "'z firmware_scheme command_parser" where
  "DECL_config_tmcuart = decl_command [PT_byte, PT_uint32, PT_byte, PT_uint32, PT_uint32] 0 (plain command_config_tmcuart)"

definition DECL_tmcuart_send :: "'z firmware_scheme command_parser" where
  "DECL_tmcuart_send = decl_command [PT_byte, PT_buffer, PT_byte] 0 command_tmcuart_send"

definition DECL_config_neopixel :: "'z firmware_scheme command_parser" where
  "DECL_config_neopixel = decl_command [PT_byte, PT_uint32, PT_uint16, PT_uint32, PT_uint32] 0 (plain command_config_neopixel)"

definition DECL_neopixel_update :: "'z firmware_scheme command_parser" where
  "DECL_neopixel_update = decl_command [PT_byte, PT_uint16, PT_buffer] 0 command_neopixel_update"

definition DECL_neopixel_send :: "'z firmware_scheme command_parser" where
  "DECL_neopixel_send = decl_command [PT_byte] 0 (plain command_neopixel_send)"

definition object_commands :: "bool \<Rightarrow> 'z firmware_scheme command_parser list" where
  "object_commands enc =
     [DECL_config_trsync, DECL_trsync_start, DECL_trsync_set_timeout, DECL_trsync_trigger, DECL_config_stepper,
      DECL_queue_step, DECL_set_next_step_dir, DECL_reset_step_clock, DECL_stepper_get_position,
      DECL_stepper_stop_on_trigger, DECL_config_endstop, DECL_endstop_home, DECL_endstop_query_state,
      DECL_endstop_recover_state enc, DECL_config_digital_out, DECL_set_digital_out_pwm_cycle,
      DECL_queue_digital_out, DECL_update_digital_out, DECL_set_digital_out, DECL_config_pwm_out, DECL_queue_pwm_out,
      DECL_set_pwm_out, DECL_config_analog_in, DECL_query_analog_in, DECL_config_buttons, DECL_buttons_add,
      DECL_buttons_query, DECL_buttons_ack, DECL_config_counter, DECL_query_counter, DECL_config_tmcuart,
      DECL_tmcuart_send, DECL_config_neopixel, DECL_neopixel_update, DECL_neopixel_send]"

section \<open>Shutdown\<close>

datatype shutdown_func =
    S_sendf_shutdown | S_move_reset | S_timer_reset | S_trsync_shutdown | S_stepper_shutdown
  | S_digital_out_shutdown | S_pwm_shutdown | S_analog_in_shutdown | S_tmcuart_shutdown

fun run_shutdownfunc :: "shutdown_func \<Rightarrow> 'z firmware_scheme \<Rightarrow> (unit, 'z firmware_scheme) res" where
  "run_shutdownfunc S_sendf_shutdown s = Ret () (sendf_shutdown s)"
| "run_shutdownfunc S_move_reset s = Ret () (move_reset s)"
| "run_shutdownfunc S_timer_reset s = timer_reset s"
| "run_shutdownfunc S_trsync_shutdown s = trsync_shutdown s"
| "run_shutdownfunc S_stepper_shutdown s = stepper_shutdown s"
| "run_shutdownfunc S_digital_out_shutdown s = digital_out_shutdown s"
| "run_shutdownfunc S_pwm_shutdown s = pwm_shutdown s"
| "run_shutdownfunc S_analog_in_shutdown s = analog_in_shutdown s"
| "run_shutdownfunc S_tmcuart_shutdown s = tmcuart_shutdown s"

text \<open>The entry of \<open>sched_main\<close> after the \<open>longjmp\<close>.\<close>

definition firmware_shutdown ::
  "shutdown_func list \<Rightarrow> reason \<Rightarrow> 'z firmware_scheme \<Rightarrow> (unit, 'z firmware_scheme) res" where
  "firmware_shutdown order r s = run_shutdown (each run_shutdownfunc order) r s"

section \<open>Tasks\<close>

datatype task =
    K_console_task | K_timer_task | K_trsync_task | K_analog_in_task | K_buttons_task | K_counter_task
  | K_tmcuart_task

text \<open>
  The arguments of the console task: the table of commands, the bytes that arrive while a block is
  handled and while it is removed. A bootloader request does not return.
\<close>

fun run_task ::
  "'z firmware_scheme command_parser list \<Rightarrow> u8 list \<Rightarrow> u8 list list \<Rightarrow> task \<Rightarrow> 'z firmware_scheme \<Rightarrow>
   (unit, 'z firmware_scheme) res" where
  "run_task idx ds arr K_console_task s =
     bind (console_task idx ds arr s) (\<lambda>r s. case r of Console_Done \<Rightarrow> Ret () s | Bootloader_Requested \<Rightarrow> Fault)"
| "run_task idx ds arr K_timer_task s = Ret () (timer_task s)"
| "run_task idx ds arr K_trsync_task s = trsync_task s"
| "run_task idx ds arr K_analog_in_task s = analog_in_task s"
| "run_task idx ds arr K_buttons_task s = buttons_task s"
| "run_task idx ds arr K_counter_task s = counter_task s"
| "run_task idx ds arr K_tmcuart_task s = tmcuart_task s"

text \<open>
  One round of the loop of \<open>run_tasks\<close> once tasks are requested, from the start of the tasks at
  \<open>task_start\<close>; the result is the new \<open>task_start\<close>.
\<close>

definition run_tasks_round ::
  "'z firmware_scheme command_parser list \<Rightarrow> u8 list \<Rightarrow> u8 list list \<Rightarrow> task list \<Rightarrow> u32 \<Rightarrow>
   'z firmware_scheme \<Rightarrow> (u32, 'z firmware_scheme) res" where
  "run_tasks_round idx ds arr order task_start s =
     (let s = s\<lparr>tasks_status := TS_RUNNING\<rparr> in
      bind (each (run_task idx ds arr) order s) (\<lambda>_ s.
        let (cur, s) = timer_read_time s;
            s = stats_update task_start cur s;
            (woken, s) = sched_check_wake ff_eddy_wake s
        in Ret cur (if woken then ff_eddy_check_trigger s else s)))"

section \<open>Start\<close>

text \<open>
  \<open>sched_main\<close> up to the main loop, without the set up of the probe's peripherals. \<open>pins\<close> is the
  generated table of initial pins.
\<close>

definition sched_main :: "(u32 \<times> u8) list \<Rightarrow> 'z firmware_scheme \<Rightarrow> (unit, 'z firmware_scheme) res" where
  "sched_main pins s =
     bind (Ret () (alloc_init s)) (\<lambda>_ s.
     bind (initial_pins_setup pins s) (\<lambda>_ s.
     bind (timer_init s) (\<lambda>_ s.
     bind (ff_eddy_timer_init s) (\<lambda>_ s.
       Ret () (sendf ''starting'' [] s)))))"

end
