(* ===== verification/Firmware_Spec.thy ===== *)
theory Firmware_Spec
  imports Firmware Command_Spec Eddy_Spec Endstop_Spec
begin

text \<open>
  Properties of the components put together (theory \<open>Firmware\<close>): the declared commands against the
  contract of the dispatcher, the callbacks of the polling timers against the contract of the
  scheduler, an endstop hit from the timer dispatch to the stopped steppers, and the bounds of the
  neopixel data.
\<close>

section \<open>The table of commands\<close>

text \<open>A handler reads no argument but the \<open>n\<close> that its declaration has.\<close>

definition reads_args :: "nat \<Rightarrow> (u8 list \<Rightarrow> u32 list \<Rightarrow> 's \<Rightarrow> (unit, 's) res) \<Rightarrow> bool" where
  "reads_args n f \<longleftrightarrow> (\<forall>buf args extra s. length args = n \<longrightarrow> f buf (args @ extra) s = f buf args s)"

definition well_declared :: "'s command_parser \<Rightarrow> bool" where
  "well_declared cp \<longleftrightarrow> cp_num_args cp = num_args (cp_param_types cp) \<and> reads_args (cp_num_args cp) (cp_func cp)"

lemma decl_command_well:
  assumes "\<And>buf args extra s. length args = num_args ts \<Longrightarrow> f buf (args @ extra) s = f buf args s"
  shows "well_declared (decl_command ts flags f)"
  using assms by (simp add: well_declared_def decl_command_def num_args_def reads_args_def)

lemma nth_extra: "i < length args \<Longrightarrow> (args @ extra) ! i = args ! i"
  by (simp add: nth_append)

lemmas base_command_defs = command_identify_def command_remove_peel_def command_get_emcu_pa_value_def command_pa_action_def
  command_get_basic_param_def command_get_mcu_version_def command_set_trigger_threshold_def command_clear_shutdown_def
  command_emergency_stop_def command_allocate_oids_def command_get_config_def command_finalize_config_def
  command_get_clock_def command_get_uptime_def command_debug_ping_def command_debug_nop_def

lemmas base_decls = DECL_identify_def DECL_remove_peel_def DECL_get_emcu_pa_value_def DECL_pa_action_def
  DECL_get_basic_param_def DECL_get_mcu_version_def DECL_set_trigger_threshold_def DECL_clear_shutdown_def
  DECL_emergency_stop_def DECL_allocate_oids_def DECL_get_config_def DECL_finalize_config_def DECL_get_clock_def
  DECL_get_uptime_def DECL_debug_ping_def DECL_debug_nop_def

lemma base_commands_well: "list_all well_declared (base_commands data pa)"
  unfolding base_commands_def base_decls list.pred_inject
  by (intro conjI decl_command_well TrueI) (simp_all add: nth_extra base_command_defs)

lemmas object_command_defs = command_config_trsync_def command_trsync_start_def command_trsync_set_timeout_def
  command_trsync_trigger_def command_config_stepper_def command_queue_step_def command_set_next_step_dir_def
  command_reset_step_clock_def command_stepper_get_position_def command_stepper_stop_on_trigger_def
  command_config_endstop_def command_endstop_home_def command_endstop_query_state_def command_endstop_recover_state_def
  command_config_digital_out_def command_set_digital_out_pwm_cycle_def command_queue_digital_out_def
  command_update_digital_out_def command_set_digital_out_def command_config_pwm_out_def command_queue_pwm_out_def
  command_set_pwm_out_def command_config_analog_in_def command_query_analog_in_def command_config_buttons_def
  command_buttons_add_def command_buttons_query_def command_buttons_ack_def command_config_counter_def
  command_query_counter_def command_config_tmcuart_def command_tmcuart_send_def command_config_neopixel_def
  command_neopixel_update_def command_neopixel_send_def

lemmas object_decls = DECL_config_trsync_def DECL_trsync_start_def DECL_trsync_set_timeout_def DECL_trsync_trigger_def
  DECL_config_stepper_def DECL_queue_step_def DECL_set_next_step_dir_def DECL_reset_step_clock_def
  DECL_stepper_get_position_def DECL_stepper_stop_on_trigger_def DECL_config_endstop_def DECL_endstop_home_def
  DECL_endstop_query_state_def DECL_endstop_recover_state_def DECL_config_digital_out_def
  DECL_set_digital_out_pwm_cycle_def DECL_queue_digital_out_def DECL_update_digital_out_def DECL_set_digital_out_def
  DECL_config_pwm_out_def DECL_queue_pwm_out_def DECL_set_pwm_out_def DECL_config_analog_in_def
  DECL_query_analog_in_def DECL_config_buttons_def DECL_buttons_add_def DECL_buttons_query_def DECL_buttons_ack_def
  DECL_config_counter_def DECL_query_counter_def DECL_config_tmcuart_def DECL_tmcuart_send_def
  DECL_config_neopixel_def DECL_neopixel_update_def DECL_neopixel_send_def

lemma object_commands_well: "list_all well_declared (object_commands enc)"
  unfolding object_commands_def object_decls list.pred_inject
  by (intro conjI decl_command_well TrueI; simp add: nth_extra object_command_defs cong del: if_weak_cong let_weak_cong split del: if_split)

section \<open>Commands that leave the timers alone\<close>

text \<open>What every host command keeps: the timer list is sound and the probe state well formed.\<close>

definition host_ok :: "'z eddy_scheme \<Rightarrow> bool" where
  "host_ok s \<longleftrightarrow> (\<exists>b qs. sched_inv b s qs) \<and> eddy_ok (edy s)"

text \<open>The timer list is untouched, and the probe state is not changed to an ill formed one.\<close>

definition quiet :: "'z eddy_scheme \<Rightarrow> 'z eddy_scheme \<Rightarrow> bool" where
  "quiet s s' \<longleftrightarrow> timers s' = timers s \<and> timer_list s' = timer_list s \<and> last_insert s' = last_insert s \<and>
     (eddy_ok (edy s) \<longrightarrow> eddy_ok (edy s'))"

lemma quiet_ok: "quiet s s' \<Longrightarrow> host_ok s \<Longrightarrow> host_ok s'"
  unfolding quiet_def host_ok_def using sched_inv_same by metis

lemma quiet_refl: "quiet s s"
  by (simp add: quiet_def)

lemma quiet_trans: "quiet s s1 \<Longrightarrow> quiet s1 s2 \<Longrightarrow> quiet s s2"
  by (simp add: quiet_def)

lemma quiet_sendf: "quiet s (command_sendf m s)"
  by (simp add: quiet_def)

abbreviation quietly :: "'z eddy_scheme \<Rightarrow> ('a, 'z eddy_scheme) res \<Rightarrow> bool" where
  "quietly s m \<equiv> outcome m (\<lambda>_. quiet s) (\<lambda>_. quiet s)"

lemma quietly_bind: "quietly s m \<Longrightarrow> (\<And>x s1. quietly s1 (f x s1)) \<Longrightarrow> quietly s (bind m f)"
  unfolding outcome_bind
proof (erule outcome_mono)
  show "quietly s (f x s1)" if "\<And>x s1. quietly s1 (f x s1)" "quiet s s1" for x s1
    by (rule outcome_mono [OF that(1)]) (use quiet_trans [OF that(2)] in auto)
qed

lemma quietly_shutdown: "quietly s (shutdown_ec c r s)"
  by (simp add: shutdown_ec_def shutdown_def quiet_def)

lemma quietly_alloc_chunk: "quietly s (alloc_chunk n s)"
  by (simp add: alloc_chunk_def Let_def quiet_def shutdown_ec_def shutdown_def)

lemma quietly_alloc_chunks: "quietly s (alloc_chunks n k s)"
  by (auto simp: alloc_chunks_def Let_def quiet_refl intro: quietly_shutdown quietly_bind quietly_alloc_chunk)

lemma quietly_move_queue_setup: "quietly s (move_queue_setup n s)"
  by (simp add: move_queue_setup_def Let_def quiet_def shutdown_ec_def shutdown_def)

lemma quiet_move_reset: "quiet s (move_reset s)"
proof -
  have "quiet s0 (fold (\<lambda>i s. s\<lparr>mnext := (mnext s)(move_slot i s := Some (move_slot (i + 1) s))\<rparr>) xs s0)" for s0 :: "'a eddy_scheme" and xs
    by (induction xs arbitrary: s0) (simp_all add: quiet_def)
  then show ?thesis
    by (simp add: move_reset_def Let_def quiet_def)
qed

lemma quietly_move_finalize: "quietly s (move_finalize s)"
proof -
  have "quiet s' (move_reset (s'\<lparr>move_count := c, move_list := d\<rparr>))" for s' :: "'a eddy_scheme" and c d
    by (rule quiet_trans [OF _ quiet_move_reset]) (simp add: quiet_def)
  then show ?thesis
    by (auto simp: move_finalize_def Let_def split_def
        intro!: quietly_shutdown quietly_bind [OF quietly_move_queue_setup] quietly_bind [OF quietly_alloc_chunks])
qed

lemma quietly_sched_clear_shutdown: "quietly s (sched_clear_shutdown s)"
  by (simp add: sched_clear_shutdown_def quiet_def shutdown_ec_def shutdown_def)

lemma quietly_allocate_oids: "quietly s (command_allocate_oids args s)"
  by (auto simp: command_allocate_oids_def Let_def quiet_def [of _ "_\<lparr>oids_ptr := _, oids := _, oid_count := _\<rparr>"]
      intro!: quietly_shutdown quietly_bind [OF quietly_alloc_chunk])

lemma quietly_finalize_config: "quietly s (command_finalize_config args s)"
  by (auto simp: command_finalize_config_def quiet_def [of _ "_\<lparr>config_crc := _\<rparr>"] intro!: quietly_bind [OF quietly_move_finalize])

lemma quiet_eddy_step: "eddy_step s s' \<Longrightarrow> timers s' = timers s \<Longrightarrow> timer_list s' = timer_list s \<Longrightarrow>
    last_insert s' = last_insert s \<Longrightarrow> quiet s s'"
  by (simp add: quiet_def eddy_step_ok)

lemma quiet_eddy_commands: "quiet s (command_get_basic_param args s)" "quiet s (command_remove_peel args s)"
  "quiet s (command_set_trigger_threshold args s)"
  by (intro quiet_eddy_step eddy_step.get_basic_param eddy_step.remove_peel eddy_step.set_trigger_threshold;
      simp add: command_get_basic_param_def ff_eddy_rebaseline_def command_remove_peel_def command_set_trigger_threshold_def Let_def)+

lemma quiet_reads: "quiet s (command_get_clock args s)" "quiet s (command_get_uptime args s)" "quiet s (command_get_config args s)"
  "quiet s (command_identify data args s)" "quiet s (command_get_mcu_version args s)" "quiet s (command_debug_ping buf args s)"
  "quiet s (command_debug_nop args s)" "quiet s (command_get_emcu_pa_value pa args s)" "quiet s (command_pa_action args s)"
  by (simp_all add: base_command_defs timer_read_time_def tick_def ff_pa_action_def quiet_def Let_def)

lemma base_handlers_quiet:
  assumes "cp \<in> set (base_commands data pa)"
  shows "quietly s (cp_func cp buf args s)"
  using assms
  by (auto simp: base_commands_def base_decls decl_command_def command_clear_shutdown_def command_emergency_stop_def
      intro: quiet_eddy_commands quiet_reads quietly_sched_clear_shutdown quietly_shutdown quietly_allocate_oids quietly_finalize_config)

lemma quiet_report_shutdown: "quiet s (sched_report_shutdown s)"
  by (simp add: sched_report_shutdown_def ff_report_close_def quiet_def Let_def)

interpretation base: command_handlers "cp0 # base_commands data pa" host_ok "\<lambda>_. host_ok" for cp0 data pa
proof
  show "outcome (cp_func cp buf args s) (\<lambda>_. host_ok) (\<lambda>_. host_ok)"
    if "cp \<in> set (tl (cp0 # base_commands data pa))" "host_ok s" for cp buf args and s :: "'a firmware_scheme"
    by (rule outcome_mono [OF base_handlers_quiet [OF that(1) [unfolded list.sel]]]) (use quiet_ok [OF _ that(2)] in auto)
  show "host_ok (sched_report_shutdown s)" if "host_ok s" for s :: "'a firmware_scheme"
    using quiet_ok [OF quiet_report_shutdown that] .
qed

section \<open>Polling timers\<close>

text \<open>
  Timers whose callbacks run again after a fixed time: the static timers of the scheduler and of the
  probe, pulse counters, buttons, analog inputs and the reports of trsync objects.
\<close>

definition polling :: "'z firmware_scheme \<Rightarrow> tptr \<Rightarrow> bool" where
  "polling s t \<longleftrightarrow>
     (case func (timers s t) of
        F_periodic_event \<Rightarrow> t = PeriodicT
      | F_deleted_event \<Rightarrow> t = DeletedT
      | F_timer_wrap_event \<Rightarrow> t = WrapT
      | F_ff_eddy_timer_event \<Rightarrow> t = EddyT
      | F_counter_event \<Rightarrow> \<exists>a. t = MemT a \<and> c_poll_ticks (cnts s a) < 0x80000000
      | F_buttons_event \<Rightarrow> \<exists>a. t = MemT a \<and> b_rest_ticks (btns s a) < 0x80000000
      | F_analog_in_event \<Rightarrow> \<exists>a. t = MemT a
      | F_trsync_report_event \<Rightarrow> \<exists>a. t = MemT a \<and> report_ticks (ts_of s a) < 0x80000000
      | _ \<Rightarrow> False)"

text \<open>What the callbacks of such timers change besides wake times does not concern the timers.\<close>

definition steady :: "'z firmware_scheme \<Rightarrow> 'z firmware_scheme \<Rightarrow> bool" where
  "steady s s' \<longleftrightarrow> timer_list s' = timer_list s \<and> last_insert s' = last_insert s \<and>
     (\<forall>x. nxt (timers s' x) = nxt (timers s x) \<and> func (timers s' x) = func (timers s x)) \<and>
     (\<forall>a. c_poll_ticks (cnts s' a) = c_poll_ticks (cnts s a) \<and> b_rest_ticks (btns s' a) = b_rest_ticks (btns s a) \<and>
       report_ticks (ts_of s' a) = report_ticks (ts_of s a))"

lemma steady_polling: "steady s s' \<Longrightarrow> polling s' t = polling s t"
  by (cases "func (timers s t)") (simp_all add: steady_def polling_def)

text \<open>The callback \<open>m\<close> of \<open>t\<close> runs again within half the clock period.\<close>

definition reschedules :: "tptr \<Rightarrow> 'z firmware_scheme \<Rightarrow> (sf, 'z firmware_scheme) res \<Rightarrow> bool" where
  "reschedules t s m \<longleftrightarrow> (\<exists>s' d. m = Ret SF_RESCHEDULE s' \<and> steady s s' \<and> waketime_of s' t = waketime_of s t + d \<and> d < 0x80000000 \<and>
     (\<forall>x. x \<noteq> t \<and> (t = PeriodicT \<longrightarrow> x \<noteq> SentinelT) \<longrightarrow> waketime_of s' x = waketime_of s x) \<and>
     (t = PeriodicT \<longrightarrow> sentinel_ok s'))"

lemma read_frame: "\<exists>n. snd (gpio_in_read g s) = s\<lparr>env_pos := n\<rparr>"
proof -
  have "snd (gpio_in_read g s) = s\<lparr>env_pos := env_pos (snd (gpio_in_read g s))\<rparr>"
    by (simp add: gpio_in_read_def tick_def split_def)
  then show ?thesis by blast
qed

lemma read_pins_frame: "\<exists>n. snd (read_pins ps b st s) = s\<lparr>env_pos := n\<rparr>"
proof (induction ps arbitrary: b st s)
  case Nil
  show ?case by (rule exI [of _ "env_pos s"]) simp
next
  case (Cons p ps)
  obtain n where n: "snd (gpio_in_read p s) = s\<lparr>env_pos := n\<rparr>"
    using read_frame by blast
  have "\<exists>m. snd (read_pins ps b' st' (s\<lparr>env_pos := n\<rparr>)) = s\<lparr>env_pos := m\<rparr>" for b' st'
    using Cons.IH [of b' st' "s\<lparr>env_pos := n\<rparr>"] by simp
  then show ?case
    by (simp add: Let_def split_def n)
qed

lemma counter_reschedules:
  assumes "c_poll_ticks (cnts s a) < 0x80000000"
  shows "reschedules (MemT a) s (counter_event a s)"
proof -
  obtain n where rd: "snd (gpio_in_read (c_pin (cnts s a)) s) = s\<lparr>env_pos := n\<rparr>"
    using read_frame by blast
  show ?thesis
    using assms
    by (simp add: rd reschedules_def counter_event_def split_def Let_def steady_def sched_wake_task_def sched_wake_tasks_def upd_def)
qed

lemma buttons_rest: "b_rest_ticks (snd (buttons_debounce st b)) = b_rest_ticks b" "b_rest_ticks (snd (buttons_retransmit b)) = b_rest_ticks b"
  by (simp_all add: buttons_debounce_def buttons_retransmit_def Let_def)

lemma buttons_reschedules:
  assumes "b_rest_ticks (btns s a) < 0x80000000"
  shows "reschedules (MemT a) s (buttons_event a s)"
proof -
  obtain n where rd: "snd (read_pins (take (unat (b_button_count (btns s a))) (b_pins (btns s a))) 1 0 s) = s\<lparr>env_pos := n\<rparr>"
    using read_pins_frame by blast
  show ?thesis
    using assms
    by (simp add: reschedules_def buttons_event_def split_def Let_def rd buttons_rest steady_def sched_wake_task_def
        sched_wake_tasks_def upd_def)
qed

lemma analog_reschedules: "reschedules (MemT a) s (analog_in_event a s)"
  by (simp add: reschedules_def analog_in_event_def gpio_adc_sample_def timer_from_us_def CONFIG_CLOCK_FREQ_def steady_def upd_def)

lemma report_reschedules: "report_ticks (ts_of s a) < 0x80000000 \<Longrightarrow> reschedules (MemT a) s (trsync_report_event (MemT a) s)"
  by (simp add: reschedules_def trsync_report_event_def sched_wake_task_def sched_wake_tasks_def Let_def steady_def upd_def)

lemma wrap_reschedules: "reschedules WrapT s (timer_wrap_event WrapT s)"
  by (simp add: reschedules_def timer_wrap_event_def steady_def upd_def)

lemma periodic_reschedules: "reschedules PeriodicT s (periodic_event s)"
  by (simp add: reschedules_def periodic_event_def sched_wake_tasks_def timer_from_us_def CONFIG_CLOCK_FREQ_def Let_def
      sentinel_ok_def steady_def upd_def)

text \<open>The sampling of the probe changes the probe state and reads the clock.\<close>

definition eddy_only :: "'z eddy_scheme \<Rightarrow> 'z eddy_scheme \<Rightarrow> bool" where
  "eddy_only s s' \<longleftrightarrow> (\<exists>x n. s' = s\<lparr>edy := x, env_pos := n\<rparr>)"

lemma eddy_only_intros:
  "eddy_only s s" "eddy_only s s1 \<Longrightarrow> eddy_only s (s1\<lparr>edy := y\<rparr>)" "eddy_only s s1 \<Longrightarrow> eddy_only s (snd (ff_eddy_now_ms s1))"
  "(c \<Longrightarrow> eddy_only s s1) \<Longrightarrow> (\<not> c \<Longrightarrow> eddy_only s s2) \<Longrightarrow> eddy_only s (if c then s1 else s2)"
proof -
  show "eddy_only s s"
    unfolding eddy_only_def by (rule exI [of _ "edy s"], rule exI [of _ "env_pos s"]) simp
  assume "eddy_only s s1"
  then obtain x n where s1: "s1 = s\<lparr>edy := x, env_pos := n\<rparr>"
    by (auto simp: eddy_only_def)
  show "eddy_only s (s1\<lparr>edy := y\<rparr>)"
    unfolding eddy_only_def s1 by (rule exI [of _ y], rule exI [of _ n]) simp
  show "eddy_only s (snd (ff_eddy_now_ms s1))"
    unfolding eddy_only_def s1 ff_eddy_now_ms_def timer_read_time_def tick_def
    by (rule exI [of _ x], rule exI [of _ "Suc n"]) simp
qed simp

lemma eddy_update_only: "eddy_only s (ff_eddy_update s)"
  unfolding ff_eddy_update_def Let_def split_def by (intro eddy_only_intros)

lemma eddy_reschedules: "reschedules EddyT s (ff_eddy_timer_event EddyT s)"
proof -
  obtain x n where u: "ff_eddy_update s = s\<lparr>edy := x, env_pos := n\<rparr>"
    using eddy_update_only [of s] by (auto simp: eddy_only_def)
  show ?thesis
    by (simp add: reschedules_def ff_eddy_timer_event_def u Let_def timer_from_us_def CONFIG_CLOCK_FREQ_def FF_EDDY_SAMPLE_US_def
        steady_def upd_def)
qed

text \<open>One callback, in the terms of the contract of timer callbacks.\<close>

lemma running_start: "sched_inv b s (t # qs) \<Longrightarrow> running_inv b t s qs"
  by (auto simp: sched_inv_def running_inv_def chain_def)

lemma reschedules_result:
  assumes "sched_inv (waketime_of s t) s (t # qs)" "reschedules t s m" "t \<noteq> DeletedT"
  obtains s' where "m = Ret SF_RESCHEDULE s'" "steady s s'" "callback_result (waketime_of s t) t qs SF_RESCHEDULE s'"
proof -
  let ?b = "waketime_of s t"
  obtain s' d where m: "m = Ret SF_RESCHEDULE s'" "steady s s'" "waketime_of s' t = ?b + d" "d < 0x80000000"
    and o: "\<forall>x. x \<noteq> t \<and> (t = PeriodicT \<longrightarrow> x \<noteq> SentinelT) \<longrightarrow> waketime_of s' x = waketime_of s x" "t = PeriodicT \<longrightarrow> sentinel_ok s'"
    using assms(2) unfolding reschedules_def by blast
  have r: "running_inv ?b t s qs"
    using assms(1) by (rule running_start)
  have w: "waketime_of s' x = waketime_of s x" if "x \<in> set qs" for x
  proof -
    have "x \<noteq> t" "x \<noteq> SentinelT"
      using that r by (auto simp: running_inv_def chain_def)
    then show ?thesis
      using o(1) by simp
  qed
  have "chain ?b s (nxt (timers s t)) qs" "\<And>p xs. tpath (timers s') p xs = tpath (timers s) p xs"
    using r tpath_same [of "timers s'" "timers s"] m(2) by (simp_all add: running_inv_def steady_def)
  then have c: "chain ?b s' (nxt (timers s t)) qs"
    by (intro chain_cong [of ?b s _ _ s']) (simp_all add: w chain_def)
  have st: "sentinel_ok s'"
    using r o by (cases "t = PeriodicT") (auto simp: running_inv_def sentinel_ok_def)
  have "running_inv ?b t s' qs"
    using r c st m(2) by (simp add: running_inv_def steady_def)
  moreover have "in_window ?b (waketime_of s' t)"
    using m(3,4) by (simp add: in_window_def ahead_def word_less_nat_alt)
  ultimately show ?thesis
    using that [OF m(1,2)] assms(3) by (simp add: callback_result_def)
qed

lemma polling_reschedules:
  assumes "polling s t" "t \<noteq> DeletedT"
  shows "reschedules t s (run_timer (func (timers s t)) t s)"
  using assms unfolding polling_def
  by (auto split: timer_func.splits simp: on_object_def counter_reschedules buttons_reschedules analog_reschedules report_reschedules
      wrap_reschedules periodic_reschedules eddy_reschedules)

lemma polling_deleted: "polling s DeletedT \<Longrightarrow> func (timers s DeletedT) = F_deleted_event"
  by (auto simp: polling_def split: timer_func.splits)

lemma relinked_steady: "relinked s s' \<Longrightarrow> polling s' t = polling s t"
proof -
  assume r: "relinked s s'"
  then have "sched_only s s'"
    by (simp only: relinked_def sched_only_def)
  then have "cnts s' = cnts s" "btns s' = btns s" "trs s' = trs s"
    by (rule sched_only_frame, simp)+
  then show ?thesis
    using r by (cases "func (timers s t)") (simp_all add: polling_def relinked_def timer_frame_def)
qed

interpretation polled: timer_callbacks run_timer "\<lambda>T s. T - {DeletedT} = S \<and> (\<forall>t \<in> T. polling s t)" "\<lambda>_ _. False" for S
proof
  fix s :: "'a firmware_scheme" and t qs
  assume inv: "sched_inv (waketime_of s t) s (t # qs)" and ok: "set (t # qs) - {DeletedT} = S \<and> (\<forall>t \<in> set (t # qs). polling s t)"
  show "outcome (run_timer (func (timers s t)) t s)
    (\<lambda>r s'. \<exists>qs'. (pending_after t r qs' - {DeletedT} = S \<and> (\<forall>t \<in> pending_after t r qs'. polling s' t)) \<and>
      callback_result (waketime_of s t) t qs' r s') (\<lambda>_ _. False)"
  proof (cases "t = DeletedT")
    case True
    with ok have "run_timer (func (timers s t)) t s = Ret SF_DONE s"
      by (simp add: polling_deleted deleted_event_def)
    then show ?thesis
      using ok True running_start [OF inv] by (auto simp: callback_result_def intro!: exI [of _ qs])
  next
    case False
    then have "reschedules t s (run_timer (func (timers s t)) t s)"
      using ok by (simp add: polling_reschedules)
    from reschedules_result [OF inv this False] obtain s'
      where "run_timer (func (timers s t)) t s = Ret SF_RESCHEDULE s'" "steady s s'" "callback_result (waketime_of s t) t qs SF_RESCHEDULE s'" .
    then show ?thesis
      using ok steady_polling by (auto intro!: exI [of _ qs])
  qed
qed (simp_all add: relinked_steady)

section \<open>An endstop hit\<close>

text \<open>The dispatch of the event that completes the samples.\<close>

lemma endstop_hit_dispatched:
  assumes "sched_inv b s (MemT a # qs)" "func (timers s (MemT a)) = F_endstop_oversample_event" "pin_match a s"
    and "trigger_count (ends s a) = 1" "es_ts (ends s a) = Some ts" "registered ts as s" "move_owner as Q free s"
    and "has (ts_flags (ts_of s ts)) TSF_CAN_TRIGGER" "a \<notin> set as"
  obtains s' qs' where "sched_timer_dispatch run_timer s = Ret (waketime_of s' (timer_list s')) s'" "sched_inv b s' qs'"
    "set qs' = set qs - MemT ` set as" "all_stopped as Q free s s'"
    "trigger_reason (ts_of s' ts) = es_trigger_reason (ends s a)" "has (ts_flags (ts_of s' ts)) TSF_REPORT"
proof -
  have "run_pending b (MemT a) s (set qs)"
    using running_start [OF assms(1)] by (auto simp: run_pending_def)
  from endstop_hit [OF this assms(3-9)] obtain s1 where s1: "endstop_oversample_event a s = Ret SF_DONE s1"
    "run_pending b (MemT a) s1 (set qs - MemT ` set as)" "all_stopped as Q free s s1"
    "trigger_reason (ts_of s1 ts) = es_trigger_reason (ends s a)" "has (ts_flags (ts_of s1 ts)) TSF_REPORT" .
  then obtain qs1 where r: "running_inv b (MemT a) s1 qs1" "set qs1 = set qs - MemT ` set as"
    by (auto simp: run_pending_def)
  have "run_timer (func (timers s (MemT a))) (MemT a) s = Ret SF_DONE s1"
    using s1(1) assms(2) by (simp add: on_object_def)
  from dispatch_step [where run = run_timer, OF assms(1) this r(1) _ _ refl] obtain s'
    where d: "sched_timer_dispatch run_timer s = Ret (waketime_of s' (timer_list s')) s'" "sched_inv b s' qs1"
    and "s' = s1\<lparr>timers := timers s', timer_list := timer_list s', last_insert := last_insert s'\<rparr>"
    by auto
  then have "sched_only s1 s'"
    by (simp only: sched_only_def)
  note eq = sched_only_sel [OF this]
  show ?thesis
    using that [OF d r(2)] s1(3-5) by (simp add: all_stopped_def eq)
qed

section \<open>Neopixel data\<close>

lemma top_bit_clear:
  assumes "\<not> has (pos::u32) 0x8000" "unat n < 32768"
  shows "unat (pos + n) = unat pos + unat n"
proof (rule ccontr)
  assume "unat (pos + n) \<noteq> unat pos + unat n"
  then have big: "4294967296 \<le> unat pos + unat n"
    using unat_add_lem [of pos n] by simp
  have "unat pos div 32768 = 131071"
    using big assms(2) unat_u32 [of pos] by simp
  then have "bit (unat pos) 15"
    by (simp add: bit_iff_odd)
  then have "has pos 0x8000"
    using bit_iff_and_push_bit_not_eq_0 [of pos 15] by (simp add: has_def bit_unsigned_iff)
  with assms(1) show False ..
qed
text \<open>An update inside of the data replaces exactly the bytes it names; any other is refused.\<close>

lemma update_data:
  assumes "oid_lookup (ucast (args ! 0)) T_config_neopixel s = Ret a s" "length (np_data (neos s a)) = unat (np_data_size (neos s a))"
    and "unat (args ! 3) + unat (args ! 2) \<le> length buf" "unat (args ! 2) \<le> MESSAGE_MAX"
  shows "if \<not> has (args ! 1) 0x8000 \<and> unat (args ! 1) + unat (args ! 2) \<le> unat (np_data_size (neos s a))
    then \<exists>s'. command_neopixel_update buf args s = Ret () s' \<and> length (np_data (neos s' a)) = length (np_data (neos s a)) \<and>
      (\<forall>i < length (np_data (neos s a)). np_data (neos s' a) ! i =
         (if unat (args ! 1) \<le> i \<and> i < unat (args ! 1) + unat (args ! 2) then buf ! (unat (args ! 3) + (i - unat (args ! 1)))
          else np_data (neos s a) ! i))
    else \<exists>s'. command_neopixel_update buf args s = Shut ''Invalid neopixel update command'' s'"
proof (cases "\<not> has (args ! 1) 0x8000")
  case False
  then show ?thesis
    using assms(1) by (simp add: command_neopixel_update_def shutdown_ec_def shutdown_def)
next
  case True
  have "unat (args ! 1 + args ! 2) = unat (args ! 1) + unat (args ! 2)"
    using True assms(4) by (intro top_bit_clear) (simp_all add: MESSAGE_MAX_def)
  moreover have "unat (ucast (np_data_size (neos s a)) :: u32) = unat (np_data_size (neos s a))"
    by (rule unat_ucast_u16)
  moreover have "length (decode_bytes buf (args ! 3) (unat (args ! 2))) = unat (args ! 2)"
    "k < unat (args ! 2) \<Longrightarrow> decode_bytes buf (args ! 3) (unat (args ! 2)) ! k = buf ! (unat (args ! 3) + k)" for k
    using assms(3) by (simp_all add: decode_bytes_def)
  ultimately show ?thesis
    using True assms
    by (auto simp: command_neopixel_update_def shutdown_ec_def shutdown_def word_less_nat_alt Let_def nth_append)
qed

section \<open>Properties\<close>

text \<open>The state at the start, with the clock at 0 and all pins low.\<close>

definition start :: firmware where
  "start = firmware_static (quiet_env 0) 0 0 ()"

lemmas start_defs = start_def firmware_static_def tmcuart_static_def counters_static_def buttons_static_def analog_static_def
  pwm_static_def digital_static_def endstops_static_def eddy_static_def steppers_static_def trsyncs_static_def timer_irq_static_def
  serial_static_def command_static_def base_static_def sched_static_def board_static_def

lemma start_sel:
  "timers start = timers_static" "timer_list start = PeriodicT" "last_insert start = PeriodicT" "edy start = eddy_state_static"
  "next_sequence start = MESSAGE_DEST" "ends start = (\<lambda>_. endstop_zero)" "env_at start = quiet_env 0" "env_pos start = 0"
  "trs start = \<lparr>tss = \<lambda>_. trsync_zero, sigs = \<lambda>_. signal_zero\<rparr>" "stp start = \<lparr>stps = \<lambda>_. stepper_zero, smoves = \<lambda>_. stepper_move_zero\<rparr>"
  "move_free_list start = None" "neos start = (\<lambda>_. neopixel_zero 0)"
  by (simp_all add: start_defs)

lemma start_inv: "sched_inv 0 start [PeriodicT]"
  by (simp add: sched_inv_def chain_def start_sel timers_static_def sentinel_ok_def in_window_def ahead_def)

text \<open>
  C6. An endstop hit stops the machine: when the timer dispatch runs the event of an endstop that
  completes its matching samples, the dispatch returns, every stepper registered with the trsync
  object is stopped with its moves back in the pool, exactly the timers of these steppers and the
  endstop's own leave the timer list, no other stepper changes, and the host is going to be told the
  endstop's reason.
\<close>

theorem endstop_hit_stops_steppers:
  assumes "sched_inv b s (MemT a # qs)" "func (timers s (MemT a)) = F_endstop_oversample_event" "pin_match a s"
    and "trigger_count (ends s a) = 1" "es_ts (ends s a) = Some ts" "registered ts as s" "move_owner as Q free s"
    and "has (ts_flags (ts_of s ts)) TSF_CAN_TRIGGER" "a \<notin> set as"
  shows "\<exists>s' qs'. sched_timer_dispatch run_timer s = Ret (waketime_of s' (timer_list s')) s' \<and> sched_inv b s' qs' \<and>
    set qs' = set qs - MemT ` set as \<and> all_stopped as Q free s s' \<and>
    trigger_reason (ts_of s' ts) = es_trigger_reason (ends s a) \<and> has (ts_flags (ts_of s' ts)) TSF_REPORT"
  by (rule endstop_hit_dispatched [OF assms]) blast

text \<open>An endstop at address 32 is about to hit; the stepper at 64 is registered with the trsync object at 128.\<close>

definition about_to_hit :: firmware where
  "about_to_hit = start\<lparr>timer_list := MemT 32,
     timers := (timers start)(MemT 32 := \<lparr>nxt = Some PeriodicT, func = F_endstop_oversample_event, waketime = 0\<rparr>),
     ends := (\<lambda>_. endstop_zero\<lparr>trigger_count := 1, es_ts := Some 128, es_trigger_reason := 2\<rparr>),
     trs := \<lparr>tss = \<lambda>_. trsync_zero\<lparr>signals := Some 64, ts_flags := TSF_CAN_TRIGGER\<rparr>,
       sigs = \<lambda>_. signal_zero\<lparr>sig_func := Some CB_stepper_stop\<rparr>\<rparr>\<rparr>"

theorem endstop_hit_stops_steppers_witness:
  "\<exists>w s'. sched_timer_dispatch run_timer about_to_hit = Ret w s' \<and> trigger_reason (ts_of s' 128) = 2 \<and>
     has (st_flags (stp_of s' 64)) SF_NEED_RESET"
proof -
  let ?s = about_to_hit
  have "sched_inv 0 ?s [MemT 32, PeriodicT]"
    by (simp add: about_to_hit_def sched_inv_def chain_def start_sel timers_static_def sentinel_ok_def in_window_def ahead_def key_def)
  moreover have "pin_match 32 ?s"
    by (simp add: pin_match_def about_to_hit_def gpio_in_read_def endstop_zero_def no_pin_def endstop_mismatch_def has_def
        quiet_env_def sample_def start_sel tick_def FF_EDDY_ENDSTOP_PORT_def FF_EDDY_ENDSTOP_BIT_def)
  moreover have "registered 128 [64] ?s" "move_owner [64] (\<lambda>_. []) [] ?s"
    by (simp_all add: registered_def move_owner_def about_to_hit_def start_sel signal_zero_def stepper_zero_def)
  ultimately show ?thesis
    using endstop_hit_stops_steppers [of 0 ?s 32 "[PeriodicT]" 128 "[64]" "\<lambda>_. []" "[]"]
    by (auto simp: about_to_hit_def all_stopped_def stopped_def has_def TSF_CAN_TRIGGER_def)
qed

text \<open>
  C9. Polling goes on: from a state whose pending timers are those of the scheduler, the probe, pulse
  counters, buttons, analog inputs and trsync reports, with their poll times below half the clock
  period, any number of timer dispatches returns, without a fault and without a shutdown; the timer
  list stays sound and exactly the same timers stay pending.
\<close>

theorem polling_goes_on:
  assumes "sched_inv b s qs" "\<forall>t \<in> set qs. polling s t"
  shows "\<exists>s' b' qs'. dispatch_n run_timer n s = Ret () s' \<and> sched_inv b' s' qs' \<and> set (live qs') = set (live qs) \<and>
    (\<forall>t \<in> set qs'. polling s' t)"
proof -
  have "\<exists>b' qs'. sched_inv b' s qs' \<and> set qs' - {DeletedT} = set qs - {DeletedT} \<and> (\<forall>t \<in> set qs'. polling s t)"
    using assms by blast
  from polled.dispatch_n_ok [OF this, of n] show ?thesis
    by (cases "dispatch_n run_timer n s") (auto simp: live_def)
qed

theorem polling_goes_on_witness:
  "\<exists>s' b qs. dispatch_n run_timer 3 start = Ret () s' \<and> sched_inv b s' qs \<and> set (live qs) = {PeriodicT}"
proof -
  have "\<forall>t \<in> set [PeriodicT]. polling start t"
    by (simp add: polling_def start_sel timers_static_def)
  from polling_goes_on [OF start_inv this, of 3] show ?thesis
    by auto
qed





text \<open>
  C38. Updates of the neopixel data stay inside of the data: an update is accepted exactly if it fits
  in the configured size (also for positions whose sum with the length exceeds 32 bits), it then
  replaces exactly the bytes it names, and the object never accesses memory outside of its data.
\<close>

theorem neopixel_update_in_bounds:
  assumes "oid_lookup (ucast (args ! 0)) T_config_neopixel s = Ret a s" "length (np_data (neos s a)) = unat (np_data_size (neos s a))"
    and "unat (args ! 3) + unat (args ! 2) \<le> length buf" "unat (args ! 2) \<le> MESSAGE_MAX"
  shows "if \<not> has (args ! 1) 0x8000 \<and> unat (args ! 1) + unat (args ! 2) \<le> unat (np_data_size (neos s a))
    then \<exists>s'. command_neopixel_update buf args s = Ret () s' \<and> length (np_data (neos s' a)) = length (np_data (neos s a)) \<and>
      (\<forall>i < length (np_data (neos s a)). np_data (neos s' a) ! i =
         (if unat (args ! 1) \<le> i \<and> i < unat (args ! 1) + unat (args ! 2) then buf ! (unat (args ! 3) + (i - unat (args ! 1)))
          else np_data (neos s a) ! i))
    else \<exists>s'. command_neopixel_update buf args s = Shut ''Invalid neopixel update command'' s'"
  using assms by (rule update_data)

text \<open>A strip of two bytes at address 300.\<close>

definition one_strip :: firmware where
  "one_strip = start\<lparr>oid_count := 1, oids := \<lambda>_. \<lparr>otype = Some T_config_neopixel, odata = 300\<rparr>,
     neos := \<lambda>_. (neopixel_zero 2)\<lparr>np_data_size := 2\<rparr>\<rparr>"

theorem neopixel_update_in_bounds_witness:
  "\<exists>s'. command_neopixel_update [9, 7] [0, 1, 1, 1] one_strip = Ret () s' \<and> np_data (neos s' 300) ! 1 = 7"
proof -
  have "oid_lookup (ucast ([0, 1, 1, 1 :: u32] ! 0)) T_config_neopixel one_strip = Ret 300 one_strip"
    by (simp add: oid_lookup_def one_strip_def)
  from neopixel_update_in_bounds [OF this, of "[9, 7]"] show ?thesis
    by (auto simp: one_strip_def neopixel_zero_def has_def MESSAGE_MAX_def split: if_splits)
qed

end
