(* ===== verification/Spec2Isabelle.thy ===== *)
theory Spec2Isabelle
  imports Serial_Spec Serial_Link Eddy_Spec Endstop_Spec Digital_Out_Spec Inputs_Spec Tmcuart_Spec Firmware_Spec
begin

text \<open>
  \<^bold>\<open>Klipper firmware of the FlashForge levelBoard, and the host side of its link\<close>

  \<^bold>\<open>The program.\<close> The microcontroller runs a cooperative scheduler (\<^verbatim>\<open>src/klipper/src/sched.c\<close>): tasks
  in the main loop, and timers from one interrupt (\<^verbatim>\<open>generic/armcm_timer.c\<close>). The host sends commands
  in numbered blocks over a serial line (\<^verbatim>\<open>generic/serial_irq.c\<close>, \<^verbatim>\<open>command.c\<close>); a command configures
  an object (\<^verbatim>\<open>basecmd.c\<close>), queues work for it or asks for its state. Steppers, outputs, inputs,
  endstops, the eddy current probe and the TMC UART are such objects, each with a timer callback. A
  trigger (\<^verbatim>\<open>trsync.c\<close>) stops the steppers that have registered with it. On the host,
  \<^verbatim>\<open>klippy/chelper/serialqueue.c\<close> builds the blocks, awaits acknowledgements and retransmits.

  \<^bold>\<open>State and outcome.\<close> The state of the firmware is one extensible record, which grows with the
  components: \<open>board\<close>, \<open>sched\<close>, \<open>base\<close>, \<open>command\<close>, \<open>serial\<close>, \<open>timer_irq\<close>, \<open>trsyncs\<close>, \<open>steppers\<close>, \<open>eddy\<close>,
  \<open>endstops\<close>, \<open>digital\<close>, \<open>pwm\<close>, \<open>analog\<close>, \<open>buttons_c\<close>, \<open>counters\<close>, \<open>tmcuart\<close>, \<open>firmware\<close>; an
  operation of a component is a function on every extension of its record. Objects of the dynamic memory
  are named by their addresses, and pointers are addresses or \<open>None\<close>. A C function returns a value in a
  new state (\<open>Ret\<close>), leaves by \<open>sched_shutdown\<close> (\<open>Shut\<close>, with the state at that moment), or follows a
  null pointer or loops for ever (\<open>Fault\<close>). Inputs from outside (the clock, pins, registers that hardware
  changes, bytes received) come from an arbitrary sequence of environments in the state. Integers have
  the width of the source, and arithmetic on them wraps.

  \<^bold>\<open>Theories and sources.\<close> A theory \<open>X\<close> holds the definitions, and \<open>X_Spec\<close> the lemmas and properties.
    \<^item> \<open>Prelude\<close>: words, outcomes, clock comparison, list lemmas.
    \<^item> \<open>Board\<close>: \<^verbatim>\<open>stm32/gpio.c\<close>, \<^verbatim>\<open>stm32/stm32f1.c\<close>, the shutdown macros of \<^verbatim>\<open>command.h\<close>.
    \<^item> \<open>Sched\<close>, \<open>Sched_Spec\<close>: \<^verbatim>\<open>sched.c\<close>. The timers form a linked list with the insertion hint
      \<open>last_insert\<close>; \<open>sched_inv\<close> relates it to a sorted list, and adding, deleting and dispatching refine
      the operations on that list. The locale \<open>timer_callbacks\<close> carries an invariant of the callbacks over
      any number of dispatches.
    \<^item> \<open>Basecmd\<close>, \<open>Basecmd_Spec\<close>: \<^verbatim>\<open>basecmd.c\<close>, \<^verbatim>\<open>ff_flashforge.c\<close>. Areas of the allocator are disjoint, the
      nodes of move queues are neither lost nor shared, object ids are found again.
    \<^item> \<open>Command\<close>, \<open>Command_Spec\<close>: \<^verbatim>\<open>command.c\<close>, \<^verbatim>\<open>crc16_ccitt.c\<close>. Integers and messages are read back,
      frames are accepted, dispatch stays inside a block. The locale \<open>command_handlers\<close> carries an invariant
      of the handlers over a block.
    \<^item> \<open>Serial\<close>, \<open>Serial_Spec\<close>: \<^verbatim>\<open>generic/serial_irq.c\<close>, \<^verbatim>\<open>stm32/serial.c\<close>. The two buffers are queues.
    \<^item> \<open>Timer_Irq\<close>: \<^verbatim>\<open>generic/armcm_timer.c\<close>. \<open>Trsync\<close>: \<^verbatim>\<open>trsync.c\<close>.
    \<^item> \<open>Stepper\<close>, \<open>Stepper_Spec\<close>: \<^verbatim>\<open>stepper.c\<close>. A stepper makes exactly the queued pulses; a trigger stops all
      registered steppers. The locale \<open>timer_removal\<close> is what stopping needs of the scheduler, in a command
      and in a timer callback.
    \<^item> \<open>Eddy\<close>, \<open>Eddy_Spec\<close>: \<^verbatim>\<open>ff_eddy.c\<close>. Median filter, square root, calibration and trigger decision.
    \<^item> \<open>Endstop\<close>, \<open>Digital_Out\<close>, \<open>Pwm\<close>, \<open>Adc\<close>, \<open>Buttons\<close>, \<open>Pulse_Counter\<close>, \<open>Tmcuart\<close>, \<open>Neopixel\<close> and their
      properties in \<open>Endstop_Spec\<close>, \<open>Digital_Out_Spec\<close>, \<open>Inputs_Spec\<close>, \<open>Tmcuart_Spec\<close>: \<^verbatim>\<open>endstop.c\<close>,
      \<^verbatim>\<open>gpiocmds.c\<close>, \<^verbatim>\<open>pwmcmds.c\<close>, \<^verbatim>\<open>adccmds.c\<close> and \<^verbatim>\<open>n32g45x_adc.c\<close>, \<^verbatim>\<open>buttons.c\<close>, \<^verbatim>\<open>pulse_counter.c\<close>,
      \<^verbatim>\<open>tmcuart.c\<close>, \<^verbatim>\<open>neopixel.c\<close> with \<^verbatim>\<open>debugcmds.c\<close> and \<^verbatim>\<open>initial_pins.c\<close>.
    \<^item> \<open>Firmware\<close>, \<open>Firmware_Spec\<close>: the table of all commands, the dispatch of a timer to its callback and
      the main loop; the properties that span components: an endstop hit stops the steppers and takes
      their timers off the list, polling timers run for ever, commands of the host keep the invariants.
    \<^item> \<open>Msgblock\<close>, \<open>Serialqueue\<close>, \<open>Serial_Link\<close>: \<^verbatim>\<open>klippy/chelper/msgblock.c\<close> and \<^verbatim>\<open>serialqueue.c\<close>, and the
      two sides connected by a line that loses blocks: blocks arrive in order and once, the host keeps its
      window, and the link recovers from every loss. Floating point numbers of the host are of an arbitrary
      type with arbitrary operations.

  \<^bold>\<open>Loops.\<close> A loop with a bound in the code is a recursive function. Loops over pointers that need not end
  (the timer list, signals, queued moves, the command event of the host) are \<open>partial_function (option)\<close>;
  the theorems state that they return, from the invariant that makes the lists finite and acyclic. The
  fuel of \<open>play\<close>, which runs a stepper, is the number of pulses of its queue, and that is enough.

  \<^bold>\<open>Not modelled.\<close> Assembly code, the vector table, reset and fault handlers; the register set-up of
  clocks, DMA and peripherals (\<^verbatim>\<open>serial_init\<close>, \<^verbatim>\<open>ff_eddy_dma_init\<close>, \<^verbatim>\<open>ff_eddy_pin.c\<close>, the vendor
  library), which has no effect in the state; the sleep between rounds of \<^verbatim>\<open>run_tasks\<close>; \<^verbatim>\<open>setjmp\<close> itself
  (its effect is the outcome \<open>Shut\<close>); \<^verbatim>\<open>debug_read\<close> and \<^verbatim>\<open>debug_write\<close>, which access raw memory; drivers
  that are not compiled for this board. Interrupts are disabled in the code that the model treats as one
  step, so a step of a timer or of the serial port happens between the steps of a task. Of the host, motion
  planning in floating point and the Python code are not modelled, nor are threads and file descriptors.
\<close>

end
